theory Spec2Isabelle
  imports Main
begin

section \<open>JavaScript strings\<close>

text \<open>
  A JavaScript string is a sequence of code units; \<open>length\<close>, \<open>slice\<close> and \<open>+\<close> count and
  copy code units.  They are modelled as \<^typ>\<open>string\<close>, whose characters range over the
  code units up to 0xFF.  \<open>String.prototype.trim\<close> removes WhiteSpace and LineTerminator
  code units from both ends; in this range these are TAB, LF, VT, FF, CR, SPACE and
  NO-BREAK SPACE.
\<close>

definition isWhiteSpace :: "char \<Rightarrow> bool" where
  "isWhiteSpace c =
     (c \<in> {CHR 0x09, CHR 0x0A, CHR 0x0B, CHR 0x0C, CHR 0x0D, CHR 0x20, CHR 0xA0})"

definition trimStart :: "string \<Rightarrow> string" where
  "trimStart s = dropWhile isWhiteSpace s"

definition trimEnd :: "string \<Rightarrow> string" where
  "trimEnd s = rev (dropWhile isWhiteSpace (rev s))"

definition trim :: "string \<Rightarrow> string" where
  "trim s = trimEnd (trimStart s)"

text \<open>\<open>s.slice(0, n)\<close> for a non-negative \<open>n\<close>.\<close>

definition slice0 :: "nat \<Rightarrow> string \<Rightarrow> string" where
  "slice0 n s = take n s"

section \<open>The run registry (\<open>cli-session-map.ts\<close>, second module)\<close>

text \<open>
  A \<open>CliRunHandle\<close> is an object compared by reference (\<open>===\<close>), so the registry stores
  the handle's identity, a natural number.  A waiter is identified by the number of the
  promise it resolves.  The \<open>Set\<close> objects held in \<open>CLI_RUN_WAITERS\<close> are captured by the
  timeout closures, so they live in an explicit store: \<open>CLI_RUN_WAITERS\<close> maps a session
  key to the address of its \<open>Set\<close>, and \<open>set_store\<close> gives the members of each \<open>Set\<close> in
  insertion order.

  Time is modelled by a clock in milliseconds and the list of pending timeouts:
  \<open>setTimeout\<close> adds an entry with its deadline, \<open>clearTimeout\<close> removes it, and the event
  loop (\<open>advance\<close>) runs the callbacks whose deadline has been reached.  \<open>resolved\<close> records
  every call of a promise's \<open>resolve\<close> in order; a promise settles with the first value it
  is resolved with (\<open>outcome\<close>).
\<close>

record registry =
  ACTIVE_CLI_RUNS :: "string \<rightharpoonup> nat"
  CLI_RUN_WAITERS :: "string \<rightharpoonup> nat"
  set_store :: "nat \<Rightarrow> nat list"
  timers :: "(nat \<times> string \<times> nat \<times> int) list"
  resolved :: "(nat \<times> bool) list"
  clock :: int
  next_ref :: nat
  state_changes :: "(string \<times> string \<times> string) list"

definition empty_registry :: registry where
  "empty_registry = \<lparr> ACTIVE_CLI_RUNS = Map.empty, CLI_RUN_WAITERS = Map.empty,
     set_store = (\<lambda>_. []), timers = [], resolved = [], clock = 0, next_ref = 0,
     state_changes = [] \<rparr>"

definition outcome :: "registry \<Rightarrow> nat \<Rightarrow> bool option" where
  "outcome r p = map_of (resolved r) p"

definition resolve_promise :: "nat \<Rightarrow> bool \<Rightarrow> registry \<Rightarrow> registry" where
  "resolve_promise p b r = r\<lparr>resolved := resolved r @ [(p, b)]\<rparr>"

definition clearTimeout :: "nat \<Rightarrow> registry \<Rightarrow> registry" where
  "clearTimeout w r = r\<lparr>timers := filter (\<lambda>t. fst t \<noteq> w) (timers r)\<rparr>"

definition set_add :: "nat \<Rightarrow> nat \<Rightarrow> registry \<Rightarrow> registry" where
  "set_add a w r =
     r\<lparr>set_store := (set_store r)(a := (if w \<in> set (set_store r a) then set_store r a
                                          else set_store r a @ [w]))\<rparr>"

definition set_delete :: "nat \<Rightarrow> nat \<Rightarrow> registry \<Rightarrow> registry" where
  "set_delete a w r = r\<lparr>set_store := (set_store r)(a := removeAll w (set_store r a))\<rparr>"

definition waiters_delete :: "string \<Rightarrow> registry \<Rightarrow> registry" where
  "waiters_delete sessionId r = r\<lparr>CLI_RUN_WAITERS := (CLI_RUN_WAITERS r)(sessionId := None)\<rparr>"

text \<open>\<open>queueCliMessage\<close>: CLI mode has no mid-run steering.\<close>

definition queueCliMessage :: "string \<Rightarrow> string \<Rightarrow> registry \<Rightarrow> bool" where
  "queueCliMessage sessionId text r = False"

definition isCliRunActive :: "string \<Rightarrow> registry \<Rightarrow> bool" where
  "isCliRunActive sessionId r = (ACTIVE_CLI_RUNS r sessionId \<noteq> None)"

text \<open>The callback given to \<open>setTimeout\<close> by waiter \<open>w\<close>, which captured the set at \<open>a\<close>.\<close>

definition timeoutCallback :: "nat \<Rightarrow> string \<Rightarrow> nat \<Rightarrow> registry \<Rightarrow> registry" where
  "timeoutCallback w sessionId a r =
     (let r1 = set_delete a w r;
          r2 = (if set_store r1 a = [] then waiters_delete sessionId r1 else r1)
      in resolve_promise w False r2)"

text \<open>
  \<open>setTimeout\<close> of Node.js takes the delay it is given only when it lies between 1 and
  2147483647 (\<open>TIMEOUT_MAX\<close>, the largest 32-bit signed integer); any other delay is
  replaced by 1.
\<close>

definition setTimeout_delay :: "int \<Rightarrow> int" where
  "setTimeout_delay ms = (if 1 \<le> ms \<and> ms \<le> 2147483647 then ms else 1)"

text \<open>
  \<open>waitForCliRunEnd(sessionId, timeoutMs = 15_000)\<close>; the argument is \<open>None\<close> when the
  caller omits it, and a whole number of milliseconds otherwise.  (A \<open>timeoutMs\<close> that is
  not a finite number takes a path that a whole number takes too: \<open>NaN\<close> and \<open>Infinity\<close> end
  as the delay 1, like a number above 2147483647, and \<open>-Infinity\<close> as the delay 100.)  The
  result is the promise returned and the new registry.
\<close>

definition waitForCliRunEnd :: "string \<Rightarrow> int option \<Rightarrow> registry \<Rightarrow> nat \<times> registry" where
  "waitForCliRunEnd sessionId timeoutArg r =
     (let timeoutMs = (case timeoutArg of None \<Rightarrow> 15000 | Some t \<Rightarrow> t);
          p = next_ref r;
          r0 = r\<lparr>next_ref := Suc p\<rparr>
      in if sessionId = [] \<or> ACTIVE_CLI_RUNS r0 sessionId = None
         then (p, resolve_promise p True r0)
         else
           let (a, r1) = (case CLI_RUN_WAITERS r0 sessionId of
                            Some a \<Rightarrow> (a, r0)
                          | None \<Rightarrow> (next_ref r0,
                               r0\<lparr>set_store := (set_store r0)(next_ref r0 := []),
                                  next_ref := Suc (next_ref r0)\<rparr>));
               r2 = r1\<lparr>timers := timers r1 @ [(p, sessionId, a, clock r1 + setTimeout_delay (max 100 timeoutMs))]\<rparr>;
               r3 = set_add a p r2;
               r4 = r3\<lparr>CLI_RUN_WAITERS := (CLI_RUN_WAITERS r3)(sessionId \<mapsto> a)\<rparr>
           in if ACTIVE_CLI_RUNS r4 sessionId = None
              then
                (let r5 = set_delete a p r4;
                     r6 = (if set_store r5 a = [] then waiters_delete sessionId r5 else r5)
                 in (p, resolve_promise p True (clearTimeout p r6)))
              else (p, r4))"

definition notifyCliRunEnded :: "string \<Rightarrow> registry \<Rightarrow> registry" where
  "notifyCliRunEnded sessionId r =
     (case CLI_RUN_WAITERS r sessionId of
        None \<Rightarrow> r
      | Some a \<Rightarrow>
          if set_store r a = [] then r
          else fold (\<lambda>w r'. resolve_promise w True (clearTimeout w r'))
                 (set_store r a) (waiters_delete sessionId r))"

definition setActiveCliRun :: "string \<Rightarrow> nat \<Rightarrow> registry \<Rightarrow> registry" where
  "setActiveCliRun sessionId handle r =
     (let wasActive = (ACTIVE_CLI_RUNS r sessionId \<noteq> None)
      in r\<lparr>ACTIVE_CLI_RUNS := (ACTIVE_CLI_RUNS r)(sessionId \<mapsto> handle),
           state_changes := state_changes r @
             [(sessionId, ''processing'',
               if wasActive then ''cli_run_replaced'' else ''cli_run_started'')]\<rparr>)"

definition clearActiveCliRun :: "string \<Rightarrow> nat \<Rightarrow> registry \<Rightarrow> registry" where
  "clearActiveCliRun sessionId handle r =
     (if ACTIVE_CLI_RUNS r sessionId = Some handle
      then notifyCliRunEnded sessionId
             (r\<lparr>ACTIVE_CLI_RUNS := (ACTIVE_CLI_RUNS r)(sessionId := None),
                state_changes := state_changes r @
                  [(sessionId, ''idle'', ''cli_run_completed'')]\<rparr>)
      else r)"

text \<open>
  The event loop: the clock moves forward by \<open>d\<close> milliseconds and every pending timeout
  whose deadline has been reached runs, earliest deadline first (\<open>sort_key\<close> is stable, so
  equal deadlines run in the order they were set).
\<close>

definition due_timers :: "registry \<Rightarrow> (nat \<times> string \<times> nat \<times> int) list" where
  "due_timers r = sort_key (\<lambda>t. snd (snd (snd t))) (filter (\<lambda>t. snd (snd (snd t)) \<le> clock r) (timers r))"

definition fire_timer :: "nat \<times> string \<times> nat \<times> int \<Rightarrow> registry \<Rightarrow> registry" where
  "fire_timer t r =
     (case t of (w, sessionId, a, d) \<Rightarrow> timeoutCallback w sessionId a (clearTimeout w r))"

definition advance :: "int \<Rightarrow> registry \<Rightarrow> registry" where
  "advance d r = (let r1 = r\<lparr>clock := clock r + d\<rparr> in fold fire_timer (due_timers r1) r1)"

text \<open>The waiters currently registered for a session key, in insertion order.\<close>

definition waiters_of :: "registry \<Rightarrow> string \<Rightarrow> nat list" where
  "waiters_of r sessionId =
     (case CLI_RUN_WAITERS r sessionId of None \<Rightarrow> [] | Some a \<Rightarrow> set_store r a)"

text \<open>
  Promise and timer identities are allocated from \<open>next_ref\<close>; in a registry reached by
  the operations above every identity in use lies below it.
\<close>

definition ids_fresh :: "registry \<Rightarrow> bool" where
  "ids_fresh r =
     ((\<forall>x\<in>set (resolved r). fst x < next_ref r)
      \<and> (\<forall>t\<in>set (timers r). fst t < next_ref r)
      \<and> (\<forall>a. \<forall>w\<in>set (set_store r a). w < next_ref r))"

text \<open>
  The delay after which the timeout of a waiter fires: the default of 15 s, the floor of
  100 ms, and what \<open>setTimeout\<close> makes of the result.
\<close>

definition timeout_of :: "int option \<Rightarrow> int" where
  "timeout_of t = setTimeout_delay (max 100 (case t of None \<Rightarrow> 15000 | Some t \<Rightarrow> t))"

text \<open>Several callers waiting on one session key, one after the other.\<close>

fun waitMany :: "string \<Rightarrow> int option list \<Rightarrow> registry \<Rightarrow> nat list \<times> registry" where
  "waitMany sessionId [] r = ([], r)"
| "waitMany sessionId (t # ts) r =
     (let (p, r1) = waitForCliRunEnd sessionId t r;
          (ps, r2) = waitMany sessionId ts r1
      in (p # ps, r2))"

text \<open>Example registries: a run registered under \<open>''s''\<close>, and one under the empty key.\<close>

definition ex_active :: registry where
  "ex_active = setActiveCliRun ''s'' 1 empty_registry"

definition ex_empty_key :: registry where
  "ex_empty_key = setActiveCliRun [] 7 empty_registry"

section \<open>Stream events and run results (\<open>pi-cli-runner/types.ts\<close>)\<close>

text \<open>
  The runners cast the value that \<open>JSON.parse\<close> returns for a line to the type
  \<open>CliStreamEvent\<close> without checking it, so the model has a constructor for every value the
  handlers tell apart.  \<open>NullValue\<close> is the value \<open>null\<close>, whose \<open>type\<close> cannot be read.  The
  other constructors follow the \<open>type\<close> field; a value whose \<open>type\<close> matches no case of the
  \<open>switch\<close> (a number, a string, an array, an object of another type) is \<open>OtherEvent\<close>.  An
  optional field is an \<open>option\<close>.  The \<open>message\<close> of an assistant event carries the flat
  fields read by the pipe runner (\<open>type\<close>, \<open>text\<close>) and the content list read by the
  pseudo-terminal runner; an element of that list is \<open>None\<close> when it is \<open>null\<close>.  The \<open>result\<close>
  field of a result event is a string or an object with an optional \<open>text\<close>.  The \<open>error\<close>
  field of an error event is \<open>None\<close> when it is absent or \<open>null\<close>; otherwise it is a value
  with an optional \<open>message\<close>.
\<close>

datatype content_block = ContentBlock (block_type: string) (block_text: "string option")

datatype message =
  Message (message_type: "string option") (message_text: "string option")
    (message_content: "content_block option list option")

datatype result_value = ResultString string | ResultObject "string option"

datatype error_value = ErrorObject (error_message: "string option")

datatype CliStreamEvent =
    NullValue
  | SystemEvent "string option" "string option"
  | AssistantEvent "message option"
  | ContentBlockStart
  | ContentBlockDelta "string option" "string option"
  | ContentBlockStop
  | ToolUse
  | ToolResultEvent "string option"
  | ResultEvent "result_value option" "string option"
  | ErrorEvent "error_value option"
  | OtherEvent

text \<open>
  The calls made to the caller's callbacks, each with the \<open>text\<close> it was given.  The
  callbacks are optional (\<open>params.onPartialReply?.(...)\<close>); a call is recorded whether or
  not the caller supplied the function, and the function returns.
\<close>

datatype callback = PartialReply string | BlockReply string | ToolResult string

record payload =
  payload_text :: string
  isError :: bool

text \<open>
  The result of a run: its payloads (absent when \<open>undefined\<close>), the \<open>aborted\<close> flag and the
  session id of \<open>meta\<close>.  The duration, the provider and the model of \<open>meta\<close> do not depend
  on the output of the child and are left out.
\<close>

record run_result =
  payloads :: "payload list option"
  result_aborted :: bool
  result_sessionId :: string

text \<open>
  The variables closed over by one run: \<open>kills\<close> lists the calls of \<open>kill\<close> on the child, each
  with its signal, \<open>callbacks\<close> the callback calls made so far, \<open>timeoutId\<close> tells whether
  the run's timer is armed, and \<open>settled\<close> is the value the run's promise was resolved with
  (the first \<open>resolve\<close> wins).
\<close>

record run_state =
  isStreaming :: bool
  aborted :: bool
  resolvedSessionId :: string
  collectedTexts :: "string list"
  currentTextBuffer :: string
  dataBuffer :: string
  stderrBuffer :: string
  timeoutId :: bool
  kills :: "string list"
  callbacks :: "callback list"
  settled :: "run_result option"

definition init_run :: "string \<Rightarrow> int \<Rightarrow> run_state" where
  "init_run sessionId timeoutMs =
     \<lparr> isStreaming = True, aborted = False, resolvedSessionId = sessionId,
       collectedTexts = [], currentTextBuffer = [], dataBuffer = [], stderrBuffer = [],
       timeoutId = (timeoutMs > 0), kills = [], callbacks = [], settled = None \<rparr>"

definition emit :: "callback \<Rightarrow> run_state \<Rightarrow> run_state" where
  "emit cb st = st\<lparr>callbacks := callbacks st @ [cb]\<rparr>"

text \<open>
  None of the handlers of the streaming runners catches an exception, apart from the
  \<open>try\<close> around \<open>JSON.parse\<close>.  A handler therefore ends in one of two ways: it returns, or
  an exception escapes it.  Either way the variables of the run keep the values they have
  at that moment.  \<open>Inr st\<close> is a handler that returned, leaving the variables \<open>st\<close>;
  \<open>Inl (e, st)\<close> is a handler that \<open>e\<close> escaped from, leaving the variables \<open>st\<close>.
  \<open>TypeError\<close> is what reading a property of \<open>null\<close> or \<open>undefined\<close> throws; \<open>KillError\<close> is
  whatever the \<open>kill\<close> of the child throws.
\<close>

datatype js_error = TypeError | KillError

type_synonym handled = "(js_error \<times> run_state) + run_state"

definition after :: "handled \<Rightarrow> run_state" where
  "after h = (case h of Inl (e, st) \<Rightarrow> st | Inr st \<Rightarrow> st)"

definition returned :: "handled \<Rightarrow> bool" where
  "returned h = (case h of Inl x \<Rightarrow> False | Inr st \<Rightarrow> True)"

text \<open>
  What the call \<open>child.kill("SIGTERM")\<close> or \<open>pty.kill("SIGTERM")\<close> does is decided by
  Node.js and by \<open>node-pty\<close>, not by this code: it returns, or it throws (as
  \<open>ChildProcess.kill\<close> does when the system call reports \<open>EINVAL\<close> or \<open>ENOSYS\<close>, and as the
  Windows terminal of \<open>node-pty\<close> does when it is given a signal).  The outcome is a
  parameter of \<open>handle.abort\<close>.  A failure of \<open>kill\<close> that Node.js reports by an \<open>error\<close>
  event on the child reaches the run as that event.
\<close>

datatype kill_outcome = KillReturns | KillThrows

text \<open>
  \<open>handle.abort\<close>, the same in both streaming runners: the flags are set before \<open>kill\<close> is
  called, and the call is not guarded.  Then the run's timer callback.
\<close>

definition handle_abort :: "kill_outcome \<Rightarrow> run_state \<Rightarrow> handled" where
  "handle_abort kill st =
     (if \<not> aborted st
      then
        (let st1 = st\<lparr>aborted := True, isStreaming := False, kills := kills st @ [''SIGTERM'']\<rparr>
         in case kill of KillReturns \<Rightarrow> Inr st1 | KillThrows \<Rightarrow> Inl (KillError, st1))
      else Inr st)"

definition onTimeout :: "kill_outcome \<Rightarrow> run_state \<Rightarrow> handled" where
  "onTimeout kill st = (if isStreaming st then handle_abort kill st else Inr st)"

text \<open>
  \<open>finalize\<close> disarms the timer, ends streaming and resolves the run's promise.  It also
  calls \<open>clearActiveCliRun\<close> with the session id and the run's own handle; that call acts
  on the registry and is the \<open>clearActiveCliRun\<close> of the registry section.
\<close>

definition finalize :: "run_result \<Rightarrow> run_state \<Rightarrow> run_state" where
  "finalize result st =
     st\<lparr>timeoutId := False, isStreaming := False,
        settled := (case settled st of None \<Rightarrow> Some result | Some r \<Rightarrow> Some r)\<rparr>"

text \<open>
  \<open>abortCliRun\<close> of the registry calls the \<open>abort\<close> of the registered handle; an exception
  that escapes \<open>abort\<close> escapes \<open>abortCliRun\<close> too, which then returns no value.
\<close>

definition abortCliRun ::
  "kill_outcome \<Rightarrow> string \<Rightarrow> registry \<Rightarrow> (nat \<Rightarrow> run_state)
     \<Rightarrow> (js_error + bool) \<times> (nat \<Rightarrow> run_state)" where
  "abortCliRun kill sessionId r runs =
     (case ACTIVE_CLI_RUNS r sessionId of
        None \<Rightarrow> (Inr False, runs)
      | Some handle \<Rightarrow>
          (case handle_abort kill (runs handle) of
             Inl (e, st) \<Rightarrow> (Inl e, runs(handle := st))
           | Inr st \<Rightarrow> (Inr True, runs(handle := st))))"

definition isCliRunStreaming :: "string \<Rightarrow> registry \<Rightarrow> (nat \<Rightarrow> run_state) \<Rightarrow> bool" where
  "isCliRunStreaming sessionId r runs =
     (case ACTIVE_CLI_RUNS r sessionId of None \<Rightarrow> False | Some handle \<Rightarrow> isStreaming (runs handle))"

text \<open>Template literals print a number in decimal, \<open>null\<close> as \<open>null\<close> and \<open>undefined\<close> as \<open>undefined\<close>.\<close>

definition digit :: "nat \<Rightarrow> char" where
  "digit d = ''0123456789'' ! d"

function decimal :: "nat \<Rightarrow> string" where
  "decimal n = (if 10 \<le> n then decimal (n div 10) @ [digit (n mod 10)] else [digit n])"
  by pat_completeness auto
termination
  by (relation "measure id") auto

declare decimal.simps [simp del]

definition number_text :: "int \<Rightarrow> string" where
  "number_text i = (if 0 \<le> i then decimal (nat i) else CHR ''-'' # decimal (nat (- i)))"

definition string_of_code :: "int option \<Rightarrow> string" where
  "string_of_code code = (case code of None \<Rightarrow> ''null'' | Some c \<Rightarrow> number_text c)"

definition string_of_message :: "string option \<Rightarrow> string" where
  "string_of_message m = (case m of None \<Rightarrow> ''undefined'' | Some s \<Rightarrow> s)"

text \<open>The summary of a tool result (\<open>const summary\<close> in both runners).\<close>

definition summary :: "string \<Rightarrow> string" where
  "summary content = (if length content > 200 then slice0 200 content @ ''...'' else content)"

section \<open>The pipe runner (\<open>spawn\<close> and \<open>readline\<close>)\<close>

text \<open>
  The \<open>switch\<close> of the \<open>line\<close> handler, on the parsed event.  Reading \<open>event.type\<close> throws
  when the event is \<open>null\<close>, and reading \<open>event.error.message\<close> throws when the event has no
  \<open>error\<close>; both happen before any variable is assigned.
\<close>

fun onEvent :: "CliStreamEvent \<Rightarrow> run_state \<Rightarrow> handled" where
  "onEvent NullValue st = Inl (TypeError, st)"
| "onEvent (SystemEvent subtype session_id) st =
     Inr (case session_id of
            Some sid \<Rightarrow> if subtype = Some ''init'' \<and> sid \<noteq> [] then st\<lparr>resolvedSessionId := sid\<rparr> else st
          | None \<Rightarrow> st)"
| "onEvent (AssistantEvent m) st =
     Inr (case m of
            Some (Message ty (Some t) content) \<Rightarrow>
              if ty = Some ''text'' \<and> t \<noteq> []
              then emit (PartialReply t) (st\<lparr>currentTextBuffer := currentTextBuffer st @ t\<rparr>)
              else st
          | _ \<Rightarrow> st)"
| "onEvent (ContentBlockDelta ty tx) st =
     Inr (case tx of
            Some t \<Rightarrow>
              if ty = Some ''text_delta'' \<and> t \<noteq> []
              then emit (PartialReply t) (st\<lparr>currentTextBuffer := currentTextBuffer st @ t\<rparr>)
              else st
          | None \<Rightarrow> st)"
| "onEvent ContentBlockStop st =
     Inr (if currentTextBuffer st \<noteq> []
          then (emit (BlockReply (currentTextBuffer st))
                  (st\<lparr>collectedTexts := collectedTexts st @ [currentTextBuffer st]\<rparr>))
               \<lparr>currentTextBuffer := []\<rparr>
          else st)"
| "onEvent (ToolResultEvent content) st =
     Inr (case content of
            Some c \<Rightarrow> if c \<noteq> [] then emit (ToolResult (summary c)) st else st
          | None \<Rightarrow> st)"
| "onEvent (ResultEvent result session_id) st =
     Inr (let st1 = (case session_id of
                       Some sid \<Rightarrow> if sid \<noteq> [] then st\<lparr>resolvedSessionId := sid\<rparr> else st
                     | None \<Rightarrow> st)
          in case result of
               Some (ResultObject (Some t)) \<Rightarrow>
                 if t \<noteq> [] \<and> t \<notin> set (collectedTexts st1)
                 then st1\<lparr>collectedTexts := collectedTexts st1 @ [t]\<rparr>
                 else st1
             | _ \<Rightarrow> st1)"
| "onEvent (ErrorEvent err) st =
     (case err of
        None \<Rightarrow> Inl (TypeError, st)
      | Some (ErrorObject m) \<Rightarrow>
          Inr (st\<lparr>collectedTexts := collectedTexts st @ [''Error: '' @ string_of_message m]\<rparr>))"
| "onEvent ContentBlockStart st = Inr st"
| "onEvent ToolUse st = Inr st"
| "onEvent OtherEvent st = Inr st"

text \<open>
  The \<open>line\<close> handler.  \<open>JSON.parse\<close> is a parameter: \<open>None\<close> when it throws, which the handler
  catches, and the value parsed otherwise.
\<close>

definition onLine :: "(string \<Rightarrow> CliStreamEvent option) \<Rightarrow> string \<Rightarrow> run_state \<Rightarrow> handled" where
  "onLine parse line st =
     (if trim line = [] then Inr st
      else case parse line of None \<Rightarrow> Inr st | Some event \<Rightarrow> onEvent event st)"

definition onStderr :: "string \<Rightarrow> run_state \<Rightarrow> run_state" where
  "onStderr chunk st = st\<lparr>stderrBuffer := stderrBuffer st @ chunk\<rparr>"

text \<open>The \<open>close\<close> handler; \<open>code\<close> is \<open>null\<close> when the child was ended by a signal.\<close>

definition onClose :: "int option \<Rightarrow> run_state \<Rightarrow> run_state" where
  "onClose code st =
     (let st1 = (if currentTextBuffer st \<noteq> []
                 then st\<lparr>collectedTexts := collectedTexts st @ [currentTextBuffer st]\<rparr>
                 else st);
          ps = (if collectedTexts st1 \<noteq> []
                then Some (map (\<lambda>t. \<lparr>payload_text = t, isError = False\<rparr>) (collectedTexts st1))
                else None)
      in if code \<noteq> Some 0 \<and> stderrBuffer st1 \<noteq> [] \<and> \<not> aborted st1
         then
           (let errorPayload =
                  \<lparr>payload_text = ''CLI error (exit '' @ string_of_code code @ ''): ''
                            @ slice0 500 (trim (stderrBuffer st1)),
                   isError = True\<rparr>
            in finalize
                 \<lparr>payloads = Some (case ps of Some l \<Rightarrow> l @ [errorPayload] | None \<Rightarrow> [errorPayload]),
                  result_aborted = aborted st1,
                  result_sessionId = resolvedSessionId st1\<rparr> st1)
         else finalize
                \<lparr>payloads = ps, result_aborted = aborted st1,
                 result_sessionId = resolvedSessionId st1\<rparr> st1)"

text \<open>The \<open>error\<close> handler of the child (the spawn failed).\<close>

definition onSpawnError :: "string \<Rightarrow> run_state \<Rightarrow> run_state" where
  "onSpawnError errMessage st =
     finalize
       \<lparr>payloads = Some [\<lparr>payload_text = ''Failed to spawn CLI: '' @ errMessage, isError = True\<rparr>],
        result_aborted = aborted st, result_sessionId = resolvedSessionId st\<rparr> st"

section \<open>The pseudo-terminal runner\<close>

text \<open>
  The runner loads \<open>node-pty\<close> first.  When that fails no child is started and the runner
  returns this result, \<open>err\<close> being the error as the template literal prints it.
\<close>

definition ptyLoadFailed :: "string \<Rightarrow> string \<Rightarrow> run_result" where
  "ptyLoadFailed err sessionId =
     \<lparr>payloads = Some [\<lparr>payload_text = ''Failed to load PTY: '' @ err, isError = True\<rparr>],
      result_aborted = False, result_sessionId = sessionId\<rparr>"

text \<open>
  The loop over the content of an assistant event.  Reading \<open>block.type\<close> throws when the
  block is \<open>null\<close>; the blocks before it have been handled by then.
\<close>

fun assistant_blocks :: "content_block option list \<Rightarrow> run_state \<Rightarrow> handled" where
  "assistant_blocks [] st = Inr st"
| "assistant_blocks (None # blocks) st = Inl (TypeError, st)"
| "assistant_blocks (Some block # blocks) st =
     assistant_blocks blocks
       (case block_text block of
          Some t \<Rightarrow>
            if block_type block = ''text'' \<and> t \<noteq> []
            then emit (PartialReply t) (st\<lparr>currentTextBuffer := currentTextBuffer st @ t\<rparr>)
            else st
        | None \<Rightarrow> st)"

text \<open>
  The \<open>switch\<close> of \<open>processLine\<close>, on the parsed event, with the \<open>diag.debug\<close> before it, which
  reads \<open>event.type\<close>.
\<close>

fun processEvent :: "CliStreamEvent \<Rightarrow> run_state \<Rightarrow> handled" where
  "processEvent NullValue st = Inl (TypeError, st)"
| "processEvent (SystemEvent subtype session_id) st =
     Inr (case session_id of
            Some sid \<Rightarrow> if subtype = Some ''init'' \<and> sid \<noteq> [] then st\<lparr>resolvedSessionId := sid\<rparr> else st
          | None \<Rightarrow> st)"
| "processEvent (AssistantEvent m) st =
     (case m of
        Some (Message ty tx (Some content)) \<Rightarrow> assistant_blocks content st
      | _ \<Rightarrow> Inr st)"
| "processEvent (ContentBlockDelta ty tx) st =
     Inr (case tx of
            Some t \<Rightarrow>
              if ty = Some ''text_delta'' \<and> t \<noteq> []
              then emit (PartialReply t) (st\<lparr>currentTextBuffer := currentTextBuffer st @ t\<rparr>)
              else st
          | None \<Rightarrow> st)"
| "processEvent ContentBlockStop st =
     Inr (if currentTextBuffer st \<noteq> []
          then (emit (BlockReply (currentTextBuffer st))
                  (st\<lparr>collectedTexts := collectedTexts st @ [currentTextBuffer st]\<rparr>))
               \<lparr>currentTextBuffer := []\<rparr>
          else st)"
| "processEvent (ToolResultEvent content) st =
     Inr (case content of
            Some c \<Rightarrow> if c \<noteq> [] then emit (ToolResult (summary c)) st else st
          | None \<Rightarrow> st)"
| "processEvent (ResultEvent result session_id) st =
     Inr (let st1 = (case session_id of
                       Some sid \<Rightarrow> if sid \<noteq> [] then st\<lparr>resolvedSessionId := sid\<rparr> else st
                     | None \<Rightarrow> st)
          in if collectedTexts st1 = [] \<and> currentTextBuffer st1 = []
             then
               (let resultText = (case result of
                                    Some (ResultString s) \<Rightarrow> Some s
                                  | Some (ResultObject t) \<Rightarrow> t
                                  | None \<Rightarrow> None)
                in case resultText of
                     Some t \<Rightarrow> if t \<noteq> [] then st1\<lparr>collectedTexts := collectedTexts st1 @ [t]\<rparr> else st1
                   | None \<Rightarrow> st1)
             else st1)"
| "processEvent (ErrorEvent err) st =
     (case err of
        None \<Rightarrow> Inl (TypeError, st)
      | Some (ErrorObject m) \<Rightarrow>
          Inr (st\<lparr>collectedTexts := collectedTexts st @ [''Error: '' @ string_of_message m]\<rparr>))"
| "processEvent ContentBlockStart st = Inr st"
| "processEvent ToolUse st = Inr st"
| "processEvent OtherEvent st = Inr st"

definition processLine :: "(string \<Rightarrow> CliStreamEvent option) \<Rightarrow> string \<Rightarrow> run_state \<Rightarrow> handled" where
  "processLine parse line st =
     (if trim line = [] then Inr st
      else case parse line of None \<Rightarrow> Inr st | Some event \<Rightarrow> processEvent event st)"

text \<open>\<open>line.replace(/\r$/, "")\<close>: one carriage return at the end is removed.\<close>

definition strip_cr :: "string \<Rightarrow> string" where
  "strip_cr line = (if line \<noteq> [] \<and> last line = CHR 0x0D then butlast line else line)"

text \<open>
  The \<open>while\<close> loop of the data handler, with the buffer as the loop variable: while the
  buffer holds a newline, the text before it is processed as a line and the buffer keeps
  what follows; what is left at the end is stored back.  The source assigns the rest to
  \<open>dataBuffer\<close> before it calls \<open>processLine\<close>, so when that call throws the variable holds
  the rest of the data, the lines not yet processed included.
\<close>

function drain :: "(string \<Rightarrow> CliStreamEvent option) \<Rightarrow> string \<Rightarrow> run_state \<Rightarrow> handled" where
  "drain parse buf st =
     (if CHR 0x0A \<in> set buf
      then (case processLine parse (strip_cr (takeWhile (\<lambda>c. c \<noteq> CHR 0x0A) buf)) st of
              Inl (e, st') \<Rightarrow> Inl (e, st'\<lparr>dataBuffer := tl (dropWhile (\<lambda>c. c \<noteq> CHR 0x0A) buf)\<rparr>)
            | Inr st' \<Rightarrow> drain parse (tl (dropWhile (\<lambda>c. c \<noteq> CHR 0x0A) buf)) st')
      else Inr (st\<lparr>dataBuffer := buf\<rparr>))"
  by pat_completeness auto
termination
proof (relation "measure (\<lambda>(parse, buf, st). length buf)")
  show "wf (measure (\<lambda>(parse, buf, st). length buf))" by simp
next
  fix parse :: "string \<Rightarrow> CliStreamEvent option" and buf :: string and st st' :: run_state
  assume "CHR 0x0A \<in> set buf"
  then have "dropWhile (\<lambda>c. c \<noteq> CHR 0x0A) buf \<noteq> []" by simp
  then have "length (tl (dropWhile (\<lambda>c. c \<noteq> CHR 0x0A) buf))
               < length (dropWhile (\<lambda>c. c \<noteq> CHR 0x0A) buf)"
    by simp
  also have "\<dots> \<le> length buf" by (rule length_dropWhile_le)
  finally show "((parse, tl (dropWhile (\<lambda>c. c \<noteq> CHR 0x0A) buf), st'), (parse, buf, st))
                  \<in> measure (\<lambda>(parse, buf, st). length buf)"
    by simp
qed

declare drain.simps [simp del]

definition onData :: "(string \<Rightarrow> CliStreamEvent option) \<Rightarrow> string \<Rightarrow> run_state \<Rightarrow> handled" where
  "onData parse data st = drain parse (dataBuffer st @ data) st"

text \<open>
  The exit handler.  When processing the rest of the data throws, the handler ends there:
  the text buffer is not flushed and \<open>finalize\<close> is not called.
\<close>

definition onExit :: "(string \<Rightarrow> CliStreamEvent option) \<Rightarrow> int \<Rightarrow> run_state \<Rightarrow> handled" where
  "onExit parse exitCode st =
     (case (if trim (dataBuffer st) \<noteq> [] then processLine parse (trim (dataBuffer st)) st
            else Inr st) of
        Inl thrown \<Rightarrow> Inl thrown
      | Inr st0 \<Rightarrow>
          Inr (let st1 = (if currentTextBuffer st0 \<noteq> []
                          then st0\<lparr>collectedTexts := collectedTexts st0 @ [currentTextBuffer st0]\<rparr>
                          else st0);
                   ps = (if collectedTexts st1 \<noteq> []
                         then Some (map (\<lambda>t. \<lparr>payload_text = t, isError = False\<rparr>)
                                      (collectedTexts st1))
                         else None)
               in if exitCode \<noteq> 0 \<and> \<not> aborted st1 \<and> collectedTexts st1 = []
                  then finalize
                         \<lparr>payloads = Some [\<lparr>payload_text = ''CLI exited with code ''
                                                            @ number_text exitCode,
                                             isError = True\<rparr>],
                          result_aborted = aborted st1, result_sessionId = resolvedSessionId st1\<rparr>
                         st1
                  else finalize
                         \<lparr>payloads = ps, result_aborted = aborted st1,
                          result_sessionId = resolvedSessionId st1\<rparr> st1))"

text \<open>The texts carried by the calls of one callback, in order.\<close>

fun partial_texts :: "callback list \<Rightarrow> string list" where
  "partial_texts [] = []"
| "partial_texts (PartialReply t # cs) = t # partial_texts cs"
| "partial_texts (c # cs) = partial_texts cs"

fun block_texts :: "callback list \<Rightarrow> string list" where
  "block_texts [] = []"
| "block_texts (BlockReply t # cs) = t # block_texts cs"
| "block_texts (c # cs) = block_texts cs"

fun tool_texts :: "callback list \<Rightarrow> string list" where
  "tool_texts [] = []"
| "tool_texts (ToolResult t # cs) = t # tool_texts cs"
| "tool_texts (c # cs) = tool_texts cs"

text \<open>The callback calls made after the state \<open>st\<close>, up to the state \<open>st'\<close>.\<close>

definition new_callbacks :: "run_state \<Rightarrow> run_state \<Rightarrow> callback list" where
  "new_callbacks st st' = drop (length (callbacks st)) (callbacks st')"

definition payload_texts :: "run_state \<Rightarrow> string list" where
  "payload_texts st =
     (case settled st of
        Some res \<Rightarrow> (case payloads res of Some ps \<Rightarrow> map payload_text ps | None \<Rightarrow> [])
      | None \<Rightarrow> [])"

text \<open>
  The effect of a run of events without a block stop: callbacks are only added, none of
  them a block reply, and the text buffer grows by the texts of the partial replies added,
  each of which is non-empty.
\<close>

definition segment :: "run_state \<Rightarrow> run_state \<Rightarrow> bool" where
  "segment st st' =
     (\<exists>new. callbacks st' = callbacks st @ new \<and> block_texts new = []
        \<and> currentTextBuffer st' = currentTextBuffer st @ concat (partial_texts new)
        \<and> [] \<notin> set (partial_texts new))"

text \<open>
  What reaches a run between its start and the exit of the child, in the order the event
  loop delivers it: a line of output (pipe runner) or a chunk of data (pseudo-terminal
  runner), a chunk of error output, the run's timer, calls of \<open>handle.abort\<close>, and the
  \<open>error\<close> event of the child, with the message of its error (Node.js emits it when the
  child could not be spawned or could not be killed; only the pipe runner listens to it).
  \<open>kill\<close> is what the call of \<open>kill\<close> does in this run, should it be made.
\<close>

datatype run_input =
  LineIn string | DataIn string | StderrIn string | TimeoutIn | AbortIn | ErrorIn string

fun pipe_step ::
  "(string \<Rightarrow> CliStreamEvent option) \<Rightarrow> kill_outcome \<Rightarrow> run_input \<Rightarrow> run_state \<Rightarrow> handled" where
  "pipe_step parse kill (LineIn line) st = onLine parse line st"
| "pipe_step parse kill (DataIn data) st = Inr st"
| "pipe_step parse kill (StderrIn chunk) st = Inr (onStderr chunk st)"
| "pipe_step parse kill TimeoutIn st = (if timeoutId st then onTimeout kill st else Inr st)"
| "pipe_step parse kill AbortIn st = handle_abort kill st"
| "pipe_step parse kill (ErrorIn errMessage) st = Inr (onSpawnError errMessage st)"

fun pty_step ::
  "(string \<Rightarrow> CliStreamEvent option) \<Rightarrow> kill_outcome \<Rightarrow> run_input \<Rightarrow> run_state \<Rightarrow> handled" where
  "pty_step parse kill (LineIn line) st = Inr st"
| "pty_step parse kill (DataIn data) st = onData parse data st"
| "pty_step parse kill (StderrIn chunk) st = Inr st"
| "pty_step parse kill TimeoutIn st = (if timeoutId st then onTimeout kill st else Inr st)"
| "pty_step parse kill AbortIn st = handle_abort kill st"
| "pty_step parse kill (ErrorIn errMessage) st = Inr st"

text \<open>
  An exception that escapes a handler reaches the event loop.  Node.js then ends the
  process, unless the host has installed a listener for uncaught exceptions, in which case
  the next event is handled with the variables as the failed handler left them.
  \<open>handle_events\<close> is the run in the first case: it stops at the first exception.
  \<open>after_events\<close> gives the variables in the second case, when every event has been handled,
  whether its handler returned or threw.  The two agree when no handler throws.
\<close>

fun handle_events :: "('a \<Rightarrow> run_state \<Rightarrow> handled) \<Rightarrow> 'a list \<Rightarrow> run_state \<Rightarrow> handled" where
  "handle_events f [] st = Inr st"
| "handle_events f (x # xs) st =
     (case f x st of Inl thrown \<Rightarrow> Inl thrown | Inr st' \<Rightarrow> handle_events f xs st')"

definition after_events :: "('a \<Rightarrow> run_state \<Rightarrow> handled) \<Rightarrow> 'a list \<Rightarrow> run_state \<Rightarrow> run_state" where
  "after_events f xs st = fold (\<lambda>x s. after (f x s)) xs st"

text \<open>
  An event that has the fields its handlers read without a guard: it is not \<open>null\<close>, an
  error event has an \<open>error\<close>, and no block of an assistant event is \<open>null\<close>.  A parser all of
  whose results are such events stands for a child that prints nothing else.
\<close>

fun well_formed :: "CliStreamEvent \<Rightarrow> bool" where
  "well_formed NullValue = False"
| "well_formed (ErrorEvent err) = (err \<noteq> None)"
| "well_formed (AssistantEvent m) =
     (case m of Some (Message ty tx (Some content)) \<Rightarrow> None \<notin> set content | _ \<Rightarrow> True)"
| "well_formed ev = True"

definition parse_ok :: "(string \<Rightarrow> CliStreamEvent option) \<Rightarrow> bool" where
  "parse_ok parse = (\<forall>line ev. parse line = Some ev \<longrightarrow> well_formed ev)"

text \<open>Example events.\<close>

definition text_delta :: "string \<Rightarrow> CliStreamEvent" where
  "text_delta t = ContentBlockDelta (Some ''text_delta'') (Some t)"

definition result_text :: "string \<Rightarrow> CliStreamEvent" where
  "result_text t = ResultEvent (Some (ResultObject (Some t))) None"

text \<open>
  Once a run is aborted, nothing that reaches it calls \<open>kill\<close> again or undoes the flag, and
  a result it is settled with from then on has the flag set.
\<close>

definition aborted_once :: "string list \<Rightarrow> run_state \<Rightarrow> bool" where
  "aborted_once ks st =
     (aborted st \<and> \<not> isStreaming st \<and> kills st = ks
      \<and> (case settled st of None \<Rightarrow> True | Some res \<Rightarrow> result_aborted res))"

section \<open>Backend descriptors and their resolution\<close>

text \<open>
  A \<open>CliBackendConfig\<close> is an object read from the configuration or one of the two
  built-in constants; a key that is absent is \<open>None\<close>.  Objects used as dictionaries
  (\<open>env\<close>, \<open>modelAliases\<close>, \<open>usageFields\<close>) are maps.
\<close>

record format_spec =
  eventTypes :: "string list option"
  contentPath :: "string option"
  matchType :: "string option"
  textField :: "string option"
  idField :: "string option"
  nameField :: "string option"
  inputField :: "string option"
  outputField :: "string option"
  isErrorField :: "string option"

record streaming_format =
  sf_text :: "format_spec option"
  sf_toolUse :: "format_spec option"
  sf_toolResult :: "format_spec option"

record CliBackendConfig =
  command :: "string option"
  args :: "string list option"
  resumeArgs :: "string list option"
  output_mode :: "string option"
  resumeOutput :: "string option"
  input_mode :: "string option"
  modelArg :: "string option"
  modelAliases :: "(string \<rightharpoonup> string) option"
  sessionArg :: "string option"
  sessionArgs :: "string list option"
  sessionMode :: "string option"
  sessionIdFields :: "string list option"
  systemPromptArg :: "string option"
  systemPromptMode :: "string option"
  systemPromptWhen :: "string option"
  imageArg :: "string option"
  imageMode :: "string option"
  clearEnv :: "string list option"
  env :: "(string \<rightharpoonup> string) option"
  serialize :: "bool option"
  usageFields :: "(string \<rightharpoonup> string list) option"
  streaming :: "bool option"
  streamingEventTypes :: "string list option"
  streamingFormat :: "streaming_format option"

record ResolvedCliBackend =
  backend_id :: string
  config :: CliBackendConfig

text \<open>\<open>a ?? b\<close> on optional values.\<close>

definition orElse :: "'a option \<Rightarrow> 'a option \<Rightarrow> 'a option" where
  "orElse a b = (case a of Some x \<Rightarrow> Some x | None \<Rightarrow> b)"

definition empty_format_spec :: format_spec where
  "empty_format_spec = \<lparr> eventTypes = None, contentPath = None, matchType = None,
     textField = None, idField = None, nameField = None, inputField = None,
     outputField = None, isErrorField = None \<rparr>"

definition empty_backend :: CliBackendConfig where
  "empty_backend = \<lparr> command = None, args = None, resumeArgs = None, output_mode = None,
     resumeOutput = None, input_mode = None, modelArg = None, modelAliases = None,
     sessionArg = None, sessionArgs = None, sessionMode = None, sessionIdFields = None,
     systemPromptArg = None, systemPromptMode = None, systemPromptWhen = None,
     imageArg = None, imageMode = None, clearEnv = None, env = None, serialize = None,
     usageFields = None, streaming = None, streamingEventTypes = None,
     streamingFormat = None \<rparr>"

definition CLAUDE_MODEL_ALIASES :: "string \<rightharpoonup> string" where
  "CLAUDE_MODEL_ALIASES = map_of
     [(''opus'', ''opus''), (''opus-4.6'', ''opus''), (''opus-4.5'', ''opus''),
      (''opus-4'', ''opus''), (''claude-opus-4-6'', ''opus''), (''claude-opus-4-5'', ''opus''),
      (''claude-opus-4'', ''opus''), (''sonnet'', ''sonnet''), (''sonnet-4.5'', ''sonnet''),
      (''sonnet-4.1'', ''sonnet''), (''sonnet-4.0'', ''sonnet''),
      (''claude-sonnet-4-5'', ''sonnet''), (''claude-sonnet-4-1'', ''sonnet''),
      (''claude-sonnet-4-0'', ''sonnet''), (''haiku'', ''haiku''), (''haiku-3.5'', ''haiku''),
      (''claude-haiku-3-5'', ''haiku'')]"

definition DEFAULT_CLAUDE_BACKEND :: CliBackendConfig where
  "DEFAULT_CLAUDE_BACKEND = empty_backend
     \<lparr> command := Some ''claude'',
       args := Some [''-p'', ''--output-format'', ''stream-json'',
                     ''--dangerously-skip-permissions'', ''--verbose''],
       resumeArgs := Some [''-p'', ''--output-format'', ''stream-json'',
                           ''--dangerously-skip-permissions'', ''--verbose'', ''--resume'',
                           ''{sessionId}''],
       output_mode := Some ''jsonl'',
       input_mode := Some ''arg'',
       modelArg := Some ''--model'',
       modelAliases := Some CLAUDE_MODEL_ALIASES,
       sessionArg := Some ''--session-id'',
       sessionMode := Some ''always'',
       sessionIdFields := Some [''session_id'', ''sessionId'', ''conversation_id'',
                                ''conversationId''],
       systemPromptArg := Some ''--system-prompt'',
       systemPromptMode := Some ''append'',
       systemPromptWhen := Some ''always'',
       clearEnv := Some [''ANTHROPIC_API_KEY'', ''ANTHROPIC_API_KEY_OLD''],
       serialize := Some True,
       usageFields := Some (map_of
         [(''input'', [''input_tokens'', ''inputTokens'']),
          (''output'', [''output_tokens'', ''outputTokens'']),
          (''cacheRead'', [''cache_read_input_tokens'', ''cached_input_tokens'', ''cacheRead'']),
          (''cacheWrite'', [''cache_creation_input_tokens'', ''cache_write_input_tokens'',
                            ''cacheWrite'']),
          (''total'', [''total_tokens'', ''total''])]),
       streaming := Some True,
       streamingEventTypes := Some [''tool_use'', ''tool_result'', ''text'', ''result''],
       streamingFormat := Some
         \<lparr> sf_text = Some (empty_format_spec
               \<lparr> eventTypes := Some [''assistant''], contentPath := Some ''message.content'',
                 matchType := Some ''text'', textField := Some ''text'' \<rparr>),
           sf_toolUse = Some (empty_format_spec
               \<lparr> eventTypes := Some [''assistant''], contentPath := Some ''message.content'',
                 matchType := Some ''tool_use'', idField := Some ''id'',
                 nameField := Some ''name'', inputField := Some ''input'' \<rparr>),
           sf_toolResult = Some (empty_format_spec
               \<lparr> eventTypes := Some [''user''], contentPath := Some ''message.content'',
                 matchType := Some ''tool_result'', idField := Some ''tool_use_id'',
                 outputField := Some ''content'', isErrorField := Some ''is_error'' \<rparr>) \<rparr> \<rparr>"

definition DEFAULT_CODEX_BACKEND :: CliBackendConfig where
  "DEFAULT_CODEX_BACKEND = empty_backend
     \<lparr> command := Some ''codex'',
       args := Some [''exec'', ''--json'', ''--color'', ''never'', ''--sandbox'', ''read-only'',
                     ''--skip-git-repo-check''],
       resumeArgs := Some [''exec'', ''resume'', ''{sessionId}'', ''--color'', ''never'',
                           ''--sandbox'', ''read-only'', ''--skip-git-repo-check''],
       output_mode := Some ''jsonl'',
       resumeOutput := Some ''text'',
       input_mode := Some ''arg'',
       modelArg := Some ''--model'',
       sessionIdFields := Some [''thread_id''],
       sessionMode := Some ''existing'',
       imageArg := Some ''--image'',
       imageMode := Some ''repeat'',
       serialize := Some True,
       usageFields := Some (map_of
         [(''input'', [''prompt_tokens'', ''input_tokens'']),
          (''output'', [''completion_tokens'', ''output_tokens'']),
          (''total'', [''total_tokens''])]),
       streaming := Some True,
       streamingEventTypes := Some [''item'', ''turn.completed''],
       streamingFormat := Some
         \<lparr> sf_text = Some (empty_format_spec
               \<lparr> eventTypes := Some [''item.completed''], contentPath := Some ''item'',
                 matchType := Some ''message'', textField := Some ''text'' \<rparr>),
           sf_toolUse = Some (empty_format_spec
               \<lparr> eventTypes := Some [''item.created'', ''item.started''],
                 contentPath := Some ''item'', matchType := Some ''function_call'',
                 idField := Some ''id'', nameField := Some ''name'',
                 inputField := Some ''arguments'' \<rparr>),
           sf_toolResult = Some (empty_format_spec
               \<lparr> eventTypes := Some [''item.completed''], contentPath := Some ''item'',
                 matchType := Some ''function_call_output'', idField := Some ''call_id'',
                 outputField := Some ''output'' \<rparr>) \<rparr> \<rparr>"

text \<open>
  \<open>normalizeProviderId\<close> comes from \<open>model-selection.js\<close>, which is not among the sources;
  it is a parameter of every function that calls it.
\<close>

definition normalizeBackendKey :: "(string \<Rightarrow> string) \<Rightarrow> string \<Rightarrow> string" where
  "normalizeBackendKey normalizeProviderId key = normalizeProviderId key"

text \<open>\<open>configured\<close> lists the entries of the configuration object in the order of \<open>Object.entries\<close>.\<close>

fun pickBackendConfig ::
  "(string \<Rightarrow> string) \<Rightarrow> (string \<times> CliBackendConfig) list \<Rightarrow> string \<Rightarrow> CliBackendConfig option"
where
  "pickBackendConfig normalizeProviderId [] normalizedId = None"
| "pickBackendConfig normalizeProviderId ((key, entry) # rest) normalizedId =
     (if normalizeBackendKey normalizeProviderId key = normalizedId then Some entry
      else pickBackendConfig normalizeProviderId rest normalizedId)"

text \<open>\<open>Array.from(new Set(xs))\<close>: the first occurrence of each element, in order.\<close>

fun uniq :: "'a list \<Rightarrow> 'a list" where
  "uniq [] = []"
| "uniq (x # xs) = x # uniq (removeAll x xs)"

text \<open>\<open>{ ...a, ...b }\<close> on two format descriptions and on two optional dictionaries.\<close>

definition spread_format :: "format_spec option \<Rightarrow> format_spec option \<Rightarrow> format_spec" where
  "spread_format a b =
     (let x = (case a of Some s \<Rightarrow> s | None \<Rightarrow> empty_format_spec);
          y = (case b of Some s \<Rightarrow> s | None \<Rightarrow> empty_format_spec)
      in \<lparr> eventTypes = orElse (eventTypes y) (eventTypes x),
           contentPath = orElse (contentPath y) (contentPath x),
           matchType = orElse (matchType y) (matchType x),
           textField = orElse (textField y) (textField x),
           idField = orElse (idField y) (idField x),
           nameField = orElse (nameField y) (nameField x),
           inputField = orElse (inputField y) (inputField x),
           outputField = orElse (outputField y) (outputField x),
           isErrorField = orElse (isErrorField y) (isErrorField x) \<rparr>)"

definition spread_map :: "('k \<rightharpoonup> 'v) option \<Rightarrow> ('k \<rightharpoonup> 'v) option \<Rightarrow> ('k \<rightharpoonup> 'v)" where
  "spread_map a b =
     (case a of Some m \<Rightarrow> m | None \<Rightarrow> Map.empty) ++ (case b of Some m \<Rightarrow> m | None \<Rightarrow> Map.empty)"

definition mergeBackendConfig :: "CliBackendConfig \<Rightarrow> CliBackendConfig option \<Rightarrow> CliBackendConfig" where
  "mergeBackendConfig base override' =
     (case override' of
        None \<Rightarrow> base
      | Some override \<Rightarrow>
          \<lparr> command = orElse (command override) (command base),
            args = orElse (args override) (args base),
            resumeArgs = orElse (resumeArgs override) (resumeArgs base),
            output_mode = orElse (output_mode override) (output_mode base),
            resumeOutput = orElse (resumeOutput override) (resumeOutput base),
            input_mode = orElse (input_mode override) (input_mode base),
            modelArg = orElse (modelArg override) (modelArg base),
            modelAliases = Some (spread_map (modelAliases base) (modelAliases override)),
            sessionArg = orElse (sessionArg override) (sessionArg base),
            sessionArgs = orElse (sessionArgs override) (sessionArgs base),
            sessionMode = orElse (sessionMode override) (sessionMode base),
            sessionIdFields = orElse (sessionIdFields override) (sessionIdFields base),
            systemPromptArg = orElse (systemPromptArg override) (systemPromptArg base),
            systemPromptMode = orElse (systemPromptMode override) (systemPromptMode base),
            systemPromptWhen = orElse (systemPromptWhen override) (systemPromptWhen base),
            imageArg = orElse (imageArg override) (imageArg base),
            imageMode = orElse (imageMode override) (imageMode base),
            clearEnv = Some (uniq ((case clearEnv base of Some l \<Rightarrow> l | None \<Rightarrow> [])
                                   @ (case clearEnv override of Some l \<Rightarrow> l | None \<Rightarrow> []))),
            env = Some (spread_map (env base) (env override)),
            serialize = orElse (serialize override) (serialize base),
            usageFields = orElse (usageFields override) (usageFields base),
            streaming = orElse (streaming override) (streaming base),
            streamingEventTypes = orElse (streamingEventTypes override) (streamingEventTypes base),
            streamingFormat =
              (case streamingFormat override of
                 Some f \<Rightarrow>
                   Some \<lparr> sf_text = Some (spread_format
                             (case streamingFormat base of Some g \<Rightarrow> sf_text g | None \<Rightarrow> None)
                             (sf_text f)),
                          sf_toolUse = Some (spread_format
                             (case streamingFormat base of Some g \<Rightarrow> sf_toolUse g | None \<Rightarrow> None)
                             (sf_toolUse f)),
                          sf_toolResult = Some (spread_format
                             (case streamingFormat base of Some g \<Rightarrow> sf_toolResult g | None \<Rightarrow> None)
                             (sf_toolResult f)) \<rparr>
               | None \<Rightarrow> streamingFormat base) \<rparr>)"

text \<open>
  \<open>resolveCliBackendConfig(provider, cfg)\<close>; \<open>cliBackends\<close> is
  \<open>cfg?.agents?.defaults?.cliBackends\<close>, \<open>None\<close> when any link of the chain is missing.
  The result \<open>None\<close> is the \<open>null\<close> of the source.
\<close>

definition resolveCliBackendConfig ::
  "(string \<Rightarrow> string) \<Rightarrow> string \<Rightarrow> (string \<times> CliBackendConfig) list option
     \<Rightarrow> ResolvedCliBackend option" where
  "resolveCliBackendConfig normalizeProviderId provider cliBackends =
     (let normalized = normalizeBackendKey normalizeProviderId provider;
          configured = (case cliBackends of Some c \<Rightarrow> c | None \<Rightarrow> []);
          override = pickBackendConfig normalizeProviderId configured normalized
      in if normalized = ''claude-cli''
         then
           (let merged = mergeBackendConfig DEFAULT_CLAUDE_BACKEND override
            in case map_option trim (command merged) of
                 Some cmd \<Rightarrow>
                   if cmd \<noteq> [] then Some \<lparr>backend_id = normalized, config = merged\<lparr>command := Some cmd\<rparr>\<rparr>
                   else None
               | None \<Rightarrow> None)
         else if normalized = ''codex-cli''
         then
           (let merged = mergeBackendConfig DEFAULT_CODEX_BACKEND override
            in case map_option trim (command merged) of
                 Some cmd \<Rightarrow>
                   if cmd \<noteq> [] then Some \<lparr>backend_id = normalized, config = merged\<lparr>command := Some cmd\<rparr>\<rparr>
                   else None
               | None \<Rightarrow> None)
         else
           (case override of
              None \<Rightarrow> None
            | Some ov \<Rightarrow>
                (case map_option trim (command ov) of
                   Some cmd \<Rightarrow>
                     if cmd \<noteq> [] then Some \<lparr>backend_id = normalized, config = ov\<lparr>command := Some cmd\<rparr>\<rparr>
                     else None
                 | None \<Rightarrow> None)))"

section \<open>The non-streaming runners (\<open>pi-cli-runner/run.ts\<close> and \<open>cli-runner.ts\<close>)\<close>

text \<open>
  What \<open>runCommandWithTimeout\<close> resolves with (\<open>code\<close> is \<open>null\<close> when the child was ended
  by a signal), and what the parsers of \<open>cli-runner.ts\<close> return.  An awaited call that
  rejects is the left summand, with the message of the error.
\<close>

record command_result =
  cr_stdout :: string
  cr_stderr :: string
  cr_code :: "int option"
  cr_killed :: bool

record cli_output =
  out_text :: "string option"
  out_sessionId :: "string option"

datatype run_error =
    PlainError string
  | FailoverError (fe_message: string) (fe_reason: string) (fe_provider: string)
      (fe_model: string) (fe_status: "nat option")

record cli_run_result =
  cli_payloads :: "payload list option"
  cli_sessionId :: string
  cli_provider :: string
  cli_model :: string

text \<open>\<open>a || b\<close> on strings.\<close>

definition orStr :: "string \<Rightarrow> string \<Rightarrow> string" where
  "orStr a b = (if a \<noteq> [] then a else b)"

text \<open>\<open>runCliAgent\<close> of \<open>pi-cli-runner/run.ts\<close>, from the result of the command on.\<close>

definition runCliAgent_pi :: "string \<Rightarrow> string + command_result \<Rightarrow> run_error + run_result" where
  "runCliAgent_pi sessionId commandOutcome =
     (case commandOutcome of
        Inl msg \<Rightarrow> Inl (PlainError msg)
      | Inr result \<Rightarrow>
          (let stdout = trim (cr_stdout result);
               stderr = trim (cr_stderr result)
           in if cr_code result \<noteq> Some 0
              then
                (let errMsg = orStr stderr (orStr stdout
                                (''CLI exited with code '' @ string_of_code (cr_code result)))
                 in Inr \<lparr>payloads = Some [\<lparr>payload_text = errMsg, isError = True\<rparr>],
                         result_aborted = cr_killed result, result_sessionId = sessionId\<rparr>)
              else Inr \<lparr>payloads = (if stdout \<noteq> []
                                      then Some [\<lparr>payload_text = stdout, isError = False\<rparr>]
                                      else None),
                        result_aborted = False, result_sessionId = sessionId\<rparr>))"

text \<open>
  \<open>runCliAgent\<close> of \<open>cli-runner.ts\<close>, from the resolution of the backend on.  The helpers
  imported from modules that are not among the sources are parameters:
  \<open>classifyFailoverReason\<close> (\<open>None\<close> for \<open>null\<close>), \<open>resolveFailoverStatus\<close>,
  \<open>isFailoverErrorMessage\<close>, \<open>parseCliJson\<close> and \<open>parseCliJsonl\<close>; so are \<open>useResume\<close> and
  \<open>sessionIdSent\<close>, which depend on \<open>resolveSessionIdToSend\<close>, and the outcomes of
  \<open>runCliWithStreaming\<close> and \<open>runCommandWithTimeout\<close>.  Usage counters are passed through
  unchanged by the source and are left out.
\<close>

definition modelIdOf :: "string option \<Rightarrow> string" where
  "modelIdOf model = orStr (trim (case model of Some m \<Rightarrow> m | None \<Rightarrow> ''default'')) ''default''"

definition failoverError ::
  "(string \<Rightarrow> string option) \<Rightarrow> (string \<Rightarrow> nat option) \<Rightarrow> string \<Rightarrow> string \<Rightarrow> string \<Rightarrow> run_error" where
  "failoverError classifyFailoverReason resolveFailoverStatus provider modelId msg =
     (let reason = (case classifyFailoverReason msg of Some r \<Rightarrow> r | None \<Rightarrow> ''unknown'')
      in FailoverError msg reason provider modelId (resolveFailoverStatus reason))"

text \<open>The lines \<open>const text = output.text?.trim(); const payloads = text ? [{ text }] : undefined\<close>.\<close>

definition payloadsOfText :: "string option \<Rightarrow> payload list option" where
  "payloadsOfText output_text =
     (case map_option trim output_text of
        Some t \<Rightarrow> if t \<noteq> [] then Some [\<lparr>payload_text = t, isError = False\<rparr>] else None
      | None \<Rightarrow> None)"

definition runCliAgent ::
  "(string \<Rightarrow> string) \<Rightarrow> (string \<Rightarrow> string option) \<Rightarrow> (string \<Rightarrow> nat option) \<Rightarrow> (string \<Rightarrow> bool)
   \<Rightarrow> (string \<Rightarrow> CliBackendConfig \<Rightarrow> cli_output option)
   \<Rightarrow> (string \<Rightarrow> CliBackendConfig \<Rightarrow> cli_output option)
   \<Rightarrow> (string \<times> CliBackendConfig) list option \<Rightarrow> string \<Rightarrow> string option \<Rightarrow> string
   \<Rightarrow> string option \<Rightarrow> bool \<Rightarrow> string + cli_output \<Rightarrow> string + command_result
   \<Rightarrow> run_error + cli_run_result" where
  "runCliAgent normalizeProviderId classifyFailoverReason resolveFailoverStatus
       isFailoverErrorMessage parseCliJson parseCliJsonl
       cliBackends provider model sessionId sessionIdSent useResume
       streamOutcome commandOutcome =
     (case resolveCliBackendConfig normalizeProviderId provider cliBackends of
        None \<Rightarrow> Inl (PlainError (''Unknown CLI backend: '' @ provider))
      | Some backendResolved \<Rightarrow>
          (let backend = config backendResolved;
               modelId = modelIdOf model;
               failover = failoverError classifyFailoverReason resolveFailoverStatus provider modelId;
               output =
                 (if streaming backend = Some True
                  then (case streamOutcome of
                          Inl errMsg \<Rightarrow> Inl (failover errMsg)
                        | Inr streamResult \<Rightarrow> Inr streamResult)
                  else (case commandOutcome of
                          Inl msg \<Rightarrow> Inl (PlainError msg)
                        | Inr result \<Rightarrow>
                            (let stdout = trim (cr_stdout result);
                                 stderr = trim (cr_stderr result)
                             in if cr_code result \<noteq> Some 0
                                then Inl (failover (orStr stderr (orStr stdout ''CLI failed.'')))
                                else
                                  (let outputMode =
                                         (if useResume
                                          then orElse (resumeOutput backend) (output_mode backend)
                                          else output_mode backend);
                                       raw = \<lparr>out_text = Some stdout, out_sessionId = None\<rparr>
                                   in if outputMode = Some ''text'' then Inr raw
                                      else if outputMode = Some ''jsonl''
                                      then Inr (case parseCliJsonl stdout backend of
                                                  Some parsed \<Rightarrow> parsed | None \<Rightarrow> raw)
                                      else Inr (case parseCliJson stdout backend of
                                                  Some parsed \<Rightarrow> parsed | None \<Rightarrow> raw)))))
           in case output of
                Inl (FailoverError m r p md s) \<Rightarrow> Inl (FailoverError m r p md s)
              | Inl (PlainError message) \<Rightarrow>
                  if isFailoverErrorMessage message then Inl (failover message)
                  else Inl (PlainError message)
              | Inr out \<Rightarrow>
                  Inr \<lparr>cli_payloads = payloadsOfText (out_text out),
                       cli_sessionId =
                         (case orElse (out_sessionId out) sessionIdSent of
                            Some s \<Rightarrow> s | None \<Rightarrow> sessionId),
                       cli_provider = provider, cli_model = modelId\<rparr>))"

text \<open>Nothing collected is lost by a handler, and every collected text is non-empty.\<close>

definition keeps :: "run_state \<Rightarrow> run_state \<Rightarrow> bool" where
  "keeps st st' =
     (set (collectedTexts st) \<subseteq> set (collectedTexts st')
      \<and> (currentTextBuffer st \<noteq> [] \<longrightarrow>
            (\<exists>s. currentTextBuffer st' = currentTextBuffer st @ s)
            \<or> currentTextBuffer st \<in> set (collectedTexts st')))"

definition texts_nonempty :: "run_state \<Rightarrow> bool" where
  "texts_nonempty st = ([] \<notin> set (collectedTexts st))"

text \<open>The payloads of the result a run settled with.\<close>

definition settled_payloads :: "run_state \<Rightarrow> payload list option" where
  "settled_payloads st = (case settled st of Some res \<Rightarrow> payloads res | None \<Rightarrow> None)"

text \<open>A run in progress: every collected text is non-empty and the promise is not settled.\<close>

definition running :: "run_state \<Rightarrow> bool" where
  "running st = (texts_nonempty st \<and> settled st = None)"

text \<open>
  In the pipe runner the \<open>error\<close> event of the child can settle the run before the child
  exits; the result then holds the one payload that reports the error.
\<close>

definition spawn_error_result :: "run_result \<Rightarrow> bool" where
  "spawn_error_result res =
     (\<exists>m. payloads res = Some [\<lparr>payload_text = ''Failed to spawn CLI: '' @ m, isError = True\<rparr>])"

definition running_pipe :: "run_state \<Rightarrow> bool" where
  "running_pipe st =
     (texts_nonempty st
      \<and> (case settled st of None \<Rightarrow> True | Some res \<Rightarrow> spawn_error_result res))"

text \<open>
  An example parser and an example run of the pseudo-terminal runner: the first line was a
  text delta \<open>Hel\<close>, and the data buffer holds an unterminated second line, a text delta
  \<open>lo\<close>.
\<close>

definition ex_parse :: "string \<Rightarrow> CliStreamEvent option" where
  "ex_parse line =
     (if line = ''d1'' then Some (text_delta ''Hel'')
      else if line = ''d2'' then Some (text_delta ''lo'')
      else if line = ''ws'' then Some (text_delta '' '')
      else if line = ''stop'' then Some ContentBlockStop
      else None)"

definition ex_pending :: run_state where
  "ex_pending = after (onData ex_parse (''d1'' @ [CHR 0x0A] @ ''d2'') (init_run ''s'' 1000))"

text \<open>
  A parser that also knows two lines \<open>JSON.parse\<close> accepts although they are not events of
  the declared type: the line \<open>null\<close>, and an error event without the \<open>error\<close> field.  In the
  second example run the unterminated last line is the line \<open>null\<close>, in the third the bare
  error event.
\<close>

definition ex_parse_json :: "string \<Rightarrow> CliStreamEvent option" where
  "ex_parse_json line =
     (if line = ''null'' then Some NullValue
      else if line = ''{\"type\":\"error\"}'' then Some (ErrorEvent None)
      else ex_parse line)"

definition ex_pending_null :: run_state where
  "ex_pending_null
     = after (onData ex_parse_json (''d1'' @ [CHR 0x0A] @ ''null'') (init_run ''s'' 1000))"

definition ex_pending_error :: run_state where
  "ex_pending_error
     = after (onData ex_parse_json (''d1'' @ [CHR 0x0A] @ ''{\"type\":\"error\"}'')
                (init_run ''s'' 1000))"

text \<open>The runs behind the handles of the example registry: each has just started.\<close>

definition ex_runs :: "nat \<Rightarrow> run_state" where
  "ex_runs h = init_run ''s'' 1000"

text \<open>Example results of a command.\<close>

definition ex_auth_failure :: command_result where
  "ex_auth_failure = \<lparr>cr_stdout = [], cr_stderr = ''401 unauthorized'', cr_code = Some 1,
                       cr_killed = False\<rparr>"

definition ex_blank_success :: command_result where
  "ex_blank_success = \<lparr>cr_stdout = ''  '', cr_stderr = [], cr_code = Some 0, cr_killed = False\<rparr>"

text \<open>
  The registry as its operations keep it: identities are fresh, every pending timeout
  belongs to one waiter, the \<open>Set\<close> objects of different session keys are different objects,
  a waiter with a pending timeout is a member of the \<open>Set\<close> its timeout captured and that
  \<open>Set\<close> is the one registered for its session key, and its promise is not resolved yet.
\<close>

definition registry_wf :: "registry \<Rightarrow> bool" where
  "registry_wf r =
     (ids_fresh r
      \<and> distinct (map fst (timers r))
      \<and> (\<forall>s a. CLI_RUN_WAITERS r s = Some a \<longrightarrow> a < next_ref r)
      \<and> (\<forall>s s' a. CLI_RUN_WAITERS r s = Some a \<and> CLI_RUN_WAITERS r s' = Some a \<longrightarrow> s = s')
      \<and> (\<forall>t\<in>set (timers r).
            CLI_RUN_WAITERS r (fst (snd t)) = Some (fst (snd (snd t)))
            \<and> fst t \<in> set (set_store r (fst (snd (snd t)))))
      \<and> (\<forall>t\<in>set (timers r). fst t \<notin> fst ` set (resolved r)))"

text \<open>What can happen to the registry: its operations, and time passing.\<close>

datatype registry_op =
    SetActive string nat
  | ClearActive string nat
  | WaitForEnd string "int option"
  | Advance int

fun registry_step :: "registry_op \<Rightarrow> registry \<Rightarrow> registry" where
  "registry_step (SetActive sessionId handle) r = setActiveCliRun sessionId handle r"
| "registry_step (ClearActive sessionId handle) r = clearActiveCliRun sessionId handle r"
| "registry_step (WaitForEnd sessionId timeoutArg) r = snd (waitForCliRunEnd sessionId timeoutArg r)"
| "registry_step (Advance d) r = advance d r"

text \<open>
  A waiter whose timeout was set with deadline \<open>dl\<close> is never lost: its promise has a value,
  or its timeout is still pending.
\<close>

definition tracked :: "registry \<Rightarrow> nat \<Rightarrow> string \<Rightarrow> int \<Rightarrow> bool" where
  "tracked r p sessionId dl =
     (outcome r p \<noteq> None \<or> (\<exists>a. (p, sessionId, a, dl) \<in> set (timers r)))"

section \<open>Properties of the run registry\<close>

lemma fold_notify_resolved:
  "resolved (fold (\<lambda>w r'. resolve_promise w True (clearTimeout w r')) ws r)
     = resolved r @ map (\<lambda>w. (w, True)) ws"
  by (induction ws arbitrary: r) (simp_all add: resolve_promise_def clearTimeout_def)

lemma fold_notify_active:
  "ACTIVE_CLI_RUNS (fold (\<lambda>w r'. resolve_promise w True (clearTimeout w r')) ws r)
     = ACTIVE_CLI_RUNS r"
  by (induction ws arbitrary: r) (simp_all add: resolve_promise_def clearTimeout_def)

lemma fold_notify_waiters:
  "CLI_RUN_WAITERS (fold (\<lambda>w r'. resolve_promise w True (clearTimeout w r')) ws r)
     = CLI_RUN_WAITERS r"
  by (induction ws arbitrary: r) (simp_all add: resolve_promise_def clearTimeout_def)

lemma fold_notify_set_store:
  "set_store (fold (\<lambda>w r'. resolve_promise w True (clearTimeout w r')) ws r) = set_store r"
  by (induction ws arbitrary: r) (simp_all add: resolve_promise_def clearTimeout_def)

lemma fold_notify_timers:
  "timers (fold (\<lambda>w r'. resolve_promise w True (clearTimeout w r')) ws r)
     = filter (\<lambda>t. fst t \<notin> set ws) (timers r)"
proof (induction ws arbitrary: r)
  case Nil
  then show ?case by simp
next
  case (Cons w ws)
  have "filter (\<lambda>t. fst t \<notin> set ws) (filter (\<lambda>t. fst t \<noteq> w) (timers r))
          = filter (\<lambda>t. fst t \<notin> set (w # ws)) (timers r)"
    by (induction "timers r") auto
  with Cons show ?case
    by (simp add: resolve_promise_def clearTimeout_def)
qed

lemma notify_resolved:
  "resolved (notifyCliRunEnded sessionId r)
     = resolved r @ map (\<lambda>w. (w, True)) (waiters_of r sessionId)"
  by (simp add: notifyCliRunEnded_def waiters_of_def fold_notify_resolved waiters_delete_def
           split: option.splits)

lemma notify_active: "ACTIVE_CLI_RUNS (notifyCliRunEnded sessionId r) = ACTIVE_CLI_RUNS r"
  by (simp add: notifyCliRunEnded_def fold_notify_active waiters_delete_def split: option.splits)

lemma notify_waiters_of: "waiters_of (notifyCliRunEnded sessionId r) sessionId = []"
  by (simp add: notifyCliRunEnded_def waiters_of_def fold_notify_waiters fold_notify_set_store
           waiters_delete_def split: option.splits)

lemma notify_timers:
  "timers (notifyCliRunEnded sessionId r)
     = filter (\<lambda>t. fst t \<notin> set (waiters_of r sessionId)) (timers r)"
  by (simp add: notifyCliRunEnded_def waiters_of_def fold_notify_timers waiters_delete_def
           split: option.splits)

lemma clear_match:
  assumes "ACTIVE_CLI_RUNS r sessionId = Some h"
  shows "ACTIVE_CLI_RUNS (clearActiveCliRun sessionId h r) sessionId = None"
    and "resolved (clearActiveCliRun sessionId h r)
          = resolved r @ map (\<lambda>w. (w, True)) (waiters_of r sessionId)"
    and "waiters_of (clearActiveCliRun sessionId h r) sessionId = []"
proof -
  let ?r1 = "r\<lparr>ACTIVE_CLI_RUNS := (ACTIVE_CLI_RUNS r)(sessionId := None),
                 state_changes := state_changes r @
                   [(sessionId, ''idle'', ''cli_run_completed'')]\<rparr>"
  have w: "waiters_of ?r1 sessionId = waiters_of r sessionId"
    by (simp add: waiters_of_def split: option.splits)
  have c: "clearActiveCliRun sessionId h r = notifyCliRunEnded sessionId ?r1"
    using assms by (simp add: clearActiveCliRun_def)
  show "ACTIVE_CLI_RUNS (clearActiveCliRun sessionId h r) sessionId = None"
    unfolding c by (simp add: notify_active)
  show "resolved (clearActiveCliRun sessionId h r)
          = resolved r @ map (\<lambda>w. (w, True)) (waiters_of r sessionId)"
    unfolding c notify_resolved w by simp
  show "waiters_of (clearActiveCliRun sessionId h r) sessionId = []"
    unfolding c by (rule notify_waiters_of)
qed

text \<open>
  Claim C1.  \<open>clearActiveCliRun(sessionId, handle)\<close> removes the registration and resolves
  the session's waiters with \<open>true\<close> when \<open>handle\<close> is the handle registered for the key, and
  only then: with any other handle (or none registered) the registry is left exactly as it
  was.  In particular, once a run \<open>h'\<close> has been registered over \<open>h\<close>, the stale clear
  carrying \<open>h\<close> leaves the registration of \<open>h'\<close> in place.
\<close>

theorem clearActiveCliRun_identity:
  "(ACTIVE_CLI_RUNS r sessionId = Some h \<longrightarrow>
      ACTIVE_CLI_RUNS (clearActiveCliRun sessionId h r) sessionId = None
      \<and> resolved (clearActiveCliRun sessionId h r)
          = resolved r @ map (\<lambda>w. (w, True)) (waiters_of r sessionId)
      \<and> waiters_of (clearActiveCliRun sessionId h r) sessionId = [])
   \<and> (ACTIVE_CLI_RUNS r sessionId \<noteq> Some h \<longrightarrow> clearActiveCliRun sessionId h r = r)
   \<and> (h \<noteq> h' \<longrightarrow>
        clearActiveCliRun sessionId h (setActiveCliRun sessionId h' r)
          = setActiveCliRun sessionId h' r
        \<and> ACTIVE_CLI_RUNS (clearActiveCliRun sessionId h (setActiveCliRun sessionId h' r))
            sessionId = Some h')"
  using clear_match[of r sessionId h] clear_match(2)[of "setActiveCliRun sessionId h' r" sessionId h']
  by (simp add: clearActiveCliRun_def setActiveCliRun_def)

theorem clearActiveCliRun_identity_witness:
  "ACTIVE_CLI_RUNS ex_active ''s'' = Some 1
   \<and> ACTIVE_CLI_RUNS (clearActiveCliRun ''s'' 1 ex_active) ''s'' = None
   \<and> ACTIVE_CLI_RUNS ex_active ''s'' \<noteq> Some 2
   \<and> clearActiveCliRun ''s'' 2 ex_active = ex_active
   \<and> (2::nat) \<noteq> 1
   \<and> ACTIVE_CLI_RUNS (clearActiveCliRun ''s'' 2 (setActiveCliRun ''s'' 1 ex_active)) ''s''
       = Some 1"
  using clearActiveCliRun_identity[of ex_active "''s''" 1 2]
        clearActiveCliRun_identity[of ex_active "''s''" 2 1]
  by (simp add: ex_active_def setActiveCliRun_def empty_registry_def)

lemma wait_inactive:
  "sessionId = [] \<or> ACTIVE_CLI_RUNS r sessionId = None \<Longrightarrow>
   waitForCliRunEnd sessionId t r
     = (next_ref r, r\<lparr>next_ref := Suc (next_ref r), resolved := resolved r @ [(next_ref r, True)]\<rparr>)"
  by (auto simp add: waitForCliRunEnd_def resolve_promise_def Let_def)

lemma wait_active:
  assumes "sessionId \<noteq> []" "ACTIVE_CLI_RUNS r sessionId = Some h"
  shows "fst (waitForCliRunEnd sessionId t r) = next_ref r"
    and "resolved (snd (waitForCliRunEnd sessionId t r)) = resolved r"
    and "ACTIVE_CLI_RUNS (snd (waitForCliRunEnd sessionId t r)) = ACTIVE_CLI_RUNS r"
    and "clock (snd (waitForCliRunEnd sessionId t r)) = clock r"
    and "\<exists>a. timers (snd (waitForCliRunEnd sessionId t r))
            = timers r @ [(next_ref r, sessionId, a, clock r + timeout_of t)]"
    and "set (waiters_of (snd (waitForCliRunEnd sessionId t r)) sessionId)
            = insert (next_ref r) (set (waiters_of r sessionId))"
    and "next_ref r < next_ref (snd (waitForCliRunEnd sessionId t r))"
  using assms
  by (auto simp add: waitForCliRunEnd_def Let_def set_add_def waiters_of_def timeout_of_def
        split: option.splits)

lemma fresh_outcome_None: "ids_fresh r \<Longrightarrow> outcome r (next_ref r) = None"
  by (auto simp: ids_fresh_def outcome_def map_of_eq_None_iff)

lemma fold_fire_resolved:
  "resolved (fold fire_timer ts r) = resolved r @ map (\<lambda>t. (fst t, False)) ts"
  by (induction ts arbitrary: r)
     (auto simp add: fire_timer_def timeoutCallback_def resolve_promise_def clearTimeout_def
        set_delete_def waiters_delete_def Let_def split: prod.splits)

lemma advance_resolved:
  "resolved (advance d r)
     = resolved r @ map (\<lambda>t. (fst t, False)) (due_timers (r\<lparr>clock := clock r + d\<rparr>))"
  by (simp add: advance_def Let_def fold_fire_resolved)

lemma set_due_timers:
  "set (due_timers r) = {t \<in> set (timers r). snd (snd (snd t)) \<le> clock r}"
  by (auto simp: due_timers_def)

lemma map_of_const:
  "map_of (map (\<lambda>w. (f w, b)) ws) k = (if k \<in> f ` set ws then Some b else None)"
  by (induction ws) auto

lemma outcome_append:
  "outcome r p = None \<Longrightarrow> resolved r' = resolved r @ map (\<lambda>w. (f w, b)) ws \<Longrightarrow>
   outcome r' p = (if p \<in> f ` set ws then Some b else None)"
  by (simp add: outcome_def map_add_def map_of_const)

lemma ids_fresh_wait: "ids_fresh r \<Longrightarrow> ids_fresh (snd (waitForCliRunEnd sessionId t r))"
proof -
  assume f: "ids_fresh r"
  have s: "\<And>a w. w \<in> set (set_store r a) \<Longrightarrow> w < next_ref r"
    using f by (simp add: ids_fresh_def)
  have 1: "\<forall>x\<in>set (resolved (snd (waitForCliRunEnd sessionId t r))).
             fst x < next_ref (snd (waitForCliRunEnd sessionId t r))"
    using f by (auto simp add: ids_fresh_def waitForCliRunEnd_def Let_def set_add_def
        set_delete_def waiters_delete_def resolve_promise_def clearTimeout_def
        split: option.splits intro: less_SucI)
  have 2: "\<forall>x\<in>set (timers (snd (waitForCliRunEnd sessionId t r))).
             fst x < next_ref (snd (waitForCliRunEnd sessionId t r))"
    using f by (auto simp add: ids_fresh_def waitForCliRunEnd_def Let_def set_add_def
        set_delete_def waiters_delete_def resolve_promise_def clearTimeout_def
        split: option.splits intro: less_SucI)
  have 3: "\<forall>a. \<forall>w\<in>set (set_store (snd (waitForCliRunEnd sessionId t r)) a).
             w < next_ref (snd (waitForCliRunEnd sessionId t r))"
    by (auto simp add: waitForCliRunEnd_def Let_def set_add_def
        set_delete_def waiters_delete_def resolve_promise_def clearTimeout_def
        split: option.splits if_splits dest!: s intro: less_SucI)
  show ?thesis unfolding ids_fresh_def using 1 2 3 by blast
qed

lemma wait_active_fresh:
  assumes "sessionId \<noteq> []" "ACTIVE_CLI_RUNS r sessionId = Some h" "ids_fresh r"
  shows "ids_fresh (snd (waitForCliRunEnd sessionId t r))"
  using assms(3) by (rule ids_fresh_wait)

lemma waitMany_active:
  assumes "sessionId \<noteq> []" "ACTIVE_CLI_RUNS r sessionId = Some h" "ids_fresh r"
  shows "length (fst (waitMany sessionId ts r)) = length ts
       \<and> resolved (snd (waitMany sessionId ts r)) = resolved r
       \<and> ACTIVE_CLI_RUNS (snd (waitMany sessionId ts r)) = ACTIVE_CLI_RUNS r
       \<and> set (fst (waitMany sessionId ts r)) \<subseteq> set (waiters_of (snd (waitMany sessionId ts r)) sessionId)
       \<and> set (waiters_of r sessionId) \<subseteq> set (waiters_of (snd (waitMany sessionId ts r)) sessionId)
       \<and> (\<forall>p\<in>set (fst (waitMany sessionId ts r)). next_ref r \<le> p)"
  using assms
proof (induction ts arbitrary: r)
  case Nil
  then show ?case by simp
next
  case (Cons t ts)
  let ?r1 = "snd (waitForCliRunEnd sessionId t r)"
  have a1: "ACTIVE_CLI_RUNS ?r1 sessionId = Some h"
    using wait_active(3)[OF Cons.prems(1,2)] Cons.prems(2) by simp
  have f1: "ids_fresh ?r1" by (rule wait_active_fresh[OF Cons.prems])
  note ih = Cons.IH[OF Cons.prems(1) a1 f1]
  have w: "waitMany sessionId (t # ts) r
      = (next_ref r # fst (waitMany sessionId ts ?r1), snd (waitMany sessionId ts ?r1))"
    using wait_active(1)[OF Cons.prems(1,2), of t]
    by (simp add: case_prod_unfold Let_def)
  show ?case
    unfolding w using ih wait_active(2,3,6,7)[OF Cons.prems(1,2), of t]
    by auto
qed


lemma wait_then_advance:
  assumes "sessionId \<noteq> []" "ACTIVE_CLI_RUNS r sessionId = Some h" "ids_fresh r"
  shows "outcome (advance d (snd (waitForCliRunEnd sessionId t r))) (next_ref r)
           = (if timeout_of t \<le> d then Some False else None)"
proof -
  let ?r1 = "snd (waitForCliRunEnd sessionId t r)"
  obtain a where tm: "timers ?r1 = timers r @ [(next_ref r, sessionId, a, clock r + timeout_of t)]"
    using wait_active(5)[OF assms(1,2)] by blast
  have o: "outcome ?r1 (next_ref r) = None"
    using fresh_outcome_None[OF assms(3)] wait_active(2)[OF assms(1,2), of t]
    by (simp add: outcome_def)
  have old: "\<forall>x\<in>set (timers r). fst x \<noteq> next_ref r"
    using assms(3) by (auto simp: ids_fresh_def)
  have "next_ref r \<in> fst ` set (due_timers (?r1\<lparr>clock := clock ?r1 + d\<rparr>)) \<longleftrightarrow> timeout_of t \<le> d"
    using old by (fastforce simp: set_due_timers tm wait_active(4)[OF assms(1,2)] image_iff)
  then show ?thesis
    using outcome_append[OF o advance_resolved, of d] by simp
qed

lemma wait_outcomes_basic:
  assumes "ids_fresh r"
  shows "timeout_of None = 15000 \<and> timeout_of (Some ms) = (if ms \<le> 2147483647 then max 100 ms else 1)
    \<and> (sessionId = [] \<or> ACTIVE_CLI_RUNS r sessionId = None \<longrightarrow>
         outcome (snd (waitForCliRunEnd sessionId t r)) (fst (waitForCliRunEnd sessionId t r))
           = Some True)
    \<and> (sessionId \<noteq> [] \<and> ACTIVE_CLI_RUNS r sessionId = Some h \<longrightarrow>
         outcome (snd (waitForCliRunEnd sessionId t r)) (fst (waitForCliRunEnd sessionId t r))
           = None
       \<and> outcome (clearActiveCliRun sessionId h (snd (waitForCliRunEnd sessionId t r)))
           (fst (waitForCliRunEnd sessionId t r)) = Some True
       \<and> (\<forall>d. d < timeout_of t \<longrightarrow>
             outcome (advance d (snd (waitForCliRunEnd sessionId t r)))
               (fst (waitForCliRunEnd sessionId t r)) = None)
       \<and> (\<forall>d. timeout_of t \<le> d \<longrightarrow>
             outcome (advance d (snd (waitForCliRunEnd sessionId t r)))
               (fst (waitForCliRunEnd sessionId t r)) = Some False)
       \<and> length (fst (waitMany sessionId ts r)) = length ts
       \<and> (\<forall>p\<in>set (fst (waitMany sessionId ts r)).
             outcome (snd (waitMany sessionId ts r)) p = None
           \<and> outcome (clearActiveCliRun sessionId h (snd (waitMany sessionId ts r))) p
               = Some True))"
proof (intro conjI impI)
  show "timeout_of None = 15000" "timeout_of (Some ms) = (if ms \<le> 2147483647 then max 100 ms else 1)"
    by (auto simp add: timeout_of_def setTimeout_delay_def)
next
  assume "sessionId = [] \<or> ACTIVE_CLI_RUNS r sessionId = None"
  then have w: "waitForCliRunEnd sessionId t r
     = (next_ref r, r\<lparr>next_ref := Suc (next_ref r), resolved := resolved r @ [(next_ref r, True)]\<rparr>)"
    by (rule wait_inactive)
  show "outcome (snd (waitForCliRunEnd sessionId t r)) (fst (waitForCliRunEnd sessionId t r))
           = Some True"
    unfolding w using outcome_append[OF fresh_outcome_None[OF assms], where ws = "[next_ref r]" and f = id and b = True]
    by simp
next
  assume a: "sessionId \<noteq> [] \<and> ACTIVE_CLI_RUNS r sessionId = Some h"
  then have a1: "sessionId \<noteq> []" and a2: "ACTIVE_CLI_RUNS r sessionId = Some h" by simp_all
  note wa = wait_active[OF a1 a2, of t]
  let ?r1 = "snd (waitForCliRunEnd sessionId t r)"
  show o: "outcome ?r1 (fst (waitForCliRunEnd sessionId t r)) = None"
    using fresh_outcome_None[OF assms] wa(1,2) by (simp add: outcome_def)
  have act: "ACTIVE_CLI_RUNS ?r1 sessionId = Some h" using wa(3) a2 by simp
  show "outcome (clearActiveCliRun sessionId h ?r1) (fst (waitForCliRunEnd sessionId t r)) = Some True"
    using outcome_append[OF o clear_match(2)[OF act]] wa(1,6) by simp
  show "\<forall>d. d < timeout_of t \<longrightarrow>
             outcome (advance d ?r1) (fst (waitForCliRunEnd sessionId t r)) = None"
    using wait_then_advance[OF a1 a2 assms, of _ t] wa(1) by simp
  show "\<forall>d. timeout_of t \<le> d \<longrightarrow>
             outcome (advance d ?r1) (fst (waitForCliRunEnd sessionId t r)) = Some False"
    using wait_then_advance[OF a1 a2 assms, of _ t] wa(1) by simp
  note wm = waitMany_active[OF a1 a2 assms, of ts]
  show "length (fst (waitMany sessionId ts r)) = length ts" using wm by simp
  show "\<forall>p\<in>set (fst (waitMany sessionId ts r)).
             outcome (snd (waitMany sessionId ts r)) p = None
           \<and> outcome (clearActiveCliRun sessionId h (snd (waitMany sessionId ts r))) p
               = Some True"
  proof
    fix p assume p: "p \<in> set (fst (waitMany sessionId ts r))"
    let ?r2 = "snd (waitMany sessionId ts r)"
    have "next_ref r \<le> p" using wm p by blast
    then have "\<forall>x\<in>set (resolved r). fst x \<noteq> p" using assms by (auto simp: ids_fresh_def)
    then have o2: "outcome ?r2 p = None"
      using wm by (auto simp add: outcome_def map_of_eq_None_iff image_iff)
    have act2: "ACTIVE_CLI_RUNS ?r2 sessionId = Some h" using wm a2 by simp
    have "p \<in> set (waiters_of ?r2 sessionId)" using wm p by blast
    then show "outcome ?r2 p = None \<and> outcome (clearActiveCliRun sessionId h ?r2) p = Some True"
      using o2 outcome_append[OF o2 clear_match(2)[OF act2]] by simp
  qed
qed

lemma ids_fresh_empty: "ids_fresh empty_registry"
  by (simp add: ids_fresh_def empty_registry_def)

lemma ids_fresh_set: "ids_fresh r \<Longrightarrow> ids_fresh (setActiveCliRun sessionId h r)"
  by (simp add: ids_fresh_def setActiveCliRun_def Let_def)


lemma fold_notify_next:
  "next_ref (fold (\<lambda>w r'. resolve_promise w True (clearTimeout w r')) ws r) = next_ref r"
  by (induction ws arbitrary: r) (simp_all add: resolve_promise_def clearTimeout_def)

lemma ids_fresh_notify: "ids_fresh r \<Longrightarrow> ids_fresh (notifyCliRunEnded sessionId r)"
  unfolding ids_fresh_def
  by (auto simp add: notifyCliRunEnded_def waiters_delete_def fold_notify_resolved
        fold_notify_timers fold_notify_set_store fold_notify_next split: option.splits)

lemma ids_fresh_clear: "ids_fresh r \<Longrightarrow> ids_fresh (clearActiveCliRun sessionId h r)"
proof -
  assume f: "ids_fresh r"
  have "ids_fresh (r\<lparr>ACTIVE_CLI_RUNS := (ACTIVE_CLI_RUNS r)(sessionId := None),
                state_changes := state_changes r @
                  [(sessionId, ''idle'', ''cli_run_completed'')]\<rparr>)"
    using f by (simp add: ids_fresh_def)
  then show ?thesis
    using f by (simp add: clearActiveCliRun_def ids_fresh_notify)
qed

lemma ids_fresh_fire:
  "ids_fresh r \<Longrightarrow> fst t < next_ref r \<Longrightarrow> ids_fresh (fire_timer t r) \<and> next_ref (fire_timer t r) = next_ref r"
  by (auto simp add: ids_fresh_def fire_timer_def timeoutCallback_def set_delete_def
        waiters_delete_def resolve_promise_def clearTimeout_def Let_def split: prod.splits)

lemma ids_fresh_fold_fire:
  "ids_fresh r \<Longrightarrow> \<forall>t\<in>set ts. fst t < next_ref r \<Longrightarrow> ids_fresh (fold fire_timer ts r)"
proof (induction ts arbitrary: r)
  case Nil
  then show ?case by simp
next
  case (Cons t ts)
  then show ?case using ids_fresh_fire[of r t] by simp
qed

lemma ids_fresh_advance: "ids_fresh r \<Longrightarrow> ids_fresh (advance d r)"
proof -
  assume f: "ids_fresh r"
  let ?r1 = "r\<lparr>clock := clock r + d\<rparr>"
  have f1: "ids_fresh ?r1" using f by (simp add: ids_fresh_def)
  have "\<forall>t\<in>set (due_timers ?r1). fst t < next_ref ?r1"
    using f by (auto simp: set_due_timers ids_fresh_def)
  then show ?thesis
    using ids_fresh_fold_fire[OF f1] by (simp add: advance_def Let_def)
qed

section \<open>Properties of the streaming runners\<close>

lemma after_simps [simp]: "after (Inr st) = st" "after (Inl (e, st)) = st"
  by (simp_all add: after_def)

lemma returned_simps [simp]: "returned (Inr st)" "\<not> returned (Inl x)"
  by (simp_all add: returned_def)

lemma returned_after: "returned h \<Longrightarrow> h = Inr (after h)"
  by (cases h) simp_all

lemma partial_texts_append: "partial_texts (a @ b) = partial_texts a @ partial_texts b"
  by (induction a rule: partial_texts.induct) simp_all

lemma block_texts_append: "block_texts (a @ b) = block_texts a @ block_texts b"
  by (induction a rule: block_texts.induct) simp_all

lemma tool_texts_append: "tool_texts (a @ b) = tool_texts a @ tool_texts b"
  by (induction a rule: tool_texts.induct) simp_all

lemma segment_refl: "segment st st"
  by (simp add: segment_def)

lemma segment_trans: "segment a b \<Longrightarrow> segment b c \<Longrightarrow> segment a c"
  unfolding segment_def
  by (elim exE conjE, rule_tac x = "new @ newa" in exI)
     (simp add: partial_texts_append block_texts_append)

lemma segment_partial:
  "t \<noteq> [] \<Longrightarrow> segment st (emit (PartialReply t) (st\<lparr>currentTextBuffer := currentTextBuffer st @ t\<rparr>))"
  unfolding segment_def by (rule exI[of _ "[PartialReply t]"]) (simp add: emit_def)

lemma segment_field: "callbacks st' = callbacks st \<Longrightarrow> currentTextBuffer st' = currentTextBuffer st \<Longrightarrow> segment st st'"
  by (simp add: segment_def)

lemma segment_tool: "segment st (emit (ToolResult t) st)"
  unfolding segment_def by (rule exI[of _ "[ToolResult t]"]) (simp add: emit_def)

text \<open>
  The handlers and exceptions: an event that is well formed makes no handler throw, and a
  handler that throws has left the callbacks and the text buffer consistent.
\<close>

lemma onEvent_returns: "well_formed ev \<Longrightarrow> returned (onEvent ev st)"
  by (cases ev) (auto split: option.splits error_value.splits)

lemma assistant_blocks_returns: "None \<notin> set blocks \<Longrightarrow> returned (assistant_blocks blocks st)"
  by (induction blocks st rule: assistant_blocks.induct) simp_all

lemma processEvent_returns: "well_formed ev \<Longrightarrow> returned (processEvent ev st)"
  by (cases ev)
     (auto simp: assistant_blocks_returns split: option.splits error_value.splits message.splits)

lemma onEvent_segment: "ev \<noteq> ContentBlockStop \<Longrightarrow> segment st (after (onEvent ev st))"
proof (cases ev)
  case (ToolResultEvent c)
  then show ?thesis by (simp add: segment_refl segment_tool split: option.splits)
next
  case (ResultEvent r sid)
  then show ?thesis
    by (auto simp add: Let_def intro!: segment_field split: option.splits result_value.splits)
next
  case (ErrorEvent err)
  then show ?thesis
    by (auto simp add: segment_refl intro!: segment_field split: option.splits error_value.splits)
qed (auto simp add: segment_refl segment_partial intro!: segment_field
       split: option.splits message.splits)

lemma assistant_blocks_segment: "segment st (after (assistant_blocks blocks st))"
proof (induction blocks st rule: assistant_blocks.induct)
  case (1 st)
  then show ?case by (simp add: segment_refl)
next
  case (2 blocks st)
  then show ?case by (simp add: segment_refl)
next
  case (3 block blocks st)
  have "segment st (case block_text block of
          Some t \<Rightarrow>
            if block_type block = ''text'' \<and> t \<noteq> []
            then emit (PartialReply t) (st\<lparr>currentTextBuffer := currentTextBuffer st @ t\<rparr>)
            else st
        | None \<Rightarrow> st)"
    by (simp add: segment_refl segment_partial split: option.splits)
  then show ?case using 3 segment_trans by simp
qed

lemma processEvent_segment: "ev \<noteq> ContentBlockStop \<Longrightarrow> segment st (after (processEvent ev st))"
proof (cases ev)
  case (ToolResultEvent c)
  then show ?thesis by (simp add: segment_refl segment_tool split: option.splits)
next
  case (ResultEvent r sid)
  then show ?thesis
    by (auto simp add: Let_def intro!: segment_field split: option.splits result_value.splits)
next
  case (AssistantEvent m)
  then show ?thesis
    by (simp add: segment_refl assistant_blocks_segment split: option.splits message.splits)
next
  case (ErrorEvent err)
  then show ?thesis
    by (auto simp add: segment_refl intro!: segment_field split: option.splits error_value.splits)
qed (auto simp add: segment_refl segment_partial intro!: segment_field
       split: option.splits)

lemma fold_segment:
  assumes "\<And>ev st. ev \<noteq> ContentBlockStop \<Longrightarrow> segment st (f ev st)"
  shows "ContentBlockStop \<notin> set evs \<Longrightarrow> segment st (fold f evs st)"
proof (induction evs arbitrary: st)
  case Nil
  then show ?case by (simp add: segment_refl)
next
  case (Cons ev evs)
  then have "segment st (f ev st)" "segment (f ev st) (fold f evs (f ev st))"
    using assms by auto
  then show ?case using segment_trans by simp
qed

lemma after_events_append:
  "after_events f (xs @ ys) st = after_events f ys (after_events f xs st)"
  by (simp add: after_events_def)

lemma after_events_Nil: "after_events f [] st = st"
  by (simp add: after_events_def)

lemma after_events_Cons: "after_events f (x # xs) st = after_events f xs (after (f x st))"
  by (simp add: after_events_def)

lemma handle_events_returns:
  "(\<And>x s. x \<in> set xs \<Longrightarrow> returned (f x s)) \<Longrightarrow>
   handle_events f xs st = Inr (after_events f xs st)"
proof (induction xs arbitrary: st)
  case Nil
  then show ?case by (simp add: after_events_Nil)
next
  case (Cons x xs)
  have "returned (f x st)" using Cons.prems by simp
  then have r: "f x st = Inr (after (f x st))" by (rule returned_after)
  have "handle_events f xs (after (f x st)) = Inr (after_events f xs (after (f x st)))"
    using Cons.IH Cons.prems by simp
  then show ?case by (subst handle_events.simps, subst r) (simp add: after_events_Cons)
qed

lemma block_after_segment:
  assumes seg: "segment st st1" and empty: "currentTextBuffer st = []"
    and stop: "callbacks st2 = callbacks st1 @
                 (if currentTextBuffer st1 \<noteq> [] then [BlockReply (currentTextBuffer st1)] else [])"
  shows "callbacks st2 = callbacks st @ new_callbacks st st2
       \<and> block_texts (new_callbacks st st2)
           = (if partial_texts (new_callbacks st st2) = [] then []
              else [concat (partial_texts (new_callbacks st st2))])
       \<and> concat (block_texts (new_callbacks st st2)) = concat (partial_texts (new_callbacks st st2))"
proof -
  obtain new where n: "callbacks st1 = callbacks st @ new" "block_texts new = []"
      "currentTextBuffer st1 = currentTextBuffer st @ concat (partial_texts new)"
      "[] \<notin> set (partial_texts new)"
    using seg unfolding segment_def by blast
  have e: "concat (partial_texts new) = [] \<longleftrightarrow> partial_texts new = []"
    using n(4) by (cases "partial_texts new") auto
  show ?thesis
    using n e empty stop
    by (simp add: new_callbacks_def partial_texts_append block_texts_append)
qed

text \<open>
  Claim C2.  Starting with an empty text buffer, let any events without a block stop be
  followed by one block stop.  Then the block-reply callback receives exactly the
  concatenation of the texts given to the partial-reply callback for that block, in one
  call; when no partial reply was delivered (every partial text is non-empty), no block
  reply is delivered either.  The block stop leaves the buffer empty, so the next block
  starts as this one did.  This holds for the pipe runner and for the pseudo-terminal
  runner, also when the handler of one of the events throws and the process goes on; and
  when every event is well formed no handler throws.
\<close>

theorem block_reply_is_concat_of_partials:
  assumes "currentTextBuffer st = []" and "ContentBlockStop \<notin> set evs"
  shows "block_texts (new_callbacks st (after_events onEvent (evs @ [ContentBlockStop]) st))
           = (if partial_texts (new_callbacks st (after_events onEvent (evs @ [ContentBlockStop]) st)) = []
              then []
              else [concat (partial_texts
                      (new_callbacks st (after_events onEvent (evs @ [ContentBlockStop]) st)))])
       \<and> callbacks (after_events onEvent (evs @ [ContentBlockStop]) st)
           = callbacks st @ new_callbacks st (after_events onEvent (evs @ [ContentBlockStop]) st)
       \<and> block_texts (new_callbacks st (after_events processEvent (evs @ [ContentBlockStop]) st))
           = (if partial_texts (new_callbacks st (after_events processEvent (evs @ [ContentBlockStop]) st)) = []
              then []
              else [concat (partial_texts
                      (new_callbacks st (after_events processEvent (evs @ [ContentBlockStop]) st)))])
       \<and> callbacks (after_events processEvent (evs @ [ContentBlockStop]) st)
           = callbacks st @ new_callbacks st (after_events processEvent (evs @ [ContentBlockStop]) st)
       \<and> currentTextBuffer (after_events onEvent (evs @ [ContentBlockStop]) st) = []
       \<and> currentTextBuffer (after_events processEvent (evs @ [ContentBlockStop]) st) = []
       \<and> ((\<forall>ev\<in>set evs. well_formed ev) \<longrightarrow>
            handle_events onEvent (evs @ [ContentBlockStop]) st
              = Inr (after_events onEvent (evs @ [ContentBlockStop]) st)
          \<and> handle_events processEvent (evs @ [ContentBlockStop]) st
              = Inr (after_events processEvent (evs @ [ContentBlockStop]) st))"
proof -
  let ?a = "after_events onEvent evs st" and ?b = "after_events processEvent evs st"
  have b: "currentTextBuffer (after_events onEvent (evs @ [ContentBlockStop]) st) = []"
      "currentTextBuffer (after_events processEvent (evs @ [ContentBlockStop]) st) = []"
    by (simp_all add: after_events_append after_events_Cons after_events_Nil emit_def)
  have 1: "segment st ?a"
    unfolding after_events_def
    using fold_segment[of "\<lambda>ev s. after (onEvent ev s)", OF onEvent_segment assms(2)] .
  have 2: "segment st ?b"
    unfolding after_events_def
    using fold_segment[of "\<lambda>ev s. after (processEvent ev s)", OF processEvent_segment assms(2)] .
  have s1: "callbacks (after_events onEvent (evs @ [ContentBlockStop]) st)
      = callbacks ?a @ (if currentTextBuffer ?a \<noteq> [] then [BlockReply (currentTextBuffer ?a)] else [])"
    by (simp add: after_events_append after_events_Cons after_events_Nil emit_def)
  have s2: "callbacks (after_events processEvent (evs @ [ContentBlockStop]) st)
      = callbacks ?b @ (if currentTextBuffer ?b \<noteq> [] then [BlockReply (currentTextBuffer ?b)] else [])"
    by (simp add: after_events_append after_events_Cons after_events_Nil emit_def)
  have r: "handle_events onEvent (evs @ [ContentBlockStop]) st
              = Inr (after_events onEvent (evs @ [ContentBlockStop]) st)
          \<and> handle_events processEvent (evs @ [ContentBlockStop]) st
              = Inr (after_events processEvent (evs @ [ContentBlockStop]) st)"
    if w: "\<forall>ev\<in>set evs. well_formed ev"
  proof -
    have "\<And>x s. x \<in> set (evs @ [ContentBlockStop]) \<Longrightarrow> returned (onEvent x s)"
      using w by (auto intro: onEvent_returns)
    moreover have "\<And>x s. x \<in> set (evs @ [ContentBlockStop]) \<Longrightarrow> returned (processEvent x s)"
      using w by (auto intro: processEvent_returns)
    ultimately show ?thesis using handle_events_returns by blast
  qed
  show ?thesis
    using block_after_segment[OF 1 assms(1) s1] block_after_segment[OF 2 assms(1) s2] b r
    by simp
qed

theorem block_reply_is_concat_of_partials_witness:
  "currentTextBuffer (init_run ''s1'' 1000) = []
   \<and> ContentBlockStop \<notin> set [ContentBlockDelta (Some ''text_delta'') (Some ''Hello ''),
                                ContentBlockDelta (Some ''text_delta'') (Some ''world'')]
   \<and> well_formed (ContentBlockDelta (Some ''text_delta'') (Some ''Hello ''))
   \<and> well_formed (ContentBlockDelta (Some ''text_delta'') (Some ''world''))
   \<and> partial_texts (new_callbacks (init_run ''s1'' 1000)
        (after_events onEvent ([ContentBlockDelta (Some ''text_delta'') (Some ''Hello ''),
                        ContentBlockDelta (Some ''text_delta'') (Some ''world'')]
                       @ [ContentBlockStop]) (init_run ''s1'' 1000)))
        = [''Hello '', ''world'']
   \<and> block_texts (new_callbacks (init_run ''s1'' 1000)
        (after_events onEvent ([ContentBlockDelta (Some ''text_delta'') (Some ''Hello ''),
                        ContentBlockDelta (Some ''text_delta'') (Some ''world'')]
                       @ [ContentBlockStop]) (init_run ''s1'' 1000)))
        = [''Hello world'']
   \<and> block_texts (new_callbacks (init_run ''s1'' 1000)
        (after_events processEvent ([ContentBlockDelta (Some ''text_delta'') (Some ''Hello ''),
                        ContentBlockDelta (Some ''text_delta'') (Some ''world'')]
                       @ [ContentBlockStop]) (init_run ''s1'' 1000)))
        = [''Hello world'']
   \<and> returned (handle_events onEvent ([ContentBlockDelta (Some ''text_delta'') (Some ''Hello ''),
                        ContentBlockDelta (Some ''text_delta'') (Some ''world'')]
                       @ [ContentBlockStop]) (init_run ''s1'' 1000))
   \<and> returned (handle_events processEvent ([ContentBlockDelta (Some ''text_delta'') (Some ''Hello ''),
                        ContentBlockDelta (Some ''text_delta'') (Some ''world'')]
                       @ [ContentBlockStop]) (init_run ''s1'' 1000))"
proof -
  let ?evs = "[ContentBlockDelta (Some ''text_delta'') (Some ''Hello ''),
               ContentBlockDelta (Some ''text_delta'') (Some ''world'')]"
  have p: "partial_texts (new_callbacks (init_run ''s1'' 1000)
        (after_events onEvent (?evs @ [ContentBlockStop]) (init_run ''s1'' 1000)))
        = [''Hello '', ''world'']"
    by (simp add: init_run_def emit_def new_callbacks_def after_events_def)
  have q: "partial_texts (new_callbacks (init_run ''s1'' 1000)
        (after_events processEvent (?evs @ [ContentBlockStop]) (init_run ''s1'' 1000)))
        = [''Hello '', ''world'']"
    by (simp add: init_run_def emit_def new_callbacks_def after_events_def)
  have e: "currentTextBuffer (init_run ''s1'' 1000) = []" by (simp add: init_run_def)
  have n: "ContentBlockStop \<notin> set ?evs" by simp
  have w: "\<forall>ev\<in>set ?evs. well_formed ev" by simp
  show ?thesis
    using block_reply_is_concat_of_partials[OF e n] p q e w
    by (simp del: fold_append fold_simps handle_events.simps append.simps)
qed

lemma new_callbacks_emit: "new_callbacks st (emit cb st) = [cb]"
  by (simp add: new_callbacks_def emit_def)

lemma new_callbacks_same: "new_callbacks st st = []"
  by (simp add: new_callbacks_def)

lemma length_summary: "length (summary c) \<le> 203"
  by (simp add: summary_def slice0_def)

text \<open>
  Claim C5, as amended.  In both streaming runners a tool-result event whose content is
  non-empty makes one call of the tool-result callback, with the content unchanged when it
  has at most 200 characters, and with its first 200 characters followed by \<open>...\<close> (203
  characters) when it is longer.  A tool-result event whose content is empty or absent
  makes no call.  The handler of a tool-result event returns.
\<close>

theorem tool_result_summary:
  "(c \<noteq> [] \<longrightarrow>
      new_callbacks st (after (onEvent (ToolResultEvent (Some c)) st)) = [ToolResult (summary c)]
    \<and> new_callbacks st (after (processEvent (ToolResultEvent (Some c)) st)) = [ToolResult (summary c)])
   \<and> (length c > 200 \<longrightarrow> summary c = take 200 c @ ''...'' \<and> length (summary c) = 203)
   \<and> (length c \<le> 200 \<longrightarrow> summary c = c)
   \<and> onEvent (ToolResultEvent (Some [])) st = Inr st \<and> onEvent (ToolResultEvent None) st = Inr st
   \<and> processEvent (ToolResultEvent (Some [])) st = Inr st
   \<and> processEvent (ToolResultEvent None) st = Inr st
   \<and> returned (onEvent (ToolResultEvent content) st)
   \<and> returned (processEvent (ToolResultEvent content) st)"
  by (simp add: new_callbacks_emit summary_def slice0_def)

theorem tool_result_summary_witness:
  "replicate 300 CHR ''x'' \<noteq> [] \<and> length (replicate 300 CHR ''x'') > 200
   \<and> new_callbacks (init_run ''s1'' 1000)
        (after (onEvent (ToolResultEvent (Some (replicate 300 CHR ''x''))) (init_run ''s1'' 1000)))
       = [ToolResult (replicate 200 CHR ''x'' @ ''...'')]
   \<and> length (summary (replicate 300 CHR ''x'')) = 203
   \<and> ''File created successfully'' \<noteq> [] \<and> length ''File created successfully'' \<le> 200
   \<and> new_callbacks (init_run ''s1'' 1000)
        (after (processEvent (ToolResultEvent (Some ''File created successfully''))
                  (init_run ''s1'' 1000)))
       = [ToolResult ''File created successfully'']"
  using tool_result_summary[of "replicate 300 CHR ''x''" "init_run ''s1'' 1000"]
        tool_result_summary[of "''File created successfully''" "init_run ''s1'' 1000"]
  by (simp add: new_callbacks_emit summary_def slice0_def)

text \<open>
  The claim as stated fails for the empty text, which has no more than 200 characters: it
  is not delivered at all.
\<close>

theorem tool_result_empty_counterexample:
  "length ('''' :: string) \<le> 200
   \<and> tool_texts (callbacks (after (onEvent (ToolResultEvent (Some '''')) (init_run ''s1'' 1000)))) = []
   \<and> tool_texts (callbacks (after (onEvent (ToolResultEvent (Some '''')) (init_run ''s1'' 1000))))
       \<noteq> ['''']
   \<and> tool_texts (callbacks (after (processEvent (ToolResultEvent (Some '''')) (init_run ''s1'' 1000))))
       \<noteq> ['''']"
  by (simp add: init_run_def)

text \<open>
  The result event in the pseudo-terminal runner: its text is collected only when no text
  has been collected and the text buffer is empty; otherwise the collected texts are left
  as they are.  It never touches the buffer or the callbacks.
\<close>

lemma processEvent_result_fallback:
  "collectedTexts (after (processEvent (ResultEvent result sid) st))
     = (if collectedTexts st = [] \<and> currentTextBuffer st = []
        then (case result of
                Some (ResultString t) \<Rightarrow> if t \<noteq> [] then [t] else []
              | Some (ResultObject (Some t)) \<Rightarrow> if t \<noteq> [] then [t] else []
              | _ \<Rightarrow> [])
        else collectedTexts st)
   \<and> currentTextBuffer (after (processEvent (ResultEvent result sid) st)) = currentTextBuffer st
   \<and> callbacks (after (processEvent (ResultEvent result sid) st)) = callbacks st
   \<and> returned (processEvent (ResultEvent result sid) st)"
  by (simp add: Let_def split: option.splits result_value.splits)

text \<open>
  Claim C3 fails in the pipe runner, whose result case only checks that the result text
  is not already one of the collected texts.  After two completed blocks \<open>A\<close> and \<open>B\<close>, a
  result event with text \<open>AB\<close> adds a third text; and with the text \<open>Hello\<close> pending in the
  buffer, a result event with text \<open>Hello\<close> is collected and the run returns the text
  twice.  No handler throws on the way.
\<close>

theorem onEvent_result_after_blocks:
  "handle_events onEvent [text_delta ''A'', ContentBlockStop, text_delta ''B'', ContentBlockStop]
        (init_run ''s1'' 1000)
     = Inr (after_events onEvent
              [text_delta ''A'', ContentBlockStop, text_delta ''B'', ContentBlockStop]
              (init_run ''s1'' 1000))
   \<and> collectedTexts
     (after_events onEvent [text_delta ''A'', ContentBlockStop, text_delta ''B'', ContentBlockStop]
        (init_run ''s1'' 1000)) = [''A'', ''B'']
   \<and> handle_events onEvent [text_delta ''A'', ContentBlockStop, text_delta ''B'', ContentBlockStop,
                    result_text ''AB''] (init_run ''s1'' 1000)
     = Inr (after_events onEvent
              [text_delta ''A'', ContentBlockStop, text_delta ''B'', ContentBlockStop,
               result_text ''AB''] (init_run ''s1'' 1000))
   \<and> collectedTexts
     (after_events onEvent [text_delta ''A'', ContentBlockStop, text_delta ''B'', ContentBlockStop,
                    result_text ''AB''] (init_run ''s1'' 1000)) = [''A'', ''B'', ''AB'']
   \<and> currentTextBuffer (after_events onEvent [text_delta ''Hello''] (init_run ''s1'' 1000)) = ''Hello''
   \<and> handle_events onEvent [text_delta ''Hello'', result_text ''Hello''] (init_run ''s1'' 1000)
     = Inr (after_events onEvent [text_delta ''Hello'', result_text ''Hello''] (init_run ''s1'' 1000))
   \<and> payload_texts
     (onClose (Some 0)
        (after_events onEvent [text_delta ''Hello'', result_text ''Hello''] (init_run ''s1'' 1000)))
       = [''Hello'', ''Hello'']"
  by (simp add: text_delta_def result_text_def init_run_def emit_def onClose_def finalize_def
        payload_texts_def Let_def after_events_def)

text \<open>
  None of the handlers of the streaming runners changes the abort flag, the calls of \<open>kill\<close>
  or the promise, whether it returns or throws.
\<close>

lemma onEvent_control:
  "aborted (after (onEvent ev st)) = aborted st \<and> kills (after (onEvent ev st)) = kills st
   \<and> settled (after (onEvent ev st)) = settled st
   \<and> isStreaming (after (onEvent ev st)) = isStreaming st
   \<and> timeoutId (after (onEvent ev st)) = timeoutId st"
  by (cases ev)
     (auto simp: emit_def Let_def
        split: option.splits message.splits result_value.splits error_value.splits)

lemma assistant_blocks_control:
  "aborted (after (assistant_blocks bs st)) = aborted st
   \<and> kills (after (assistant_blocks bs st)) = kills st
   \<and> settled (after (assistant_blocks bs st)) = settled st
   \<and> isStreaming (after (assistant_blocks bs st)) = isStreaming st
   \<and> timeoutId (after (assistant_blocks bs st)) = timeoutId st"
  by (induction bs st rule: assistant_blocks.induct) (auto simp: emit_def split: option.splits)

lemma processEvent_control:
  "aborted (after (processEvent ev st)) = aborted st
   \<and> kills (after (processEvent ev st)) = kills st
   \<and> settled (after (processEvent ev st)) = settled st
   \<and> isStreaming (after (processEvent ev st)) = isStreaming st
   \<and> timeoutId (after (processEvent ev st)) = timeoutId st"
  by (cases ev)
     (auto simp: emit_def Let_def assistant_blocks_control
        split: option.splits message.splits result_value.splits error_value.splits)

lemma onLine_control:
  "aborted (after (onLine parse l st)) = aborted st \<and> kills (after (onLine parse l st)) = kills st
   \<and> settled (after (onLine parse l st)) = settled st
   \<and> isStreaming (after (onLine parse l st)) = isStreaming st
   \<and> timeoutId (after (onLine parse l st)) = timeoutId st"
  by (simp add: onLine_def onEvent_control split: option.splits)

lemma processLine_control:
  "aborted (after (processLine parse l st)) = aborted st
   \<and> kills (after (processLine parse l st)) = kills st
   \<and> settled (after (processLine parse l st)) = settled st
   \<and> isStreaming (after (processLine parse l st)) = isStreaming st
   \<and> timeoutId (after (processLine parse l st)) = timeoutId st"
  by (simp add: processLine_def processEvent_control split: option.splits)

lemma drain_control:
  "aborted (after (drain parse buf st)) = aborted st
   \<and> kills (after (drain parse buf st)) = kills st
   \<and> settled (after (drain parse buf st)) = settled st
   \<and> isStreaming (after (drain parse buf st)) = isStreaming st
   \<and> timeoutId (after (drain parse buf st)) = timeoutId st"
proof (induction parse buf st rule: drain.induct)
  case (1 parse buf st)
  let ?l = "strip_cr (takeWhile (\<lambda>c. c \<noteq> CHR 0x0A) buf)"
  show ?case
  proof (cases "CHR 0x0A \<in> set buf")
    case True
    note c = processLine_control[of parse ?l st]
    show ?thesis
    proof (cases "processLine parse ?l st")
      case (Inl thrown)
      then show ?thesis
        using True c by (subst (1 2 3 4 5) drain.simps) (auto split: prod.splits)
    next
      case (Inr st')
      then show ?thesis
        using True c 1[OF True Inr] by (subst (1 2 3 4 5) drain.simps) simp
    qed
  next
    case False
    then show ?thesis by (subst (1 2 3 4 5) drain.simps) simp
  qed
qed

text \<open>A parser that yields well-formed events only makes no handler throw.\<close>

lemma onLine_returns: "parse_ok parse \<Longrightarrow> returned (onLine parse l st)"
  by (auto simp: onLine_def parse_ok_def onEvent_returns split: option.splits)

lemma processLine_returns: "parse_ok parse \<Longrightarrow> returned (processLine parse l st)"
  by (auto simp: processLine_def parse_ok_def processEvent_returns split: option.splits)

lemma drain_returns: "parse_ok parse \<Longrightarrow> returned (drain parse buf st)"
proof (induction parse buf st rule: drain.induct)
  case (1 parse buf st)
  let ?l = "strip_cr (takeWhile (\<lambda>c. c \<noteq> CHR 0x0A) buf)"
  show ?case
  proof (cases "CHR 0x0A \<in> set buf")
    case True
    have "returned (processLine parse ?l st)" using 1(2) by (rule processLine_returns)
    then obtain st' where p: "processLine parse ?l st = Inr st'"
      by (cases "processLine parse ?l st") simp_all
    show ?thesis
      using True p 1(1)[OF True p 1(2)] by (subst drain.simps) simp
  next
    case False
    then show ?thesis by (subst drain.simps) simp
  qed
qed

lemma onExit_returns: "parse_ok parse \<Longrightarrow> returned (onExit parse exitCode st)"
proof -
  assume "parse_ok parse"
  then have "returned (processLine parse (trim (dataBuffer st)) st)"
    by (rule processLine_returns)
  then show ?thesis
    by (cases "processLine parse (trim (dataBuffer st)) st") (simp_all add: onExit_def)
qed

lemma handle_abort_again: "aborted st \<Longrightarrow> handle_abort kill st = Inr st"
  by (simp add: handle_abort_def)

lemma pipe_step_aborted:
  "aborted_once ks st \<Longrightarrow> aborted_once ks (after (pipe_step parse kill x st))"
  by (cases x)
     (auto simp: aborted_once_def onLine_control onStderr_def onTimeout_def handle_abort_def
        onSpawnError_def finalize_def split: option.splits)

lemma pty_step_aborted:
  "aborted_once ks st \<Longrightarrow> aborted_once ks (after (pty_step parse kill x st))"
  by (cases x)
     (auto simp: aborted_once_def onData_def drain_control onTimeout_def handle_abort_def)

lemma pipe_step_returns:
  "parse_ok parse \<Longrightarrow> aborted_once ks st \<Longrightarrow> returned (pipe_step parse kill x st)"
  by (cases x) (auto simp: aborted_once_def onLine_returns onTimeout_def handle_abort_def)

lemma pty_step_returns:
  "parse_ok parse \<Longrightarrow> aborted_once ks st \<Longrightarrow> returned (pty_step parse kill x st)"
  by (cases x)
     (auto simp: aborted_once_def onData_def drain_returns onTimeout_def handle_abort_def)

lemma after_events_inv:
  assumes "\<And>x s. I s \<Longrightarrow> I (after (f x s))"
  shows "I st \<Longrightarrow> I (after_events f xs st)"
  by (induction xs arbitrary: st) (simp_all add: after_events_Nil after_events_Cons assms)

lemma handle_events_inv:
  assumes "\<And>x s. I s \<Longrightarrow> I (after (f x s))" and "\<And>x s. I s \<Longrightarrow> returned (f x s)"
  shows "I st \<Longrightarrow> handle_events f xs st = Inr (after_events f xs st)"
proof (induction xs arbitrary: st)
  case Nil
  then show ?case by (simp add: after_events_Nil)
next
  case (Cons x xs)
  have r: "f x st = Inr (after (f x st))" using assms(2)[OF Cons.prems] by (rule returned_after)
  have "handle_events f xs (after (f x st)) = Inr (after_events f xs (after (f x st)))"
    using Cons.IH assms(1)[OF Cons.prems] by simp
  then show ?case by (subst handle_events.simps, subst r) (simp add: after_events_Cons)
qed

lemma onClose_aborted:
  "aborted_once ks st \<Longrightarrow>
   \<exists>res. settled (onClose code st) = Some res \<and> result_aborted res \<and> kills (onClose code st) = ks"
  by (auto simp: aborted_once_def onClose_def finalize_def Let_def split: option.splits)

lemma onExit_aborted:
  assumes "aborted_once ks st"
  shows "(returned (onExit parse code st) \<longrightarrow>
            (\<exists>res. settled (after (onExit parse code st)) = Some res \<and> result_aborted res))
       \<and> (\<not> returned (onExit parse code st) \<longrightarrow>
            settled (after (onExit parse code st)) = settled st)
       \<and> kills (after (onExit parse code st)) = ks
       \<and> aborted (after (onExit parse code st))"
proof (cases "trim (dataBuffer st) = []")
  case True
  then show ?thesis
    using assms
    by (auto simp: aborted_once_def onExit_def finalize_def Let_def split: option.splits)
next
  case False
  note c = processLine_control[of parse "trim (dataBuffer st)" st]
  show ?thesis
  proof (cases "processLine parse (trim (dataBuffer st)) st")
    case (Inl thrown)
    then show ?thesis
      using False assms c by (cases thrown) (auto simp: aborted_once_def onExit_def)
  next
    case (Inr st0)
    then show ?thesis
      using False assms c
      by (auto simp: aborted_once_def onExit_def finalize_def Let_def split: option.splits)
  qed
qed

lemma handle_abort_once:
  "\<not> aborted st \<Longrightarrow> settled st = None \<Longrightarrow>
   aborted_once (kills st @ [''SIGTERM'']) (after (handle_abort kill st))"
  by (cases kill) (simp_all add: aborted_once_def handle_abort_def)

lemma abortCliRun_first:
  assumes "ACTIVE_CLI_RUNS r sessionId = Some h" and "\<not> aborted (runs h)"
  shows "fst (abortCliRun kill sessionId r runs)
           = (case kill of KillReturns \<Rightarrow> Inr True | KillThrows \<Rightarrow> Inl KillError)"
    and "snd (abortCliRun kill sessionId r runs) = runs(h := after (handle_abort kill (runs h)))"
  using assms by (cases kill; simp add: abortCliRun_def handle_abort_def)+

lemma abortCliRun_again:
  assumes "ACTIVE_CLI_RUNS r sessionId = Some h" and "aborted (runs h)"
  shows "abortCliRun kill sessionId r runs = (Inr True, runs)"
  using assms by (simp add: abortCliRun_def handle_abort_again)

text \<open>
  Claim C8, as amended.  Let a run that is not yet aborted and not yet settled be
  registered for the session, and let \<open>abortCliRun\<close> be called twice in a row.  The first
  call sets the flags and calls \<open>kill\<close>, which is not guarded: the call returns \<open>true\<close> when
  \<open>kill\<close> returns, and the exception of \<open>kill\<close> escapes it when \<open>kill\<close> throws.  The second
  call returns \<open>true\<close>, throws nothing and changes nothing, so \<open>kill\<close> has been called exactly
  once, with \<open>SIGTERM\<close>.  Whatever reaches the run afterwards (output, the timer, further
  aborts, an \<open>error\<close> event of the child), \<open>kill\<close> is not called again, and the result the
  run has when the close handler of the pipe runner has run, and when the exit handler of
  the pseudo-terminal runner has returned, has \<open>aborted\<close> set.  When the child prints
  well-formed events only, no handler throws after the aborts and the exit handler
  returns.
\<close>

theorem abort_twice_kills_once:
  assumes "ACTIVE_CLI_RUNS r sessionId = Some h" and "\<not> aborted (runs h)"
    and "settled (runs h) = None"
  shows "fst (abortCliRun kill sessionId r runs)
           = (case kill of KillReturns \<Rightarrow> Inr True | KillThrows \<Rightarrow> Inl KillError)
    \<and> abortCliRun kill2 sessionId r (snd (abortCliRun kill sessionId r runs))
        = (Inr True, snd (abortCliRun kill sessionId r runs))
    \<and> kills (snd (abortCliRun kill sessionId r runs) h) = kills (runs h) @ [''SIGTERM'']
    \<and> aborted (snd (abortCliRun kill sessionId r runs) h)
    \<and> (\<exists>res. settled (onClose code (after_events (pipe_step parse kill3) ins
                  (snd (abortCliRun kill sessionId r runs) h)))
                = Some res
              \<and> result_aborted res
              \<and> kills (onClose code (after_events (pipe_step parse kill3) ins
                  (snd (abortCliRun kill sessionId r runs) h)))
                  = kills (runs h) @ [''SIGTERM''])
    \<and> (returned (onExit parse exitCode (after_events (pty_step parse kill3) ins
                  (snd (abortCliRun kill sessionId r runs) h))) \<longrightarrow>
         (\<exists>res. settled (after (onExit parse exitCode (after_events (pty_step parse kill3) ins
                  (snd (abortCliRun kill sessionId r runs) h))))
                = Some res
              \<and> result_aborted res))
    \<and> kills (after (onExit parse exitCode (after_events (pty_step parse kill3) ins
                  (snd (abortCliRun kill sessionId r runs) h))))
        = kills (runs h) @ [''SIGTERM'']
    \<and> (parse_ok parse \<longrightarrow>
         handle_events (pipe_step parse kill3) ins (snd (abortCliRun kill sessionId r runs) h)
           = Inr (after_events (pipe_step parse kill3) ins
                    (snd (abortCliRun kill sessionId r runs) h))
       \<and> handle_events (pty_step parse kill3) ins (snd (abortCliRun kill sessionId r runs) h)
           = Inr (after_events (pty_step parse kill3) ins
                    (snd (abortCliRun kill sessionId r runs) h))
       \<and> returned (onExit parse exitCode (after_events (pty_step parse kill3) ins
                  (snd (abortCliRun kill sessionId r runs) h))))"
proof -
  let ?ks = "kills (runs h) @ [''SIGTERM'']"
  let ?runs1 = "snd (abortCliRun kill sessionId r runs)"
  note first = abortCliRun_first[where runs = runs and h = h and kill = kill, OF assms(1,2)]
  have once: "aborted_once ?ks (?runs1 h)"
    unfolding first(2) using handle_abort_once[OF assms(2,3), of kill] by simp
  then have ab: "aborted (?runs1 h)" and k: "kills (?runs1 h) = ?ks"
    by (simp_all add: aborted_once_def)
  have act: "ACTIVE_CLI_RUNS r sessionId = Some h" by (rule assms(1))
  have second: "abortCliRun kill2 sessionId r ?runs1 = (Inr True, ?runs1)"
    using abortCliRun_again[where runs = ?runs1 and h = h, OF act ab] .
  have pipe: "aborted_once ?ks (after_events (pipe_step parse kill3) ins (?runs1 h))"
    using after_events_inv[of "aborted_once ?ks" "pipe_step parse kill3", OF pipe_step_aborted once] .
  have pty: "aborted_once ?ks (after_events (pty_step parse kill3) ins (?runs1 h))"
    using after_events_inv[of "aborted_once ?ks" "pty_step parse kill3", OF pty_step_aborted once] .
  have ret: "handle_events (pipe_step parse kill3) ins (?runs1 h)
           = Inr (after_events (pipe_step parse kill3) ins (?runs1 h))
       \<and> handle_events (pty_step parse kill3) ins (?runs1 h)
           = Inr (after_events (pty_step parse kill3) ins (?runs1 h))
       \<and> returned (onExit parse exitCode (after_events (pty_step parse kill3) ins (?runs1 h)))"
    if ok: "parse_ok parse"
  proof (intro conjI)
    show "handle_events (pipe_step parse kill3) ins (?runs1 h)
           = Inr (after_events (pipe_step parse kill3) ins (?runs1 h))"
      using handle_events_inv[of "aborted_once ?ks" "pipe_step parse kill3",
              OF pipe_step_aborted pipe_step_returns[OF ok] once] .
    show "handle_events (pty_step parse kill3) ins (?runs1 h)
           = Inr (after_events (pty_step parse kill3) ins (?runs1 h))"
      using handle_events_inv[of "aborted_once ?ks" "pty_step parse kill3",
              OF pty_step_aborted pty_step_returns[OF ok] once] .
    show "returned (onExit parse exitCode (after_events (pty_step parse kill3) ins (?runs1 h)))"
      using ok by (rule onExit_returns)
  qed
  show ?thesis
    using first(1) second ab k onClose_aborted[OF pipe, of code]
      onExit_aborted[OF pty, of parse exitCode] ret
    by simp
qed

theorem abort_twice_kills_once_witness:
  "ACTIVE_CLI_RUNS ex_active ''s'' = Some 1
   \<and> \<not> aborted (ex_runs 1) \<and> settled (ex_runs 1) = None \<and> parse_ok ex_parse
   \<and> fst (abortCliRun KillReturns ''s'' ex_active ex_runs) = Inr True
   \<and> abortCliRun KillReturns ''s'' ex_active (snd (abortCliRun KillReturns ''s'' ex_active ex_runs))
       = (Inr True, snd (abortCliRun KillReturns ''s'' ex_active ex_runs))
   \<and> kills (snd (abortCliRun KillReturns ''s'' ex_active ex_runs) 1) = [''SIGTERM'']
   \<and> returned (handle_events (pipe_step ex_parse KillReturns) [AbortIn, LineIn ''d1'', ErrorIn ''kill EPERM'', TimeoutIn]
                 (snd (abortCliRun KillReturns ''s'' ex_active ex_runs) 1))
   \<and> (\<exists>res. settled (onClose None (after_events (pipe_step ex_parse KillReturns)
                 [AbortIn, LineIn ''d1'', ErrorIn ''kill EPERM'', TimeoutIn]
                 (snd (abortCliRun KillReturns ''s'' ex_active ex_runs) 1)))
               = Some res \<and> result_aborted res)
   \<and> returned (onExit ex_parse 0 (after_events (pty_step ex_parse KillReturns)
                 [AbortIn, DataIn ''d1'', TimeoutIn]
                 (snd (abortCliRun KillReturns ''s'' ex_active ex_runs) 1)))
   \<and> (\<exists>res. settled (after (onExit ex_parse 0 (after_events (pty_step ex_parse KillReturns)
                 [AbortIn, DataIn ''d1'', TimeoutIn]
                 (snd (abortCliRun KillReturns ''s'' ex_active ex_runs) 1))))
               = Some res \<and> result_aborted res)"
proof -
  have a: "ACTIVE_CLI_RUNS ex_active ''s'' = Some 1"
    by (simp add: ex_active_def setActiveCliRun_def empty_registry_def)
  have b: "\<not> aborted (ex_runs 1)" and c: "settled (ex_runs 1) = None"
    by (simp_all add: ex_runs_def init_run_def)
  have ok: "parse_ok ex_parse"
    by (auto simp: parse_ok_def ex_parse_def text_delta_def split: if_splits)
  have k: "kills (ex_runs 1) = []" by (simp add: ex_runs_def init_run_def)
  note pipe = abort_twice_kills_once[where runs = ex_runs and h = 1 and kill = KillReturns
                and ?kill2.0 = KillReturns and ?kill3.0 = KillReturns and code = None
                and parse = ex_parse and ins = "[AbortIn, LineIn ''d1'', ErrorIn ''kill EPERM'', TimeoutIn]"
                and exitCode = 0, OF a b c]
  note pty = abort_twice_kills_once[where runs = ex_runs and h = 1 and kill = KillReturns
                and ?kill2.0 = KillReturns and ?kill3.0 = KillReturns and code = None
                and parse = ex_parse and ins = "[AbortIn, DataIn ''d1'', TimeoutIn]"
                and exitCode = 0, OF a b c]
  let ?st = "snd (abortCliRun KillReturns ''s'' ex_active ex_runs) 1"
  have f1: "fst (abortCliRun KillReturns ''s'' ex_active ex_runs) = Inr True"
    using pipe by simp
  have f2: "abortCliRun KillReturns ''s'' ex_active (snd (abortCliRun KillReturns ''s'' ex_active ex_runs))
       = (Inr True, snd (abortCliRun KillReturns ''s'' ex_active ex_runs))"
    using pipe by blast
  have f3: "kills ?st = [''SIGTERM'']"
    using pipe k by simp
  have f4: "returned (handle_events (pipe_step ex_parse KillReturns) [AbortIn, LineIn ''d1'', ErrorIn ''kill EPERM'', TimeoutIn] ?st)"
    using pipe ok by (simp del: handle_events.simps)
  have f5: "\<exists>res. settled (onClose None (after_events (pipe_step ex_parse KillReturns)
                 [AbortIn, LineIn ''d1'', ErrorIn ''kill EPERM'', TimeoutIn] ?st)) = Some res \<and> result_aborted res"
    using pipe by blast
  have f6: "returned (onExit ex_parse 0 (after_events (pty_step ex_parse KillReturns)
                 [AbortIn, DataIn ''d1'', TimeoutIn] ?st))"
    using pty ok by blast
  have f7: "\<exists>res. settled (after (onExit ex_parse 0 (after_events (pty_step ex_parse KillReturns)
                 [AbortIn, DataIn ''d1'', TimeoutIn] ?st))) = Some res \<and> result_aborted res"
    using pty f6 by blast
  show ?thesis
    using a b c ok f1 f2 f3 f4 f5 f6 f7 by blast
qed

text \<open>
  The claim as stated fails when \<open>kill\<close> throws: the exception escapes the first call of
  \<open>abortCliRun\<close>.  The flags are set by then, so a second call still does nothing.
\<close>

theorem abort_kill_throws_counterexample:
  "ACTIVE_CLI_RUNS ex_active ''s'' = Some 1
   \<and> fst (abortCliRun KillThrows ''s'' ex_active ex_runs) = Inl KillError
   \<and> fst (abortCliRun KillThrows ''s'' ex_active ex_runs) \<noteq> Inr True
   \<and> handle_abort KillThrows (ex_runs 1)
       = Inl (KillError, (ex_runs 1)\<lparr>aborted := True, isStreaming := False, kills := [''SIGTERM'']\<rparr>)"
  by (simp add: ex_active_def setActiveCliRun_def empty_registry_def abortCliRun_def
        handle_abort_def ex_runs_def init_run_def Let_def)

section \<open>Properties of backend resolution\<close>

lemma last_dropWhile:
  "xs \<noteq> [] \<Longrightarrow> \<not> P (last xs) \<Longrightarrow> dropWhile P xs \<noteq> [] \<and> last (dropWhile P xs) = last xs"
  by (induction xs) auto

lemma trimEnd_keeps_head:
  assumes "x \<noteq> []" "\<not> isWhiteSpace (hd x)"
  shows "trimEnd x \<noteq> [] \<and> hd (trimEnd x) = hd x"
proof -
  have "rev x \<noteq> []" "\<not> isWhiteSpace (last (rev x))"
    using assms by (simp_all add: last_rev)
  from last_dropWhile[of "rev x" isWhiteSpace, OF this]
  show ?thesis using assms(1) by (simp add: trimEnd_def hd_rev last_rev)
qed

lemma trimStart_head: "trimStart s \<noteq> [] \<Longrightarrow> \<not> isWhiteSpace (hd (trimStart s))"
  unfolding trimStart_def by (rule hd_dropWhile)

lemma trimStart_fix: "x \<noteq> [] \<Longrightarrow> \<not> isWhiteSpace (hd x) \<Longrightarrow> trimStart x = x"
  by (cases x) (simp_all add: trimStart_def)

lemma trim_idem: "trim (trim s) = trim s"
proof (cases "trimStart s = []")
  case True
  then have e: "trim s = []" by (simp add: trim_def trimEnd_def)
  have n: "trim [] = []" by (simp add: trim_def trimEnd_def trimStart_def)
  show ?thesis by (simp only: e n)
next
  case False
  note h = trimEnd_keeps_head[OF False trimStart_head[OF False]]
  have "trimStart (trimEnd (trimStart s)) = trimEnd (trimStart s)"
    using h trimStart_head[OF False] by (intro trimStart_fix) simp_all
  moreover have "trimEnd (trimEnd (trimStart s)) = trimEnd (trimStart s)"
    by (simp add: trimEnd_def)
  ultimately show ?thesis by (simp add: trim_def)
qed

lemma trim_claude: "trim ''claude'' = ''claude''" and trim_codex: "trim ''codex'' = ''codex''"
  by (simp_all add: trim_def trimEnd_def trimStart_def isWhiteSpace_def)

lemma merge_no_override: "mergeBackendConfig base None = base"
  by (simp add: mergeBackendConfig_def)

text \<open>
  Claim C6.  With no override configured, each built-in backend id resolves to a
  descriptor with its own non-empty command (\<open>claude\<close>, \<open>codex\<close>).  An id that is neither
  built in nor overridden does not resolve.  Whenever the merged command (the override's
  command if it has one, else the built-in's; for other ids the override's) is missing,
  empty or only white space, resolution returns nothing; and every descriptor that is
  returned has a non-empty command without surrounding white space.
\<close>

theorem resolveCliBackendConfig_command:
  "(pickBackendConfig norm (case cliBackends of Some c \<Rightarrow> c | None \<Rightarrow> []) (norm provider) = None \<longrightarrow>
      (norm provider = ''claude-cli'' \<longrightarrow>
         (\<exists>rb. resolveCliBackendConfig norm provider cliBackends = Some rb
               \<and> backend_id rb = ''claude-cli'' \<and> command (config rb) = Some ''claude''))
    \<and> (norm provider = ''codex-cli'' \<longrightarrow>
         (\<exists>rb. resolveCliBackendConfig norm provider cliBackends = Some rb
               \<and> backend_id rb = ''codex-cli'' \<and> command (config rb) = Some ''codex''))
    \<and> (norm provider \<noteq> ''claude-cli'' \<and> norm provider \<noteq> ''codex-cli'' \<longrightarrow>
         resolveCliBackendConfig norm provider cliBackends = None))
   \<and> (\<forall>ov. pickBackendConfig norm (case cliBackends of Some c \<Rightarrow> c | None \<Rightarrow> []) (norm provider)
               = Some ov \<longrightarrow>
        (norm provider = ''claude-cli'' \<and>
           (case command (mergeBackendConfig DEFAULT_CLAUDE_BACKEND (Some ov)) of
              None \<Rightarrow> True | Some c \<Rightarrow> trim c = []) \<longrightarrow>
           resolveCliBackendConfig norm provider cliBackends = None)
      \<and> (norm provider = ''codex-cli'' \<and>
           (case command (mergeBackendConfig DEFAULT_CODEX_BACKEND (Some ov)) of
              None \<Rightarrow> True | Some c \<Rightarrow> trim c = []) \<longrightarrow>
           resolveCliBackendConfig norm provider cliBackends = None)
      \<and> (norm provider \<noteq> ''claude-cli'' \<and> norm provider \<noteq> ''codex-cli'' \<and>
           (case command ov of None \<Rightarrow> True | Some c \<Rightarrow> trim c = []) \<longrightarrow>
           resolveCliBackendConfig norm provider cliBackends = None))
   \<and> (\<forall>rb. resolveCliBackendConfig norm provider cliBackends = Some rb \<longrightarrow>
        backend_id rb = norm provider
        \<and> (\<exists>c. command (config rb) = Some c \<and> c \<noteq> [] \<and> trim c = c))"
proof (intro conjI impI allI)
  assume n: "pickBackendConfig norm (case cliBackends of Some c \<Rightarrow> c | None \<Rightarrow> []) (norm provider) = None"
  {
    assume "norm provider = ''claude-cli''"
    then show "\<exists>rb. resolveCliBackendConfig norm provider cliBackends = Some rb
               \<and> backend_id rb = ''claude-cli'' \<and> command (config rb) = Some ''claude''"
      using n
      by (simp add: resolveCliBackendConfig_def normalizeBackendKey_def merge_no_override
            DEFAULT_CLAUDE_BACKEND_def trim_claude)
  next
    assume "norm provider = ''codex-cli''"
    then show "\<exists>rb. resolveCliBackendConfig norm provider cliBackends = Some rb
               \<and> backend_id rb = ''codex-cli'' \<and> command (config rb) = Some ''codex''"
      using n
      by (simp add: resolveCliBackendConfig_def normalizeBackendKey_def merge_no_override
            DEFAULT_CODEX_BACKEND_def trim_codex)
  next
    assume "norm provider \<noteq> ''claude-cli'' \<and> norm provider \<noteq> ''codex-cli''"
    then show "resolveCliBackendConfig norm provider cliBackends = None"
      using n by (simp add: resolveCliBackendConfig_def normalizeBackendKey_def)
  }
next
  fix ov
  assume p: "pickBackendConfig norm (case cliBackends of Some c \<Rightarrow> c | None \<Rightarrow> []) (norm provider) = Some ov"
  {
    assume "norm provider = ''claude-cli'' \<and>
           (case command (mergeBackendConfig DEFAULT_CLAUDE_BACKEND (Some ov)) of
              None \<Rightarrow> True | Some c \<Rightarrow> trim c = [])"
    then show "resolveCliBackendConfig norm provider cliBackends = None"
      using p
      by (auto simp add: resolveCliBackendConfig_def normalizeBackendKey_def Let_def
            split: option.splits)
  next
    assume "norm provider = ''codex-cli'' \<and>
           (case command (mergeBackendConfig DEFAULT_CODEX_BACKEND (Some ov)) of
              None \<Rightarrow> True | Some c \<Rightarrow> trim c = [])"
    then show "resolveCliBackendConfig norm provider cliBackends = None"
      using p
      by (auto simp add: resolveCliBackendConfig_def normalizeBackendKey_def Let_def
            split: option.splits)
  next
    assume "norm provider \<noteq> ''claude-cli'' \<and> norm provider \<noteq> ''codex-cli'' \<and>
           (case command ov of None \<Rightarrow> True | Some c \<Rightarrow> trim c = [])"
    then show "resolveCliBackendConfig norm provider cliBackends = None"
      using p
      by (auto simp add: resolveCliBackendConfig_def normalizeBackendKey_def Let_def
            split: option.splits)
  }
next
  fix rb
  assume r: "resolveCliBackendConfig norm provider cliBackends = Some rb"
  then show "backend_id rb = norm provider"
    by (auto simp add: resolveCliBackendConfig_def normalizeBackendKey_def Let_def
          split: option.splits if_splits)
  from r show "\<exists>c. command (config rb) = Some c \<and> c \<noteq> [] \<and> trim c = c"
    by (auto simp add: resolveCliBackendConfig_def normalizeBackendKey_def Let_def trim_idem
          split: option.splits if_splits)
qed

theorem resolveCliBackendConfig_command_witness:
  "pickBackendConfig (\<lambda>x. x) [] ''claude-cli'' = None
   \<and> (\<exists>rb. resolveCliBackendConfig (\<lambda>x. x) ''claude-cli'' None = Some rb
           \<and> command (config rb) = Some ''claude'')
   \<and> pickBackendConfig (\<lambda>x. x) [] ''my-cli'' = None
   \<and> ''my-cli'' \<noteq> ''claude-cli'' \<and> ''my-cli'' \<noteq> ''codex-cli''
   \<and> resolveCliBackendConfig (\<lambda>x. x) ''my-cli'' None = None
   \<and> pickBackendConfig (\<lambda>x. x) [(''codex-cli'', empty_backend\<lparr>command := Some ''  ''\<rparr>)] ''codex-cli''
       = Some (empty_backend\<lparr>command := Some ''  ''\<rparr>)
   \<and> command (mergeBackendConfig DEFAULT_CODEX_BACKEND (Some (empty_backend\<lparr>command := Some ''  ''\<rparr>)))
       = Some ''  ''
   \<and> trim ''  '' = []
   \<and> resolveCliBackendConfig (\<lambda>x. x) ''codex-cli''
        (Some [(''codex-cli'', empty_backend\<lparr>command := Some ''  ''\<rparr>)]) = None"
proof -
  have t: "trim ''  '' = []"
    by (simp add: trim_def trimEnd_def trimStart_def isWhiteSpace_def)
  have m: "command (mergeBackendConfig DEFAULT_CODEX_BACKEND
                      (Some (empty_backend\<lparr>command := Some ''  ''\<rparr>))) = Some ''  ''"
    by (simp add: mergeBackendConfig_def orElse_def)
  show ?thesis
    using resolveCliBackendConfig_command[of "\<lambda>x. x" None "''claude-cli''"]
          resolveCliBackendConfig_command[of "\<lambda>x. x" None "''my-cli''"]
          resolveCliBackendConfig_command[of "\<lambda>x. x"
             "Some [(''codex-cli'', empty_backend\<lparr>command := Some ''  ''\<rparr>)]" "''codex-cli''"]
          t m
    by (auto simp add: normalizeBackendKey_def)
qed

section \<open>Properties of the non-streaming runners\<close>

text \<open>
  Claim C7, as amended.  In \<open>cli-runner.ts\<close>, when the backend resolves and is not a
  streaming backend, a command result with a non-zero (or \<open>null\<close>) exit code makes
  \<open>runCliAgent\<close> raise a \<open>FailoverError\<close> whose message is the trimmed error output, else the
  trimmed output, else \<open>CLI failed.\<close>, whose reason is the one \<open>classifyFailoverReason\<close>
  gives for that message, \<open>unknown\<close> when it gives none, with the provider, the model id and
  the status of the reason; this does not depend on any abort flag.  For a streaming
  backend the same error is raised from the message \<open>runCliWithStreaming\<close> rejects with.
  In \<open>pi-cli-runner/run.ts\<close> a non-zero exit code raises nothing: the run returns a result
  whose one payload is the error text marked \<open>isError\<close>, with \<open>aborted\<close> the \<open>killed\<close> flag of
  the command.
\<close>

theorem nonzero_exit_failover:
  "(resolveCliBackendConfig norm provider cliBackends = Some rb \<longrightarrow>
      (streaming (config rb) \<noteq> Some True \<and> cr_code result \<noteq> Some 0 \<longrightarrow>
         runCliAgent norm classify status isFailover parseJson parseJsonl cliBackends provider
             model sessionId sessionIdSent useResume streamOutcome (Inr result)
           = Inl (FailoverError
                    (orStr (trim (cr_stderr result)) (orStr (trim (cr_stdout result)) ''CLI failed.''))
                    (case classify (orStr (trim (cr_stderr result))
                                      (orStr (trim (cr_stdout result)) ''CLI failed.'')) of
                       Some r \<Rightarrow> r | None \<Rightarrow> ''unknown'')
                    provider (modelIdOf model)
                    (status (case classify (orStr (trim (cr_stderr result))
                                              (orStr (trim (cr_stdout result)) ''CLI failed.'')) of
                               Some r \<Rightarrow> r | None \<Rightarrow> ''unknown''))))
    \<and> (streaming (config rb) = Some True \<longrightarrow>
         runCliAgent norm classify status isFailover parseJson parseJsonl cliBackends provider
             model sessionId sessionIdSent useResume (Inl errMsg) commandOutcome
           = Inl (FailoverError errMsg
                    (case classify errMsg of Some r \<Rightarrow> r | None \<Rightarrow> ''unknown'')
                    provider (modelIdOf model)
                    (status (case classify errMsg of Some r \<Rightarrow> r | None \<Rightarrow> ''unknown'')))))
   \<and> (cr_code result \<noteq> Some 0 \<longrightarrow>
        runCliAgent_pi sessionId (Inr result)
          = Inr \<lparr>payloads = Some [\<lparr>payload_text =
                     orStr (trim (cr_stderr result)) (orStr (trim (cr_stdout result))
                       (''CLI exited with code '' @ string_of_code (cr_code result))),
                   isError = True\<rparr>],
                 result_aborted = cr_killed result, result_sessionId = sessionId\<rparr>)"
  by (simp add: runCliAgent_def runCliAgent_pi_def failoverError_def Let_def)

theorem nonzero_exit_failover_witness:
  "(\<exists>rb. resolveCliBackendConfig (\<lambda>x. x) ''my-cli''
            (Some [(''my-cli'', empty_backend\<lparr>command := Some ''mycli''\<rparr>)]) = Some rb
         \<and> streaming (config rb) \<noteq> Some True)
   \<and> cr_code ex_auth_failure \<noteq> Some 0
   \<and> runCliAgent (\<lambda>x. x) (\<lambda>m. if m = ''401 unauthorized'' then Some ''auth'' else None)
        (\<lambda>r. if r = ''auth'' then Some 401 else None) (\<lambda>_. False) (\<lambda>_ _. None) (\<lambda>_ _. None)
        (Some [(''my-cli'', empty_backend\<lparr>command := Some ''mycli''\<rparr>)]) ''my-cli''
        (Some ''opus'') ''s'' None False (Inl []) (Inr ex_auth_failure)
       = Inl (FailoverError ''401 unauthorized'' ''auth'' ''my-cli'' ''opus'' (Some 401))
   \<and> runCliAgent (\<lambda>x. x) (\<lambda>m. None)
        (\<lambda>r. if r = ''auth'' then Some 401 else None) (\<lambda>_. False) (\<lambda>_ _. None) (\<lambda>_ _. None)
        (Some [(''my-cli'', empty_backend\<lparr>command := Some ''mycli''\<rparr>)]) ''my-cli''
        (Some ''opus'') ''s'' None False (Inl []) (Inr ex_auth_failure)
       = Inl (FailoverError ''401 unauthorized'' ''unknown'' ''my-cli'' ''opus'' None)
   \<and> (\<exists>rb. resolveCliBackendConfig (\<lambda>x. x) ''claude-cli'' None = Some rb
         \<and> streaming (config rb) = Some True)
   \<and> runCliAgent (\<lambda>x. x) (\<lambda>m. None)
        (\<lambda>r. if r = ''auth'' then Some 401 else None) (\<lambda>_. False) (\<lambda>_ _. None) (\<lambda>_ _. None)
        None ''claude-cli'' None ''s'' None False (Inl ''boom'') (Inr ex_auth_failure)
       = Inl (FailoverError ''boom'' ''unknown'' ''claude-cli'' ''default'' None)"
proof -
  have t: "trim ''401 unauthorized'' = ''401 unauthorized''" "trim ''opus'' = ''opus''"
      "trim ''default'' = ''default''" "trim [] = []" "trim ''mycli'' = ''mycli''"
    by (simp_all add: trim_def trimEnd_def trimStart_def isWhiteSpace_def)
  let ?cfg = "Some [(''my-cli'', empty_backend\<lparr>command := Some ''mycli''\<rparr>)]"
  let ?rb1 = "\<lparr>backend_id = ''my-cli'', config = empty_backend\<lparr>command := Some ''mycli''\<rparr>\<rparr>"
  let ?rb2 = "\<lparr>backend_id = ''claude-cli'', config = DEFAULT_CLAUDE_BACKEND\<rparr>"
  let ?status = "\<lambda>r. if r = ''auth'' then Some (401::nat) else None"
  let ?classify = "\<lambda>m. if m = ''401 unauthorized'' then Some ''auth'' else None"
  have r1: "resolveCliBackendConfig (\<lambda>x. x) ''my-cli'' ?cfg = Some ?rb1"
    by (simp add: resolveCliBackendConfig_def normalizeBackendKey_def t)
  have r2: "resolveCliBackendConfig (\<lambda>x. x) ''claude-cli'' None = Some ?rb2"
    by (simp add: resolveCliBackendConfig_def normalizeBackendKey_def trim_claude
          merge_no_override DEFAULT_CLAUDE_BACKEND_def)
  have s1: "streaming (config ?rb1) \<noteq> Some True" by (simp add: empty_backend_def)
  have s2: "streaming (config ?rb2) = Some True"
    by (simp add: DEFAULT_CLAUDE_BACKEND_def empty_backend_def)
  have c: "cr_code ex_auth_failure \<noteq> Some 0" by (simp add: ex_auth_failure_def)
  have e: "orStr (trim (cr_stderr ex_auth_failure))
             (orStr (trim (cr_stdout ex_auth_failure)) ''CLI failed.'') = ''401 unauthorized''"
    by (simp add: ex_auth_failure_def t orStr_def)
  have m: "modelIdOf (Some ''opus'') = ''opus''" "modelIdOf None = ''default''"
    by (simp_all add: modelIdOf_def orStr_def t)
  have g1: "runCliAgent (\<lambda>x. x) ?classify ?status (\<lambda>_. False) (\<lambda>_ _. None) (\<lambda>_ _. None)
        ?cfg ''my-cli'' (Some ''opus'') ''s'' None False (Inl []) (Inr ex_auth_failure)
       = Inl (FailoverError ''401 unauthorized'' ''auth'' ''my-cli'' ''opus'' (Some 401))"
    using nonzero_exit_failover[where norm = "\<lambda>x. x" and provider = "''my-cli''"
            and cliBackends = ?cfg and result = ex_auth_failure and classify = ?classify
            and status = ?status and model = "Some ''opus''" and sessionId = "''s''"
            and isFailover = "\<lambda>_. False" and parseJson = "\<lambda>_ _. None"
            and parseJsonl = "\<lambda>_ _. None" and sessionIdSent = None and useResume = False
            and streamOutcome = "Inl []" and rb = ?rb1] r1 s1 c
    by (simp add: e m)
  have g2: "runCliAgent (\<lambda>x. x) (\<lambda>m. None) ?status (\<lambda>_. False) (\<lambda>_ _. None) (\<lambda>_ _. None)
        ?cfg ''my-cli'' (Some ''opus'') ''s'' None False (Inl []) (Inr ex_auth_failure)
       = Inl (FailoverError ''401 unauthorized'' ''unknown'' ''my-cli'' ''opus'' None)"
    using nonzero_exit_failover[where norm = "\<lambda>x. x" and provider = "''my-cli''"
            and cliBackends = ?cfg and result = ex_auth_failure and classify = "\<lambda>m. None"
            and status = ?status and model = "Some ''opus''" and sessionId = "''s''"
            and isFailover = "\<lambda>_. False" and parseJson = "\<lambda>_ _. None"
            and parseJsonl = "\<lambda>_ _. None" and sessionIdSent = None and useResume = False
            and streamOutcome = "Inl []" and rb = ?rb1] r1 s1 c
    by (simp add: e m)
  have g3: "runCliAgent (\<lambda>x. x) (\<lambda>m. None) ?status (\<lambda>_. False) (\<lambda>_ _. None) (\<lambda>_ _. None)
        None ''claude-cli'' None ''s'' None False (Inl ''boom'') (Inr ex_auth_failure)
       = Inl (FailoverError ''boom'' ''unknown'' ''claude-cli'' ''default'' None)"
    using nonzero_exit_failover[where norm = "\<lambda>x. x" and provider = "''claude-cli''"
            and cliBackends = None and result = ex_auth_failure and classify = "\<lambda>m. None"
            and status = ?status and model = None and sessionId = "''s''"
            and isFailover = "\<lambda>_. False" and parseJson = "\<lambda>_ _. None"
            and parseJsonl = "\<lambda>_ _. None" and sessionIdSent = None and useResume = False
            and errMsg = "''boom''" and commandOutcome = "Inr ex_auth_failure"
            and rb = ?rb2] r2 s2
    by (simp add: m)
  show ?thesis
    using r1 r2 s1 s2 c g1 g2 g3 by simp
qed

text \<open>
  The claim as stated fails for the runner of \<open>pi-cli-runner/run.ts\<close>: exit code 1 with an
  authentication failure on the error output, the command not killed, returns a result and
  raises no error.
\<close>

theorem pi_nonzero_exit_counterexample:
  "cr_code ex_auth_failure \<noteq> Some 0 \<and> \<not> cr_killed ex_auth_failure
   \<and> runCliAgent_pi ''s'' (Inr ex_auth_failure)
       = Inr \<lparr>payloads = Some [\<lparr>payload_text = ''401 unauthorized'', isError = True\<rparr>],
              result_aborted = False, result_sessionId = ''s''\<rparr>"
  by (simp add: runCliAgent_pi_def ex_auth_failure_def orStr_def trim_def trimEnd_def
        trimStart_def isWhiteSpace_def)

section \<open>What the exit of the child does with buffered text\<close>

lemma keeps_refl: "keeps st st"
  by (simp add: keeps_def)

lemma keeps_assistant_blocks:
  "collectedTexts (after (assistant_blocks bs st)) = collectedTexts st
   \<and> (\<exists>s. currentTextBuffer (after (assistant_blocks bs st)) = currentTextBuffer st @ s)"
proof (induction bs st rule: assistant_blocks.induct)
  case (1 st)
  then show ?case by simp
next
  case (2 blocks st)
  then show ?case by simp
next
  case (3 block blocks st)
  let ?st1 = "(case block_text block of
          Some t \<Rightarrow>
            if block_type block = ''text'' \<and> t \<noteq> []
            then emit (PartialReply t) (st\<lparr>currentTextBuffer := currentTextBuffer st @ t\<rparr>)
            else st
        | None \<Rightarrow> st)"
  have 1: "collectedTexts ?st1 = collectedTexts st"
    and 2: "\<exists>s. currentTextBuffer ?st1 = currentTextBuffer st @ s"
    by (auto simp: emit_def split: option.splits)
  from 3 1 2 show ?case by auto
qed

lemma keeps_processEvent: "keeps st (after (processEvent ev st))"
proof (cases ev)
  case (AssistantEvent m)
  then show ?thesis
    using keeps_assistant_blocks
    by (auto simp: keeps_def split: option.splits message.splits)
qed (auto simp: keeps_def emit_def Let_def
       split: option.splits result_value.splits error_value.splits)

lemma keeps_processLine: "keeps st (after (processLine parse l st))"
  by (simp add: processLine_def keeps_refl keeps_processEvent split: option.splits)

lemma trim_Nil: "trim [] = []"
  by (simp add: trim_def trimEnd_def trimStart_def)

lemma processLine_blank: "trim l = [] \<Longrightarrow> processLine parse l st = Inr st"
  by (simp add: processLine_def)

text \<open>
  The exit handler of the pseudo-terminal runner in terms of the last line: when
  processing it throws, the handler ends with that exception and the variables as they
  are then; when it returns, the text buffer is flushed and the run is settled.
\<close>

lemma onExit_unfold:
  "onExit parse exitCode st =
     (case processLine parse (trim (dataBuffer st)) st of
        Inl thrown \<Rightarrow> Inl thrown
      | Inr st0 \<Rightarrow>
          Inr (let st1 = (if currentTextBuffer st0 \<noteq> []
                          then st0\<lparr>collectedTexts := collectedTexts st0 @ [currentTextBuffer st0]\<rparr>
                          else st0)
               in if exitCode \<noteq> 0 \<and> \<not> aborted st1 \<and> collectedTexts st1 = []
                  then finalize
                         \<lparr>payloads = Some [\<lparr>payload_text = ''CLI exited with code ''
                                                            @ number_text exitCode,
                                             isError = True\<rparr>],
                          result_aborted = aborted st1, result_sessionId = resolvedSessionId st1\<rparr>
                         st1
                  else finalize
                         \<lparr>payloads = (if collectedTexts st1 \<noteq> []
                                       then Some (map (\<lambda>t. \<lparr>payload_text = t, isError = False\<rparr>)
                                                    (collectedTexts st1))
                                       else None),
                          result_aborted = aborted st1, result_sessionId = resolvedSessionId st1\<rparr>
                         st1))"
proof (cases "trim (dataBuffer st) = []")
  case True
  then show ?thesis
    by (simp add: onExit_def Let_def processLine_blank trim_Nil)
next
  case False
  then show ?thesis by (simp add: onExit_def Let_def split: sum.splits)
qed

lemma onExit_thrown:
  "processLine parse (trim (dataBuffer st)) st = Inl thrown \<Longrightarrow>
   onExit parse exitCode st = Inl thrown"
  by (simp add: onExit_unfold)

lemma map_payload_text:
  "map payload_text (map (\<lambda>t. \<lparr>payload_text = t, isError = False\<rparr>) ts) = ts"
  by (induction ts) simp_all

lemma onExit_payload_texts:
  assumes "settled st = None" and "processLine parse (trim (dataBuffer st)) st = Inr st0"
  shows "payload_texts (after (onExit parse exitCode st))
     = (let ts = collectedTexts st0 @ (if currentTextBuffer st0 \<noteq> [] then [currentTextBuffer st0] else [])
        in if exitCode \<noteq> 0 \<and> \<not> aborted st0 \<and> ts = []
           then [''CLI exited with code '' @ number_text exitCode] else ts)"
proof -
  have "settled st0 = None"
    using assms processLine_control[of parse "trim (dataBuffer st)" st] by simp
  then show ?thesis
    unfolding onExit_unfold assms(2)
    by (simp add: Let_def payload_texts_def finalize_def comp_def)
qed

lemma onClose_payload_texts:
  assumes "settled st = None"
  shows "payload_texts (onClose code st)
     = (let ts = collectedTexts st @ (if currentTextBuffer st \<noteq> [] then [currentTextBuffer st] else [])
        in if code \<noteq> Some 0 \<and> stderrBuffer st \<noteq> [] \<and> \<not> aborted st
           then ts @ [''CLI error (exit '' @ string_of_code code @ ''): ''
                        @ slice0 500 (trim (stderrBuffer st))]
           else ts)"
  using assms
  by (simp add: onClose_def Let_def payload_texts_def finalize_def comp_def)

text \<open>
  What the exit handlers do when the last line does not throw.  Let the run not be settled
  yet.  In the pseudo-terminal runner, if processing the trimmed data buffer as one line
  returns, the exit handler returns and settles the run; every text collected before the
  exit or from that last line is among the payloads of the result; and a pending text
  buffer ends up in the payloads, extended by the text of the last line if that adds to
  it.  In the pipe runner the close handler puts every collected text and the pending text
  buffer into the payloads.
\<close>

lemma exit_flushes_when_last_line_returns:
  assumes "settled st = None" and "returned (processLine parse (trim (dataBuffer st)) st)"
  shows "returned (onExit parse exitCode st)
    \<and> settled (after (onExit parse exitCode st)) \<noteq> None
    \<and> callbacks (after (onExit parse exitCode st))
        = callbacks (after (processLine parse (trim (dataBuffer st)) st))
    \<and> set (collectedTexts (after (processLine parse (trim (dataBuffer st)) st)))
        \<subseteq> set (payload_texts (after (onExit parse exitCode st)))
    \<and> set (collectedTexts st) \<subseteq> set (payload_texts (after (onExit parse exitCode st)))
    \<and> (currentTextBuffer st \<noteq> [] \<longrightarrow>
          (\<exists>t\<in>set (payload_texts (after (onExit parse exitCode st))). \<exists>s. t = currentTextBuffer st @ s))
    \<and> set (collectedTexts st) \<subseteq> set (payload_texts (onClose code st))
    \<and> (currentTextBuffer st \<noteq> [] \<longrightarrow>
          currentTextBuffer st \<in> set (payload_texts (onClose code st)))"
proof -
  obtain st0 where p: "processLine parse (trim (dataBuffer st)) st = Inr st0"
    using assms(2) by (cases "processLine parse (trim (dataBuffer st)) st") simp_all
  have k: "keeps st st0" using keeps_processLine[of st parse "trim (dataBuffer st)"] p by simp
  note pt = onExit_payload_texts[OF assms(1) p, of exitCode]
  have r: "returned (onExit parse exitCode st)"
    unfolding onExit_unfold p by simp
  have s: "settled (after (onExit parse exitCode st)) \<noteq> None"
    unfolding onExit_unfold p by (simp add: Let_def finalize_def split: option.splits)
  have c: "callbacks (after (onExit parse exitCode st)) = callbacks st0"
    unfolding onExit_unfold p by (simp add: Let_def finalize_def)
  have 3: "set (collectedTexts st0) \<subseteq> set (payload_texts (after (onExit parse exitCode st)))"
    unfolding pt by (auto simp: Let_def)
  have 4: "set (collectedTexts st) \<subseteq> set (payload_texts (after (onExit parse exitCode st)))"
    using 3 k by (auto simp: keeps_def)
  have 5: "\<exists>t\<in>set (payload_texts (after (onExit parse exitCode st))). \<exists>s. t = currentTextBuffer st @ s"
    if b: "currentTextBuffer st \<noteq> []"
  proof -
    from k b consider s where "currentTextBuffer st0 = currentTextBuffer st @ s"
      | "currentTextBuffer st \<in> set (collectedTexts st0)"
      by (auto simp: keeps_def)
    then show ?thesis
    proof cases
      case 1
      then have "currentTextBuffer st0 \<in> set (payload_texts (after (onExit parse exitCode st)))"
        using b unfolding pt by (auto simp: Let_def)
      with 1 show ?thesis by blast
    next
      case 2
      then have "currentTextBuffer st \<in> set (payload_texts (after (onExit parse exitCode st)))"
        using 3 by blast
      then show ?thesis by (intro bexI[of _ "currentTextBuffer st"] exI[of _ "[]"]) simp_all
    qed
  qed
  have 6: "set (collectedTexts st) \<subseteq> set (payload_texts (onClose code st))"
    unfolding onClose_payload_texts[OF assms(1)] by (auto simp: Let_def)
  have 7: "currentTextBuffer st \<in> set (payload_texts (onClose code st))"
    if "currentTextBuffer st \<noteq> []"
    using that unfolding onClose_payload_texts[OF assms(1)] by (auto simp: Let_def)
  show ?thesis using r s c 3 4 5 6 7 p by simp
qed

lemma trim_examples:
  "trim ''d1'' = ''d1''" "trim ''d2'' = ''d2''" "trim ''null'' = ''null''"
  "trim ''{\"type\":\"error\"}'' = ''{\"type\":\"error\"}''"
  by (simp_all add: trim_def trimEnd_def trimStart_def isWhiteSpace_def)

lemma drain_no_newline: "CHR 0x0A \<notin> set buf \<Longrightarrow> drain parse buf st = Inr (st\<lparr>dataBuffer := buf\<rparr>)"
  by (subst drain.simps) simp

lemma ex_pending_unfold:
  "ex_pending = (emit (PartialReply ''Hel'')
              ((init_run ''s'' 1000)\<lparr>currentTextBuffer := ''Hel''\<rparr>))\<lparr>dataBuffer := ''d2''\<rparr>"
  "ex_pending_null = (emit (PartialReply ''Hel'')
              ((init_run ''s'' 1000)\<lparr>currentTextBuffer := ''Hel''\<rparr>))\<lparr>dataBuffer := ''null''\<rparr>"
  "ex_pending_error = (emit (PartialReply ''Hel'')
              ((init_run ''s'' 1000)\<lparr>currentTextBuffer := ''Hel''\<rparr>))
                 \<lparr>dataBuffer := ''{\"type\":\"error\"}''\<rparr>"
  unfolding ex_pending_def ex_pending_null_def ex_pending_error_def onData_def
  by (subst drain.simps,
      simp add: drain_no_newline init_run_def processLine_def strip_cr_def trim_examples
        ex_parse_def ex_parse_json_def text_delta_def)+

text \<open>
  Claim C9 fails in the pseudo-terminal runner when the unterminated last line is a line
  that \<open>JSON.parse\<close> accepts without it being an event the handler can read.  The run has
  received the text \<open>Hel\<close>, which is pending in the text buffer, and the data buffer holds
  the line \<open>null\<close>.  The exit handler throws while it processes that line: the pending text
  is not flushed, the run is not settled and no payload is produced.  The same happens
  with an error event that has no \<open>error\<close> field.  With a text delta as the last line the
  handler returns and the result holds the whole text.  In the pipe runner the same two
  lines make the line handler throw, with the text pending.
\<close>

theorem onExit_throws_on_last_line:
  "settled ex_pending_null = None \<and> collectedTexts ex_pending_null = []
   \<and> currentTextBuffer ex_pending_null = ''Hel'' \<and> dataBuffer ex_pending_null = ''null''
   \<and> onExit ex_parse_json 0 ex_pending_null = Inl (TypeError, ex_pending_null)
   \<and> settled (after (onExit ex_parse_json 0 ex_pending_null)) = None
   \<and> collectedTexts (after (onExit ex_parse_json 0 ex_pending_null)) = []
   \<and> payload_texts (after (onExit ex_parse_json 0 ex_pending_null)) = []
   \<and> currentTextBuffer ex_pending_error = ''Hel''
   \<and> dataBuffer ex_pending_error = ''{\"type\":\"error\"}''
   \<and> onExit ex_parse_json 1 ex_pending_error = Inl (TypeError, ex_pending_error)
   \<and> payload_texts (after (onExit ex_parse_json 1 ex_pending_error)) = []
   \<and> currentTextBuffer ex_pending = ''Hel'' \<and> dataBuffer ex_pending = ''d2''
   \<and> returned (onExit ex_parse_json 0 ex_pending)
   \<and> payload_texts (after (onExit ex_parse_json 0 ex_pending)) = [''Hello'']
   \<and> handle_events (pipe_step ex_parse_json KillReturns) [LineIn ''d1'', LineIn ''null'']
        (init_run ''s'' 1000)
       = Inl (TypeError, emit (PartialReply ''Hel'')
                           ((init_run ''s'' 1000)\<lparr>currentTextBuffer := ''Hel''\<rparr>))"
proof -
  have n: "onExit ex_parse_json 0 ex_pending_null = Inl (TypeError, ex_pending_null)"
    unfolding ex_pending_unfold
    by (simp add: onExit_def processLine_def trim_examples ex_parse_json_def)
  have e: "onExit ex_parse_json 1 ex_pending_error = Inl (TypeError, ex_pending_error)"
    unfolding ex_pending_unfold
    by (simp add: onExit_def processLine_def trim_examples ex_parse_json_def)
  have f: "settled ex_pending_null = None" "collectedTexts ex_pending_null = []"
      "currentTextBuffer ex_pending_null = ''Hel''" "dataBuffer ex_pending_null = ''null''"
      "currentTextBuffer ex_pending_error = ''Hel''"
      "dataBuffer ex_pending_error = ''{\"type\":\"error\"}''"
      "settled ex_pending_error = None"
      "currentTextBuffer ex_pending = ''Hel''" "dataBuffer ex_pending = ''d2''"
    unfolding ex_pending_unfold by (simp_all add: emit_def init_run_def)
  have g: "onExit ex_parse_json 0 ex_pending
      = Inr (finalize \<lparr>payloads = Some [\<lparr>payload_text = ''Hello'', isError = False\<rparr>],
                       result_aborted = False, result_sessionId = ''s''\<rparr>
               ((emit (PartialReply ''lo'') (ex_pending\<lparr>currentTextBuffer := ''Hello''\<rparr>))
                  \<lparr>collectedTexts := [''Hello'']\<rparr>))"
    unfolding ex_pending_unfold
    by (simp add: onExit_def Let_def processLine_def trim_examples ex_parse_json_def ex_parse_def
          text_delta_def emit_def init_run_def)
  have h: "payload_texts (after (onExit ex_parse_json 0 ex_pending)) = [''Hello'']"
    unfolding g using f(1,7) by (simp add: payload_texts_def finalize_def emit_def ex_pending_unfold init_run_def)
  have p: "handle_events (pipe_step ex_parse_json KillReturns) [LineIn ''d1'', LineIn ''null'']
        (init_run ''s'' 1000)
       = Inl (TypeError, emit (PartialReply ''Hel'')
                           ((init_run ''s'' 1000)\<lparr>currentTextBuffer := ''Hel''\<rparr>))"
    by (simp add: onLine_def trim_examples ex_parse_json_def ex_parse_def text_delta_def
          init_run_def)
  show ?thesis
    unfolding n e using f g h p by (simp add: payload_texts_def)
qed

section \<open>Empty output and the payload list\<close>

lemma nonempty_onEvent: "texts_nonempty st \<Longrightarrow> texts_nonempty (after (onEvent ev st))"
  by (cases ev)
     (auto simp: texts_nonempty_def emit_def Let_def
        split: option.splits message.splits result_value.splits error_value.splits)

lemma nonempty_processEvent: "texts_nonempty st \<Longrightarrow> texts_nonempty (after (processEvent ev st))"
  by (cases ev)
     (auto simp: texts_nonempty_def emit_def Let_def keeps_assistant_blocks
        split: option.splits message.splits result_value.splits error_value.splits)

lemma running_processLine: "running st \<Longrightarrow> running (after (processLine parse l st))"
  by (auto simp: running_def processLine_def nonempty_processEvent processEvent_control
        split: option.splits)

lemma running_dataBuffer: "running st \<Longrightarrow> running (st\<lparr>dataBuffer := buf\<rparr>)"
  by (simp add: running_def texts_nonempty_def)

lemma running_drain: "running st \<Longrightarrow> running (after (drain parse buf st))"
proof (induction parse buf st rule: drain.induct)
  case (1 parse buf st)
  let ?l = "strip_cr (takeWhile (\<lambda>c. c \<noteq> CHR 0x0A) buf)"
  show ?case
  proof (cases "CHR 0x0A \<in> set buf")
    case True
    have r: "running (after (processLine parse ?l st))" using 1(2) by (rule running_processLine)
    show ?thesis
    proof (cases "processLine parse ?l st")
      case (Inl thrown)
      then show ?thesis
        using True r by (subst drain.simps) (auto simp: running_dataBuffer split: prod.splits)
    next
      case (Inr st')
      then show ?thesis
        using True r 1(1)[OF True Inr] by (subst drain.simps) simp
    qed
  next
    case False
    then show ?thesis
      using 1(2) by (subst drain.simps) (simp add: running_dataBuffer)
  qed
qed

lemma running_abort: "running st \<Longrightarrow> running (after (handle_abort kill st))"
  by (cases kill) (simp_all add: running_def texts_nonempty_def handle_abort_def)

lemma running_timeout: "running st \<Longrightarrow> running (after (onTimeout kill st))"
  by (simp add: onTimeout_def running_abort)

lemma running_pipe_onLine: "running_pipe st \<Longrightarrow> running_pipe (after (onLine parse l st))"
  by (auto simp: running_pipe_def onLine_def nonempty_onEvent onEvent_control split: option.splits)

lemma running_pipe_abort: "running_pipe st \<Longrightarrow> running_pipe (after (handle_abort kill st))"
  by (cases kill) (simp_all add: running_pipe_def texts_nonempty_def handle_abort_def)

lemma running_pipe_step:
  "running_pipe st \<Longrightarrow> running_pipe (after (pipe_step parse kill x st))"
proof (cases x)
  case (ErrorIn m)
  assume "running_pipe st"
  then show ?thesis
    unfolding ErrorIn
    by (auto simp: running_pipe_def texts_nonempty_def onSpawnError_def finalize_def
          spawn_error_result_def split: option.splits)
qed (simp_all add: running_pipe_onLine running_pipe_abort onTimeout_def,
     simp_all add: running_pipe_def texts_nonempty_def onStderr_def)

lemma running_pty_step: "running st \<Longrightarrow> running (after (pty_step parse kill x st))"
  by (cases x) (simp_all add: onData_def running_drain running_abort running_timeout)

lemma running_init: "running (init_run sessionId timeoutMs)"
  by (simp add: running_def texts_nonempty_def init_run_def)

lemma running_pipe_init: "running_pipe (init_run sessionId timeoutMs)"
  by (simp add: running_pipe_def texts_nonempty_def init_run_def)

lemma step_returns_when_kill_returns:
  assumes "parse_ok parse"
  shows "returned (pipe_step parse KillReturns x st)" and "returned (pty_step parse KillReturns x st)"
  using assms
  by (cases x; simp add: onLine_returns onData_def drain_returns onTimeout_def handle_abort_def)+

lemma onClose_settled: "settled st = Some res \<Longrightarrow> settled (onClose code st) = Some res"
  by (simp add: onClose_def finalize_def Let_def)

lemma onClose_nonempty:
  assumes "running_pipe st"
  shows "settled_payloads (onClose code st) \<noteq> Some []
       \<and> [] \<notin> set (payload_texts (onClose code st))
       \<and> (settled_payloads (onClose code st) = None
            \<longleftrightarrow> settled st = None \<and> collectedTexts st = [] \<and> currentTextBuffer st = []
                \<and> \<not> (code \<noteq> Some 0 \<and> stderrBuffer st \<noteq> [] \<and> \<not> aborted st))"
proof (cases "settled st")
  case None
  have s: "settled st = None" by (rule None)
  have n: "[] \<notin> set (collectedTexts st)"
    using assms by (simp add: running_pipe_def texts_nonempty_def)
  have 1: "[] \<notin> set (payload_texts (onClose code st))"
    unfolding onClose_payload_texts[OF s] using n by (auto simp: Let_def)
  have 2: "settled_payloads (onClose code st) \<noteq> Some []"
    using s by (auto simp: settled_payloads_def onClose_def finalize_def Let_def)
  have 3: "settled_payloads (onClose code st) = None
            \<longleftrightarrow> collectedTexts st = [] \<and> currentTextBuffer st = []
                \<and> \<not> (code \<noteq> Some 0 \<and> stderrBuffer st \<noteq> [] \<and> \<not> aborted st)"
    using s by (auto simp: settled_payloads_def onClose_def finalize_def Let_def)
  show ?thesis using 1 2 3 s by simp
next
  case (Some res)
  then obtain m where
    m: "payloads res = Some [\<lparr>payload_text = ''Failed to spawn CLI: '' @ m, isError = True\<rparr>]"
    using assms by (auto simp: running_pipe_def spawn_error_result_def)
  show ?thesis
    using Some m by (simp add: onClose_settled settled_payloads_def payload_texts_def)
qed

lemma onExit_nonempty:
  assumes "running st" and "returned (onExit parse exitCode st)"
  shows "settled_payloads (after (onExit parse exitCode st)) \<noteq> Some []
       \<and> [] \<notin> set (payload_texts (after (onExit parse exitCode st)))
       \<and> (settled_payloads (after (onExit parse exitCode st)) = None
            \<longleftrightarrow> collectedTexts (after (onExit parse exitCode st)) = []
                \<and> (exitCode = 0 \<or> aborted (after (onExit parse exitCode st))))"
proof -
  obtain st0 where p: "processLine parse (trim (dataBuffer st)) st = Inr st0"
    using assms(2) unfolding onExit_unfold
    by (cases "processLine parse (trim (dataBuffer st)) st") simp_all
  have r: "running st0"
    using running_processLine[OF assms(1), of parse "trim (dataBuffer st)"] p by simp
  then have s0: "settled st0 = None" and n0: "[] \<notin> set (collectedTexts st0)"
    by (simp_all add: running_def texts_nonempty_def)
  have s: "settled st = None" using assms(1) by (simp add: running_def)
  have 1: "[] \<notin> set (payload_texts (after (onExit parse exitCode st)))"
    unfolding onExit_payload_texts[OF s p] using n0 by (auto simp: Let_def)
  have 2: "settled_payloads (after (onExit parse exitCode st)) \<noteq> Some []"
    unfolding onExit_unfold p using s0
    by (auto simp: settled_payloads_def finalize_def Let_def)
  have 3: "settled_payloads (after (onExit parse exitCode st)) = None
            \<longleftrightarrow> collectedTexts (after (onExit parse exitCode st)) = []
                \<and> (exitCode = 0 \<or> aborted (after (onExit parse exitCode st)))"
    unfolding onExit_unfold p using s0
    by (auto simp: settled_payloads_def finalize_def Let_def)
  show ?thesis using 1 2 3 by blast
qed

lemma orStr_nonempty: "b \<noteq> [] \<Longrightarrow> orStr a b \<noteq> []"
  by (simp add: orStr_def)

lemma payloadsOfText_cases:
  "payloadsOfText x = None
   \<or> (\<exists>t. payloadsOfText x = Some [\<lparr>payload_text = t, isError = False\<rparr>] \<and> t \<noteq> [] \<and> trim t = t)"
  by (cases x) (auto simp: payloadsOfText_def trim_idem)

text \<open>What \<open>runCliAgent\<close> of \<open>cli-runner.ts\<close> returns, when it returns: the payloads of the output text.\<close>

lemma runCliAgent_result:
  assumes "runCliAgent norm classify status isFailover parseJson parseJsonl cliBackends provider
             model sessionId sessionIdSent useResume streamOutcome commandOutcome = Inr res"
  shows "\<exists>rb out. resolveCliBackendConfig norm provider cliBackends = Some rb
           \<and> cli_payloads res = payloadsOfText (out_text out)
           \<and> (if streaming (config rb) = Some True then streamOutcome = Inr out
               else (\<exists>result. commandOutcome = Inr result \<and> cr_code result = Some 0
                      \<and> (out = \<lparr>out_text = Some (trim (cr_stdout result)), out_sessionId = None\<rparr>
                          \<or> parseJsonl (trim (cr_stdout result)) (config rb) = Some out
                          \<or> parseJson (trim (cr_stdout result)) (config rb) = Some out)))"
proof -
  obtain rb where rb: "resolveCliBackendConfig norm provider cliBackends = Some rb"
    using assms by (cases "resolveCliBackendConfig norm provider cliBackends")
      (simp_all add: runCliAgent_def)
  show ?thesis
  proof (cases "streaming (config rb) = Some True")
    case True
    then obtain out where o: "streamOutcome = Inr out"
      using assms rb by (cases streamOutcome) (simp_all add: runCliAgent_def Let_def failoverError_def)
    then have "cli_payloads res = payloadsOfText (out_text out)"
      using assms rb True by (auto simp add: runCliAgent_def Let_def)
    then show ?thesis using rb True o by auto
  next
    case False
    then obtain result where c: "commandOutcome = Inr result"
      using assms rb
      by (cases commandOutcome) (auto simp add: runCliAgent_def Let_def failoverError_def split: if_splits)
    have z: "cr_code result = Some 0"
      using assms rb False c
      by (auto simp add: runCliAgent_def Let_def failoverError_def split: if_splits)
    let ?raw = "\<lparr>out_text = Some (trim (cr_stdout result)), out_sessionId = None\<rparr>"
    have "cli_payloads res = payloadsOfText (out_text ?raw)
        \<or> (\<exists>out. parseJsonl (trim (cr_stdout result)) (config rb) = Some out
                 \<and> cli_payloads res = payloadsOfText (out_text out))
        \<or> (\<exists>out. parseJson (trim (cr_stdout result)) (config rb) = Some out
                 \<and> cli_payloads res = payloadsOfText (out_text out))"
      using assms rb False c z
      by (auto simp add: runCliAgent_def Let_def split: if_splits option.splits)
    then consider (raw) "cli_payloads res = payloadsOfText (out_text ?raw)"
      | (jsonl) out where "parseJsonl (trim (cr_stdout result)) (config rb) = Some out"
          "cli_payloads res = payloadsOfText (out_text out)"
      | (json) out where "parseJson (trim (cr_stdout result)) (config rb) = Some out"
          "cli_payloads res = payloadsOfText (out_text out)"
      by blast
    then show ?thesis
    proof cases
      case raw
      then show ?thesis using rb False c z by (intro exI[of _ rb] exI[of _ ?raw]) simp
    next
      case jsonl
      then show ?thesis using rb False c z by (intro exI[of _ rb] exI[of _ out]) simp
    next
      case json
      then show ?thesis using rb False c z by (intro exI[of _ rb] exI[of _ out]) simp
    qed
  qed
qed

text \<open>
  Claim C10, as amended.

  In \<open>cli-runner.ts\<close>, every result that \<open>runCliAgent\<close> returns has the payloads of the output
  text: no payload list when that text is absent or trims to the empty string, and one
  payload with the trimmed text otherwise.  The output is what the streaming call resolved
  with, or, for a command that exited with code 0, its trimmed output or what a parser made
  of it.  A streaming call that resolves with a text of white space only, and a command
  that exits with code 0 and prints white space only, give a result without payloads.

  In \<open>pi-cli-runner/run.ts\<close>, a run that exits with code 0 and whose output trims to the
  empty string has no payload list; a run that exits with another code returns exactly one
  error payload, whose text is not empty; no run returns an empty list or an empty text.

  The streaming runners do not trim.  Whatever reaches a run started by \<open>init_run\<close>, the
  result that the close handler of the pipe runner produces, and the one that the exit
  handler of the pseudo-terminal runner produces when it returns, has no empty payload list
  and no payload with the empty text.  In the pipe runner the list is absent exactly when
  no \<open>error\<close> event of the child has settled the run, nothing was collected, no text is
  pending and no error output is reported; in the pseudo-terminal runner it is absent
  exactly when nothing was collected and the exit code is 0 or the run was aborted.  The
  result returned when \<open>node-pty\<close> cannot be loaded holds one error payload, whose text is
  not empty.  A text of white space only is kept as a payload.  When the child prints
  well-formed events only and \<open>kill\<close> returns, no handler throws.
\<close>

theorem empty_output_no_payload:
  "(\<forall>res. runCliAgent norm classify status isFailover parseJson parseJsonl cliBackends provider
             model sessionId sessionIdSent useResume streamOutcome commandOutcome = Inr res \<longrightarrow>
       (cli_payloads res = None
        \<or> (\<exists>t. cli_payloads res = Some [\<lparr>payload_text = t, isError = False\<rparr>]
                \<and> t \<noteq> [] \<and> trim t = t))
     \<and> (\<exists>rb out. resolveCliBackendConfig norm provider cliBackends = Some rb
           \<and> cli_payloads res = payloadsOfText (out_text out)
           \<and> (if streaming (config rb) = Some True then streamOutcome = Inr out
               else (\<exists>result. commandOutcome = Inr result \<and> cr_code result = Some 0
                      \<and> (out = \<lparr>out_text = Some (trim (cr_stdout result)), out_sessionId = None\<rparr>
                          \<or> parseJsonl (trim (cr_stdout result)) (config rb) = Some out
                          \<or> parseJson (trim (cr_stdout result)) (config rb) = Some out)))))
   \<and> payloadsOfText None = None
   \<and> (trim tx = [] \<longrightarrow> payloadsOfText (Some tx) = None)
   \<and> (trim tx \<noteq> [] \<longrightarrow>
        payloadsOfText (Some tx) = Some [\<lparr>payload_text = trim tx, isError = False\<rparr>])
   \<and> (resolveCliBackendConfig norm provider cliBackends = Some rb
        \<and> streaming (config rb) = Some True
        \<and> (\<exists>t. out_text out = Some t \<and> trim t = []) \<longrightarrow>
        (\<exists>res. runCliAgent norm classify status isFailover parseJson parseJsonl cliBackends
                  provider model sessionId sessionIdSent useResume (Inr out) commandOutcome
                  = Inr res
              \<and> cli_payloads res = None))
   \<and> (resolveCliBackendConfig norm provider cliBackends = Some rb
        \<and> streaming (config rb) \<noteq> Some True
        \<and> cr_code result = Some 0 \<and> trim (cr_stdout result) = []
        \<and> parseJsonl [] (config rb) = None \<and> parseJson [] (config rb) = None \<longrightarrow>
        (\<exists>res. runCliAgent norm classify status isFailover parseJson parseJsonl cliBackends
                  provider model sessionId sessionIdSent useResume streamOutcome (Inr result)
                  = Inr res
              \<and> cli_payloads res = None))
   \<and> (cr_code result = Some 0 \<and> trim (cr_stdout result) = [] \<longrightarrow>
        runCliAgent_pi sessionId (Inr result)
          = Inr \<lparr>payloads = None, result_aborted = False, result_sessionId = sessionId\<rparr>)
   \<and> (cr_code result \<noteq> Some 0 \<longrightarrow>
        (\<exists>t. t \<noteq> []
           \<and> runCliAgent_pi sessionId (Inr result)
               = Inr \<lparr>payloads = Some [\<lparr>payload_text = t, isError = True\<rparr>],
                      result_aborted = cr_killed result, result_sessionId = sessionId\<rparr>))
   \<and> (\<forall>res. runCliAgent_pi sessionId piOutcome = Inr res \<longrightarrow>
          payloads res \<noteq> Some []
        \<and> (\<forall>ps. payloads res = Some ps \<longrightarrow> [] \<notin> payload_text ` set ps))
   \<and> settled_payloads (onClose code (after_events (pipe_step parse kill) ins
                          (init_run sessionId timeoutMs))) \<noteq> Some []
   \<and> [] \<notin> set (payload_texts (onClose code (after_events (pipe_step parse kill) ins
                                   (init_run sessionId timeoutMs))))
   \<and> (settled_payloads (onClose code (after_events (pipe_step parse kill) ins
                           (init_run sessionId timeoutMs))) = None
        \<longleftrightarrow> settled (after_events (pipe_step parse kill) ins (init_run sessionId timeoutMs)) = None
            \<and> collectedTexts (after_events (pipe_step parse kill) ins (init_run sessionId timeoutMs)) = []
            \<and> currentTextBuffer (after_events (pipe_step parse kill) ins (init_run sessionId timeoutMs)) = []
            \<and> \<not> (code \<noteq> Some 0
                  \<and> stderrBuffer (after_events (pipe_step parse kill) ins (init_run sessionId timeoutMs)) \<noteq> []
                  \<and> \<not> aborted (after_events (pipe_step parse kill) ins (init_run sessionId timeoutMs))))
   \<and> (returned (onExit parse exitCode (after_events (pty_step parse kill) ins
                   (init_run sessionId timeoutMs))) \<longrightarrow>
        settled_payloads (after (onExit parse exitCode (after_events (pty_step parse kill) ins
                            (init_run sessionId timeoutMs)))) \<noteq> Some []
      \<and> [] \<notin> set (payload_texts (after (onExit parse exitCode (after_events (pty_step parse kill) ins
                                        (init_run sessionId timeoutMs)))))
      \<and> (settled_payloads (after (onExit parse exitCode (after_events (pty_step parse kill) ins
                              (init_run sessionId timeoutMs)))) = None
           \<longleftrightarrow> collectedTexts (after (onExit parse exitCode (after_events (pty_step parse kill) ins
                                 (init_run sessionId timeoutMs)))) = []
               \<and> (exitCode = 0
                  \<or> aborted (after (onExit parse exitCode (after_events (pty_step parse kill) ins
                                 (init_run sessionId timeoutMs)))))))
   \<and> (\<exists>t. t \<noteq> []
          \<and> payloads (ptyLoadFailed err sessionId) = Some [\<lparr>payload_text = t, isError = True\<rparr>])
   \<and> (parse_ok parse \<longrightarrow>
        handle_events (pipe_step parse KillReturns) ins (init_run sessionId timeoutMs)
          = Inr (after_events (pipe_step parse KillReturns) ins (init_run sessionId timeoutMs))
      \<and> handle_events (pty_step parse KillReturns) ins (init_run sessionId timeoutMs)
          = Inr (after_events (pty_step parse KillReturns) ins (init_run sessionId timeoutMs))
      \<and> returned (onExit parse exitCode (after_events (pty_step parse kill) ins
                     (init_run sessionId timeoutMs))))"
proof -
  let ?pipe = "after_events (pipe_step parse kill) ins (init_run sessionId timeoutMs)"
  let ?pty = "after_events (pty_step parse kill) ins (init_run sessionId timeoutMs)"
  have pipe: "running_pipe ?pipe"
    using after_events_inv[of running_pipe "pipe_step parse kill",
            OF running_pipe_step running_pipe_init] .
  have pty: "running ?pty"
    using after_events_inv[of running "pty_step parse kill", OF running_pty_step running_init] .
  have cli: "\<forall>res. runCliAgent norm classify status isFailover parseJson parseJsonl cliBackends provider
             model sessionId sessionIdSent useResume streamOutcome commandOutcome = Inr res \<longrightarrow>
       (cli_payloads res = None
        \<or> (\<exists>t. cli_payloads res = Some [\<lparr>payload_text = t, isError = False\<rparr>]
                \<and> t \<noteq> [] \<and> trim t = t))
     \<and> (\<exists>rb out. resolveCliBackendConfig norm provider cliBackends = Some rb
           \<and> cli_payloads res = payloadsOfText (out_text out)
           \<and> (if streaming (config rb) = Some True then streamOutcome = Inr out
               else (\<exists>result. commandOutcome = Inr result \<and> cr_code result = Some 0
                      \<and> (out = \<lparr>out_text = Some (trim (cr_stdout result)), out_sessionId = None\<rparr>
                          \<or> parseJsonl (trim (cr_stdout result)) (config rb) = Some out
                          \<or> parseJson (trim (cr_stdout result)) (config rb) = Some out))))"
  proof (intro allI impI conjI)
    fix res
    assume a: "runCliAgent norm classify status isFailover parseJson parseJsonl cliBackends provider
             model sessionId sessionIdSent useResume streamOutcome commandOutcome = Inr res"
    from runCliAgent_result[OF a]
    show "\<exists>rb out. resolveCliBackendConfig norm provider cliBackends = Some rb
           \<and> cli_payloads res = payloadsOfText (out_text out)
           \<and> (if streaming (config rb) = Some True then streamOutcome = Inr out
               else (\<exists>result. commandOutcome = Inr result \<and> cr_code result = Some 0
                      \<and> (out = \<lparr>out_text = Some (trim (cr_stdout result)), out_sessionId = None\<rparr>
                          \<or> parseJsonl (trim (cr_stdout result)) (config rb) = Some out
                          \<or> parseJson (trim (cr_stdout result)) (config rb) = Some out)))" .
    then have "\<exists>x. cli_payloads res = payloadsOfText x"
      by (elim exE conjE) (rule exI, assumption)
    then obtain x where "cli_payloads res = payloadsOfText x" ..
    then show "cli_payloads res = None
        \<or> (\<exists>t. cli_payloads res = Some [\<lparr>payload_text = t, isError = False\<rparr>]
                \<and> t \<noteq> [] \<and> trim t = t)"
      using payloadsOfText_cases[of x] by simp
  qed
  have a: "payloadsOfText None = None"
      "trim tx = [] \<longrightarrow> payloadsOfText (Some tx) = None"
      "trim tx \<noteq> [] \<longrightarrow>
         payloadsOfText (Some tx) = Some [\<lparr>payload_text = trim tx, isError = False\<rparr>]"
    by (simp_all add: payloadsOfText_def)
  have s: "resolveCliBackendConfig norm provider cliBackends = Some rb
        \<and> streaming (config rb) = Some True
        \<and> (\<exists>t. out_text out = Some t \<and> trim t = []) \<longrightarrow>
        (\<exists>res. runCliAgent norm classify status isFailover parseJson parseJsonl cliBackends
                  provider model sessionId sessionIdSent useResume (Inr out) commandOutcome
                  = Inr res
              \<and> cli_payloads res = None)"
    by (auto simp add: runCliAgent_def Let_def payloadsOfText_def)
  have n: "resolveCliBackendConfig norm provider cliBackends = Some rb
        \<and> streaming (config rb) \<noteq> Some True
        \<and> cr_code result = Some 0 \<and> trim (cr_stdout result) = []
        \<and> parseJsonl [] (config rb) = None \<and> parseJson [] (config rb) = None \<longrightarrow>
        (\<exists>res. runCliAgent norm classify status isFailover parseJson parseJsonl cliBackends
                  provider model sessionId sessionIdSent useResume streamOutcome (Inr result)
                  = Inr res
              \<and> cli_payloads res = None)"
    by (auto simp add: runCliAgent_def Let_def payloadsOfText_def trim_Nil)
  have b: "cr_code result = Some 0 \<and> trim (cr_stdout result) = [] \<longrightarrow>
        runCliAgent_pi sessionId (Inr result)
          = Inr \<lparr>payloads = None, result_aborted = False, result_sessionId = sessionId\<rparr>"
    by (simp add: runCliAgent_pi_def Let_def)
  have e: "cr_code result \<noteq> Some 0 \<longrightarrow>
        (\<exists>t. t \<noteq> []
           \<and> runCliAgent_pi sessionId (Inr result)
               = Inr \<lparr>payloads = Some [\<lparr>payload_text = t, isError = True\<rparr>],
                      result_aborted = cr_killed result, result_sessionId = sessionId\<rparr>)"
    by (simp add: runCliAgent_pi_def Let_def orStr_def)
  have pi: "\<forall>res. runCliAgent_pi sessionId piOutcome = Inr res \<longrightarrow>
          payloads res \<noteq> Some []
        \<and> (\<forall>ps. payloads res = Some ps \<longrightarrow> [] \<notin> payload_text ` set ps)"
    by (auto simp add: runCliAgent_pi_def Let_def orStr_def split: sum.splits if_splits)
  have x: "returned (onExit parse exitCode ?pty) \<longrightarrow>
        settled_payloads (after (onExit parse exitCode ?pty)) \<noteq> Some []
      \<and> [] \<notin> set (payload_texts (after (onExit parse exitCode ?pty)))
      \<and> (settled_payloads (after (onExit parse exitCode ?pty)) = None
           \<longleftrightarrow> collectedTexts (after (onExit parse exitCode ?pty)) = []
               \<and> (exitCode = 0 \<or> aborted (after (onExit parse exitCode ?pty))))"
    using onExit_nonempty[OF pty, of parse exitCode] by blast
  have r: "parse_ok parse \<longrightarrow>
        handle_events (pipe_step parse KillReturns) ins (init_run sessionId timeoutMs)
          = Inr (after_events (pipe_step parse KillReturns) ins (init_run sessionId timeoutMs))
      \<and> handle_events (pty_step parse KillReturns) ins (init_run sessionId timeoutMs)
          = Inr (after_events (pty_step parse KillReturns) ins (init_run sessionId timeoutMs))
      \<and> returned (onExit parse exitCode ?pty)"
    using handle_events_returns[of ins "pipe_step parse KillReturns"]
      handle_events_returns[of ins "pty_step parse KillReturns"]
      step_returns_when_kill_returns onExit_returns
    by blast
  note c = onClose_nonempty[OF pipe, of code]
  have l: "\<exists>t. t \<noteq> []
          \<and> payloads (ptyLoadFailed err sessionId) = Some [\<lparr>payload_text = t, isError = True\<rparr>]"
    by (simp add: ptyLoadFailed_def)
  show ?thesis
    apply (intro conjI)
    subgoal by (rule cli)
    subgoal by (rule a)
    subgoal by (rule a)
    subgoal by (rule a)
    subgoal by (rule s)
    subgoal by (rule n)
    subgoal by (rule b)
    subgoal by (rule e)
    subgoal by (rule pi)
    subgoal by (rule c[THEN conjunct1])
    subgoal by (rule c[THEN conjunct2, THEN conjunct1])
    subgoal by (rule c[THEN conjunct2, THEN conjunct2])
    subgoal by (rule x)
    subgoal by (rule l)
    subgoal by (rule r)
    done
qed

theorem empty_output_no_payload_witness:
  "trim ''  '' = [] \<and> payloadsOfText (Some ''  '') = None
   \<and> trim '' ok '' \<noteq> [] \<and> payloadsOfText (Some '' ok '') = Some [\<lparr>payload_text = ''ok'', isError = False\<rparr>]
   \<and> (\<exists>rb. resolveCliBackendConfig (\<lambda>x. x) ''claude-cli'' None = Some rb
          \<and> streaming (config rb) = Some True)
   \<and> (\<exists>res. runCliAgent (\<lambda>x. x) (\<lambda>m. None) (\<lambda>r. None) (\<lambda>m. False) (\<lambda>s b. None) (\<lambda>s b. None)
               None ''claude-cli'' None ''s'' None False
               (Inr \<lparr>out_text = Some ''  '', out_sessionId = None\<rparr>) (Inl [])
             = Inr res
           \<and> cli_payloads res = None)
   \<and> (\<exists>rb. resolveCliBackendConfig (\<lambda>x. x) ''my-cli''
              (Some [(''my-cli'', empty_backend\<lparr>command := Some ''mycli''\<rparr>)]) = Some rb
          \<and> streaming (config rb) \<noteq> Some True)
   \<and> cr_code ex_blank_success = Some 0 \<and> trim (cr_stdout ex_blank_success) = []
   \<and> (\<exists>res. runCliAgent (\<lambda>x. x) (\<lambda>m. None) (\<lambda>r. None) (\<lambda>m. False) (\<lambda>s b. None) (\<lambda>s b. None)
               (Some [(''my-cli'', empty_backend\<lparr>command := Some ''mycli''\<rparr>)]) ''my-cli'' None
               ''s'' None False (Inl []) (Inr ex_blank_success)
             = Inr res
           \<and> cli_payloads res = None)
   \<and> runCliAgent_pi ''s'' (Inr ex_blank_success)
       = Inr \<lparr>payloads = None, result_aborted = False, result_sessionId = ''s''\<rparr>
   \<and> cr_code ex_auth_failure \<noteq> Some 0
   \<and> runCliAgent_pi ''s'' (Inr ex_auth_failure)
       = Inr \<lparr>payloads = Some [\<lparr>payload_text = ''401 unauthorized'', isError = True\<rparr>],
              result_aborted = False, result_sessionId = ''s''\<rparr>
   \<and> settled_payloads (onClose (Some 0) (after_events (pipe_step ex_parse KillReturns) []
                          (init_run ''s'' 1000))) = None
   \<and> returned (onExit ex_parse 3 (after_events (pty_step ex_parse KillReturns) []
                  (init_run ''s'' 1000)))
   \<and> settled_payloads (after (onExit ex_parse 3 (after_events (pty_step ex_parse KillReturns) []
                          (init_run ''s'' 1000)))) \<noteq> None
   \<and> settled_payloads (after (onExit ex_parse 0 (after_events (pty_step ex_parse KillReturns) []
                          (init_run ''s'' 1000)))) = None
   \<and> settled_payloads (onClose (Some 1) (after_events (pipe_step ex_parse KillReturns)
                          [ErrorIn ''spawn claude ENOENT''] (init_run ''s'' 1000)))
       = Some [\<lparr>payload_text = ''Failed to spawn CLI: spawn claude ENOENT'', isError = True\<rparr>]
   \<and> parse_ok ex_parse
   \<and> returned (handle_events (pipe_step ex_parse KillReturns) [LineIn ''ws'', LineIn ''stop'']
                 (init_run ''s'' 1000))
   \<and> (\<exists>res. runCliAgent (\<lambda>x. x) (\<lambda>m. None) (\<lambda>r. None) (\<lambda>m. False) (\<lambda>s b. None) (\<lambda>s b. None)
               None ''claude-cli'' None ''s'' None False
               (Inr \<lparr>out_text = Some '' ok '', out_sessionId = None\<rparr>) (Inl [])
             = Inr res
           \<and> (\<exists>t. cli_payloads res = Some [\<lparr>payload_text = t, isError = False\<rparr>]
                  \<and> t \<noteq> [] \<and> trim t = t))"
proof -
  have t: "trim ''  '' = []" "trim '' ok '' = ''ok''" "trim ''mycli'' = ''mycli''"
      "trim ''401 unauthorized'' = ''401 unauthorized''" "trim [] = []"
    by (simp_all add: trim_def trimEnd_def trimStart_def isWhiteSpace_def)
  let ?cfg = "Some [(''my-cli'', empty_backend\<lparr>command := Some ''mycli''\<rparr>)]"
  let ?rb1 = "\<lparr>backend_id = ''my-cli'', config = empty_backend\<lparr>command := Some ''mycli''\<rparr>\<rparr>"
  let ?rb2 = "\<lparr>backend_id = ''claude-cli'', config = DEFAULT_CLAUDE_BACKEND\<rparr>"
  let ?blank = "\<lparr>out_text = Some ''  '', out_sessionId = None\<rparr>"
  let ?pipe0 = "after_events (pipe_step ex_parse KillReturns) [] (init_run ''s'' 1000)"
  let ?pty0 = "after_events (pty_step ex_parse KillReturns) [] (init_run ''s'' 1000)"
  have r1: "resolveCliBackendConfig (\<lambda>x. x) ''my-cli'' ?cfg = Some ?rb1"
    by (simp add: resolveCliBackendConfig_def normalizeBackendKey_def t)
  have r2: "resolveCliBackendConfig (\<lambda>x. x) ''claude-cli'' None = Some ?rb2"
    by (simp add: resolveCliBackendConfig_def normalizeBackendKey_def trim_claude
          merge_no_override DEFAULT_CLAUDE_BACKEND_def)
  have s1: "streaming (config ?rb1) \<noteq> Some True" by (simp add: empty_backend_def)
  have s2: "streaming (config ?rb2) = Some True"
    by (simp add: DEFAULT_CLAUDE_BACKEND_def empty_backend_def)
  have c: "cr_code ex_blank_success = Some 0" "trim (cr_stdout ex_blank_success) = []"
      "cr_code ex_auth_failure \<noteq> Some 0"
    by (simp_all add: ex_blank_success_def ex_auth_failure_def t)
  have ok: "parse_ok ex_parse"
    by (auto simp: parse_ok_def ex_parse_def text_delta_def split: if_splits)
  have i: "after_events f [] st = st" for f :: "run_input \<Rightarrow> run_state \<Rightarrow> handled" and st
    by (rule after_events_Nil)
  have i0: "collectedTexts (init_run ''s'' 1000) = []" "currentTextBuffer (init_run ''s'' 1000) = []"
      "stderrBuffer (init_run ''s'' 1000) = []" "dataBuffer (init_run ''s'' 1000) = []"
      "\<not> aborted (init_run ''s'' 1000)" "settled (init_run ''s'' 1000) = None"
    by (simp_all add: init_run_def)
  note stream = empty_output_no_payload[where norm = "\<lambda>x. x" and provider = "''claude-cli''"
      and cliBackends = None and rb = ?rb2 and out = ?blank and classify = "\<lambda>m. None"
      and status = "\<lambda>r. None" and isFailover = "\<lambda>m. False" and parseJson = "\<lambda>s b. None"
      and parseJsonl = "\<lambda>s b. None" and model = None and sessionId = "''s''"
      and sessionIdSent = None and useResume = False and commandOutcome = "Inl []"
      and tx = "''  ''" and result = ex_blank_success and code = "Some 0" and parse = ex_parse
      and kill = KillReturns and ins = "[]" and timeoutMs = 1000 and exitCode = 3]
  note plain = empty_output_no_payload[where norm = "\<lambda>x. x" and provider = "''my-cli''"
      and cliBackends = ?cfg and rb = ?rb1 and classify = "\<lambda>m. None"
      and status = "\<lambda>r. None" and isFailover = "\<lambda>m. False" and parseJson = "\<lambda>s b. None"
      and parseJsonl = "\<lambda>s b. None" and model = None and sessionId = "''s''"
      and sessionIdSent = None and useResume = False and streamOutcome = "Inl []"
      and tx = "'' ok ''" and result = ex_auth_failure and parse = ex_parse
      and kill = KillReturns and ins = "[LineIn ''ws'', LineIn ''stop'']" and timeoutMs = 1000
      and exitCode = 0]
  note plain0 = empty_output_no_payload[where norm = "\<lambda>x. x" and provider = "''my-cli''"
      and cliBackends = ?cfg and rb = ?rb1 and classify = "\<lambda>m. None"
      and status = "\<lambda>r. None" and isFailover = "\<lambda>m. False" and parseJson = "\<lambda>s b. None"
      and parseJsonl = "\<lambda>s b. None" and model = None and sessionId = "''s''"
      and sessionIdSent = None and useResume = False and streamOutcome = "Inl []"
      and result = ex_blank_success and parse = ex_parse
      and kill = KillReturns and ins = "[]" and timeoutMs = 1000 and exitCode = 0]
  have w1: "payloadsOfText (Some ''  '') = None"
    using stream t by simp
  have w2: "payloadsOfText (Some '' ok '') = Some [\<lparr>payload_text = ''ok'', isError = False\<rparr>]"
    using plain t by simp
  have w3: "\<exists>res. runCliAgent (\<lambda>x. x) (\<lambda>m. None) (\<lambda>r. None) (\<lambda>m. False) (\<lambda>s b. None) (\<lambda>s b. None)
               None ''claude-cli'' None ''s'' None False (Inr ?blank) (Inl []) = Inr res
           \<and> cli_payloads res = None"
    using stream r2 s2 t by simp
  have w4: "\<exists>res. runCliAgent (\<lambda>x. x) (\<lambda>m. None) (\<lambda>r. None) (\<lambda>m. False) (\<lambda>s b. None) (\<lambda>s b. None)
               ?cfg ''my-cli'' None ''s'' None False (Inl []) (Inr ex_blank_success) = Inr res
           \<and> cli_payloads res = None"
    using plain0 r1 s1 c by simp
  have w5: "runCliAgent_pi ''s'' (Inr ex_blank_success)
       = Inr \<lparr>payloads = None, result_aborted = False, result_sessionId = ''s''\<rparr>"
    using plain0 c by simp
  have w6: "runCliAgent_pi ''s'' (Inr ex_auth_failure)
       = Inr \<lparr>payloads = Some [\<lparr>payload_text = ''401 unauthorized'', isError = True\<rparr>],
              result_aborted = False, result_sessionId = ''s''\<rparr>"
    by (simp add: runCliAgent_pi_def ex_auth_failure_def t orStr_def Let_def)
  have w7: "settled_payloads (onClose (Some 0) ?pipe0) = None"
    using stream i0 by (simp add: i)
  have w8: "returned (onExit ex_parse 3 ?pty0)"
    using stream ok by blast
  have w9: "settled_payloads (after (onExit ex_parse 3 ?pty0)) \<noteq> None"
  proof -
    have "\<not> aborted (after (onExit ex_parse 3 ?pty0))"
      by (simp add: i onExit_def i0 t init_run_def finalize_def Let_def)
    then show ?thesis using stream w8 by simp
  qed
  have w10: "settled_payloads (after (onExit ex_parse 0 ?pty0)) = None"
  proof -
    have "collectedTexts (after (onExit ex_parse 0 ?pty0)) = []"
      by (simp add: i onExit_def i0 t init_run_def finalize_def Let_def)
    moreover have "returned (onExit ex_parse 0 ?pty0)" using plain0 ok by blast
    ultimately show ?thesis using plain0 by simp
  qed
  have w13: "settled_payloads (onClose (Some 1) (after_events (pipe_step ex_parse KillReturns)
                          [ErrorIn ''spawn claude ENOENT''] (init_run ''s'' 1000)))
       = Some [\<lparr>payload_text = ''Failed to spawn CLI: spawn claude ENOENT'', isError = True\<rparr>]"
    by (simp add: after_events_def onSpawnError_def onClose_def finalize_def init_run_def
          settled_payloads_def Let_def)
  have w11: "returned (handle_events (pipe_step ex_parse KillReturns) [LineIn ''ws'', LineIn ''stop'']
                 (init_run ''s'' 1000))"
    using plain ok by (simp del: handle_events.simps)
  have w12: "\<exists>res. runCliAgent (\<lambda>x. x) (\<lambda>m. None) (\<lambda>r. None) (\<lambda>m. False) (\<lambda>s b. None) (\<lambda>s b. None)
               None ''claude-cli'' None ''s'' None False
               (Inr \<lparr>out_text = Some '' ok '', out_sessionId = None\<rparr>) (Inl [])
             = Inr res
           \<and> (\<exists>t. cli_payloads res = Some [\<lparr>payload_text = t, isError = False\<rparr>]
                  \<and> t \<noteq> [] \<and> trim t = t)"
  proof -
    let ?run = "runCliAgent (\<lambda>x. x) (\<lambda>m. None) (\<lambda>r. None) (\<lambda>m. False) (\<lambda>s b. None) (\<lambda>s b. None)
               None ''claude-cli'' None ''s'' None False
               (Inr \<lparr>out_text = Some '' ok '', out_sessionId = None\<rparr>) (Inl [])"
    obtain res where res: "?run = Inr res" "cli_payloads res \<noteq> None"
      using r2 s2 by (simp add: runCliAgent_def Let_def payloadsOfText_def t)
    note th = empty_output_no_payload[where norm = "\<lambda>x. x" and provider = "''claude-cli''"
        and cliBackends = None and classify = "\<lambda>m. None" and status = "\<lambda>r. None"
        and isFailover = "\<lambda>m. False" and parseJson = "\<lambda>s b. None"
        and parseJsonl = "\<lambda>s b. None" and model = None and sessionId = "''s''"
        and sessionIdSent = None and useResume = False and commandOutcome = "Inl []"
        and streamOutcome = "Inr \<lparr>out_text = Some '' ok '', out_sessionId = None\<rparr>",
        THEN conjunct1, THEN spec, THEN mp, THEN conjunct1]
    from th[OF res(1)] res(2)
    have "\<exists>t. cli_payloads res = Some [\<lparr>payload_text = t, isError = False\<rparr>]
            \<and> t \<noteq> [] \<and> trim t = t"
      by simp
    then show ?thesis using res(1) by (intro exI[of _ res]) simp
  qed
  show ?thesis
    using t r1 r2 s1 s2 c ok w1 w2 w3 w4 w5 w6 w7 w8 w9 w10 w11 w12 w13 by simp
qed

text \<open>
  The claim as stated fails in the streaming runners: a block of one space is collected and
  returned as a payload, although it trims to the empty string.
\<close>

theorem whitespace_payload_counterexample:
  "trim '' '' = []
   \<and> handle_events (pipe_step ex_parse KillReturns) [LineIn ''ws'', LineIn ''stop'']
        (init_run ''s'' 1000)
       = Inr (after_events (pipe_step ex_parse KillReturns) [LineIn ''ws'', LineIn ''stop'']
                (init_run ''s'' 1000))
   \<and> collectedTexts (after_events (pipe_step ex_parse KillReturns) [LineIn ''ws'', LineIn ''stop'']
                       (init_run ''s'' 1000))
       = ['' '']
   \<and> settled_payloads
       (onClose (Some 0) (after_events (pipe_step ex_parse KillReturns) [LineIn ''ws'', LineIn ''stop'']
                            (init_run ''s'' 1000)))
       = Some [\<lparr>payload_text = '' '', isError = False\<rparr>]"
proof -
  have t: "trim '' '' = []" "trim ''ws'' = ''ws''" "trim ''stop'' = ''stop''"
    by (simp_all add: trim_def trimEnd_def trimStart_def isWhiteSpace_def)
  show ?thesis
    by (simp add: t after_events_def onLine_def ex_parse_def text_delta_def emit_def init_run_def
          onClose_def finalize_def settled_payloads_def Let_def)
qed

section \<open>The registry under arbitrary operations\<close>

lemma fire_timer_fields:
  "timers (fire_timer (w, s, a, d) r) = filter (\<lambda>x. fst x \<noteq> w) (timers r)"
  "set_store (fire_timer (w, s, a, d) r) = (set_store r)(a := removeAll w (set_store r a))"
  "CLI_RUN_WAITERS (fire_timer (w, s, a, d) r)
     = (if removeAll w (set_store r a) = [] then (CLI_RUN_WAITERS r)(s := None)
        else CLI_RUN_WAITERS r)"
  "resolved (fire_timer (w, s, a, d) r) = resolved r @ [(w, False)]"
  "next_ref (fire_timer (w, s, a, d) r) = next_ref r"
  "clock (fire_timer (w, s, a, d) r) = clock r"
  "ACTIVE_CLI_RUNS (fire_timer (w, s, a, d) r) = ACTIVE_CLI_RUNS r"
  by (simp_all add: fire_timer_def timeoutCallback_def set_delete_def waiters_delete_def
        resolve_promise_def clearTimeout_def Let_def)

lemma wf_fire:
  assumes wf: "registry_wf r" and t: "(w, s, a, d) \<in> set (timers r)"
  shows "registry_wf (fire_timer (w, s, a, d) r)"
proof -
  let ?r' = "fire_timer (w, s, a, d) r"
  have fr: "ids_fresh r" and di: "distinct (map fst (timers r))"
    and ad: "\<And>s a. CLI_RUN_WAITERS r s = Some a \<Longrightarrow> a < next_ref r"
    and inj: "\<And>s s' a. CLI_RUN_WAITERS r s = Some a \<Longrightarrow> CLI_RUN_WAITERS r s' = Some a \<Longrightarrow> s = s'"
    and mem: "\<And>w s a d. (w, s, a, d) \<in> set (timers r) \<Longrightarrow>
                CLI_RUN_WAITERS r s = Some a \<and> w \<in> set (set_store r a)"
    and unr: "\<And>t. t \<in> set (timers r) \<Longrightarrow> fst t \<notin> fst ` set (resolved r)"
    using wf unfolding registry_wf_def by (auto 0 3)
  have lt: "fst (w, s, a, d) < next_ref r" using fr t by (auto simp: ids_fresh_def)
  have 1: "ids_fresh ?r'" using ids_fresh_fire[OF fr lt] by simp
  have 2: "distinct (map fst (timers ?r'))"
    using di by (simp add: fire_timer_fields distinct_map_filter)
  have 3: "\<forall>s a. CLI_RUN_WAITERS ?r' s = Some a \<longrightarrow> a < next_ref ?r'"
    using ad by (auto simp: fire_timer_fields split: if_splits)
  have 4: "\<forall>s s' a. CLI_RUN_WAITERS ?r' s = Some a \<and> CLI_RUN_WAITERS ?r' s' = Some a \<longrightarrow> s = s'"
    using inj by (auto simp: fire_timer_fields split: if_splits)
  have sa: "CLI_RUN_WAITERS r s = Some a" using mem[OF t] by simp
  have 5: "\<forall>t\<in>set (timers ?r').
            CLI_RUN_WAITERS ?r' (fst (snd t)) = Some (fst (snd (snd t)))
            \<and> fst t \<in> set (set_store ?r' (fst (snd (snd t))))"
  proof
    fix t' assume "t' \<in> set (timers ?r')"
    then have b: "t' \<in> set (timers r)" "fst t' \<noteq> w"
      by (simp_all add: fire_timer_fields)
    obtain w' s' a' d' where e: "t' = (w', s', a', d')" by (cases t') auto
    have t': "t' = (w', s', a', d')" "(w', s', a', d') \<in> set (timers r)" "w' \<noteq> w"
      using b e by simp_all
    note m = mem[OF t'(2)]
    show "CLI_RUN_WAITERS ?r' (fst (snd t')) = Some (fst (snd (snd t')))
            \<and> fst t' \<in> set (set_store ?r' (fst (snd (snd t'))))"
    proof (cases "a' = a")
      case True
      then have "s' = s" using inj m sa by blast
      moreover have in': "w' \<in> set (removeAll w (set_store r a))" using m True t'(3) by simp
      moreover from in' have "removeAll w (set_store r a) \<noteq> []"
        by (metis empty_iff empty_set)
      ultimately show ?thesis using m True t'(1) by (simp add: fire_timer_fields)
    next
      case False
      then have "s' \<noteq> s" using m sa by auto
      then show ?thesis using m False t'(1) by (auto simp: fire_timer_fields)
    qed
  qed
  have 6: "\<forall>t\<in>set (timers ?r'). fst t \<notin> fst ` set (resolved ?r')"
    using unr by (auto simp: fire_timer_fields)
  show ?thesis unfolding registry_wf_def using 1 2 3 4 5 6 by blast
qed

lemma fold_fire_timers:
  "timers (fold fire_timer ts r) = filter (\<lambda>x. fst x \<notin> fst ` set ts) (timers r)"
proof (induction ts arbitrary: r)
  case Nil
  then show ?case by simp
next
  case (Cons t ts)
  obtain w s a d where t: "t = (w, s, a, d)" by (cases t) auto
  have "filter (\<lambda>x. fst x \<notin> fst ` set ts) (filter (\<lambda>x. fst x \<noteq> w) (timers r))
          = filter (\<lambda>x. fst x \<notin> fst ` set (t # ts)) (timers r)"
    unfolding t by (induction "timers r") auto
  then show ?case using Cons.IH[of "fire_timer t r"] by (simp add: t fire_timer_fields)
qed

lemma wf_fold_fire:
  "registry_wf r \<Longrightarrow> set ts \<subseteq> set (timers r) \<Longrightarrow> distinct (map fst ts) \<Longrightarrow>
   registry_wf (fold fire_timer ts r)"
proof (induction ts arbitrary: r)
  case Nil
  then show ?case by simp
next
  case (Cons t ts)
  obtain w s a d where t: "t = (w, s, a, d)" by (cases t) auto
  have 1: "registry_wf (fire_timer t r)"
    unfolding t using Cons.prems(1,2) by (intro wf_fire) (simp_all add: t)
  have 2: "set ts \<subseteq> set (timers (fire_timer t r))"
    using Cons.prems(2,3) by (auto simp: t fire_timer_fields image_iff)
  have 3: "distinct (map fst ts)" using Cons.prems(3) by simp
  show ?case using Cons.IH[OF 1 2 3] by simp
qed

lemma distinct_due:
  "distinct (map fst (timers r)) \<Longrightarrow> distinct (map fst (due_timers r))"
proof -
  assume d: "distinct (map fst (timers r))"
  then have "distinct (timers r)" by (simp add: distinct_map)
  have i: "inj_on fst (set (timers r))" using d by (simp add: distinct_map)
  have "set (due_timers r) \<subseteq> set (timers r)" by (auto simp: due_timers_def)
  then have "inj_on fst (set (due_timers r))" using i by (rule inj_on_subset[rotated])
  moreover have "distinct (due_timers r)"
    using \<open>distinct (timers r)\<close> by (simp add: due_timers_def)
  ultimately show ?thesis by (simp add: distinct_map)
qed

lemma wf_advance: "registry_wf r \<Longrightarrow> registry_wf (advance d r)"
proof -
  assume wf: "registry_wf r"
  let ?r1 = "r\<lparr>clock := clock r + d\<rparr>"
  have wf1: "registry_wf ?r1" using wf by (simp add: registry_wf_def ids_fresh_def)
  have s: "set (due_timers ?r1) \<subseteq> set (timers ?r1)" by (auto simp: due_timers_def)
  have di: "distinct (map fst (due_timers ?r1))"
    using wf1 by (intro distinct_due) (simp add: registry_wf_def)
  show ?thesis using wf_fold_fire[OF wf1 s di] by (simp add: advance_def Let_def)
qed

lemma notify_fields:
  assumes "CLI_RUN_WAITERS r sessionId = Some a" "set_store r a \<noteq> []"
  shows "timers (notifyCliRunEnded sessionId r)
           = filter (\<lambda>t. fst t \<notin> set (set_store r a)) (timers r)"
    and "set_store (notifyCliRunEnded sessionId r) = set_store r"
    and "CLI_RUN_WAITERS (notifyCliRunEnded sessionId r) = (CLI_RUN_WAITERS r)(sessionId := None)"
    and "resolved (notifyCliRunEnded sessionId r)
           = resolved r @ map (\<lambda>w. (w, True)) (set_store r a)"
    and "next_ref (notifyCliRunEnded sessionId r) = next_ref r"
  using assms
  by (simp_all add: notifyCliRunEnded_def fold_notify_timers fold_notify_set_store
        fold_notify_waiters fold_notify_resolved fold_notify_next waiters_delete_def)

lemma wf_notify:
  assumes wf: "registry_wf r"
  shows "registry_wf (notifyCliRunEnded sessionId r)"
proof (cases "CLI_RUN_WAITERS r sessionId")
  case None
  then show ?thesis using wf by (simp add: notifyCliRunEnded_def)
next
  case (Some a)
  show ?thesis
  proof (cases "set_store r a = []")
    case True
    then show ?thesis using wf Some by (simp add: notifyCliRunEnded_def)
  next
    case False
    let ?r' = "notifyCliRunEnded sessionId r"
    note f = notify_fields[OF Some False]
    have fr: "ids_fresh r" and di: "distinct (map fst (timers r))"
      and ad: "\<And>s a. CLI_RUN_WAITERS r s = Some a \<Longrightarrow> a < next_ref r"
      and inj: "\<And>s s' a. CLI_RUN_WAITERS r s = Some a \<Longrightarrow> CLI_RUN_WAITERS r s' = Some a \<Longrightarrow> s = s'"
      and mem: "\<And>w s a d. (w, s, a, d) \<in> set (timers r) \<Longrightarrow>
                  CLI_RUN_WAITERS r s = Some a \<and> w \<in> set (set_store r a)"
      and unr: "\<And>t. t \<in> set (timers r) \<Longrightarrow> fst t \<notin> fst ` set (resolved r)"
      using wf unfolding registry_wf_def by (auto 0 3)
    have 1: "ids_fresh ?r'" using fr by (rule ids_fresh_notify)
    have 2: "distinct (map fst (timers ?r'))" using di by (simp add: f distinct_map_filter)
    have 3: "\<forall>s a. CLI_RUN_WAITERS ?r' s = Some a \<longrightarrow> a < next_ref ?r'"
      using ad by (auto simp: f split: if_splits)
    have 4: "\<forall>s s' a. CLI_RUN_WAITERS ?r' s = Some a \<and> CLI_RUN_WAITERS ?r' s' = Some a \<longrightarrow> s = s'"
      using inj by (auto simp: f split: if_splits)
    have 5: "\<forall>t\<in>set (timers ?r').
            CLI_RUN_WAITERS ?r' (fst (snd t)) = Some (fst (snd (snd t)))
            \<and> fst t \<in> set (set_store ?r' (fst (snd (snd t))))"
    proof
      fix t' assume "t' \<in> set (timers ?r')"
      then have b: "t' \<in> set (timers r)" "fst t' \<notin> set (set_store r a)"
        by (simp_all add: f)
      obtain w' s' a' d' where e: "t' = (w', s', a', d')" by (cases t') auto
      note m = mem[OF b(1)[unfolded e]]
      have "s' \<noteq> sessionId" using m b(2) Some e by auto
      then show "CLI_RUN_WAITERS ?r' (fst (snd t')) = Some (fst (snd (snd t')))
            \<and> fst t' \<in> set (set_store ?r' (fst (snd (snd t'))))"
        using m e by (simp add: f)
    qed
    have 6: "\<forall>t\<in>set (timers ?r'). fst t \<notin> fst ` set (resolved ?r')"
    proof
      fix t' assume "t' \<in> set (timers ?r')"
      then have b: "t' \<in> set (timers r)" "fst t' \<notin> set (set_store r a)"
        by (simp_all add: f)
      have "fst t' \<notin> fst ` set (resolved r)" using unr[OF b(1)] .
      moreover have "fst t' \<notin> fst ` (\<lambda>w. (w, True)) ` set (set_store r a)"
        using b(2) by (auto simp: image_iff)
      ultimately show "fst t' \<notin> fst ` set (resolved ?r')"
        by (simp add: f image_Un)
    qed
    show ?thesis unfolding registry_wf_def using 1 2 3 4 5 6 by blast
  qed
qed

lemma wf_set: "registry_wf r \<Longrightarrow> registry_wf (setActiveCliRun sessionId h r)"
  by (simp add: registry_wf_def ids_fresh_def setActiveCliRun_def Let_def)

lemma wf_clear: "registry_wf r \<Longrightarrow> registry_wf (clearActiveCliRun sessionId h r)"
proof -
  assume wf: "registry_wf r"
  have "registry_wf (r\<lparr>ACTIVE_CLI_RUNS := (ACTIVE_CLI_RUNS r)(sessionId := None),
                state_changes := state_changes r @
                  [(sessionId, ''idle'', ''cli_run_completed'')]\<rparr>)"
    using wf by (simp add: registry_wf_def ids_fresh_def)
  then show ?thesis using wf by (simp add: clearActiveCliRun_def wf_notify)
qed

lemma wait_active_fields:
  assumes "sessionId \<noteq> []" "ACTIVE_CLI_RUNS r sessionId = Some h"
  shows "CLI_RUN_WAITERS r sessionId = Some a \<Longrightarrow>
           timers (snd (waitForCliRunEnd sessionId t r))
             = timers r @ [(next_ref r, sessionId, a, clock r + timeout_of t)]
           \<and> set_store (snd (waitForCliRunEnd sessionId t r))
             = (set_store r)(a := (if next_ref r \<in> set (set_store r a) then set_store r a
                                   else set_store r a @ [next_ref r]))
           \<and> CLI_RUN_WAITERS (snd (waitForCliRunEnd sessionId t r)) = CLI_RUN_WAITERS r
           \<and> next_ref (snd (waitForCliRunEnd sessionId t r)) = Suc (next_ref r)"
    and "CLI_RUN_WAITERS r sessionId = None \<Longrightarrow>
           timers (snd (waitForCliRunEnd sessionId t r))
             = timers r @ [(next_ref r, sessionId, Suc (next_ref r), clock r + timeout_of t)]
           \<and> set_store (snd (waitForCliRunEnd sessionId t r))
             = (set_store r)(Suc (next_ref r) := [next_ref r])
           \<and> CLI_RUN_WAITERS (snd (waitForCliRunEnd sessionId t r))
             = (CLI_RUN_WAITERS r)(sessionId \<mapsto> Suc (next_ref r))
           \<and> next_ref (snd (waitForCliRunEnd sessionId t r)) = Suc (Suc (next_ref r))"
  using assms
  by (auto simp add: waitForCliRunEnd_def Let_def set_add_def timeout_of_def fun_upd_idem
        split: option.splits)

lemma wf_wait: "registry_wf r \<Longrightarrow> registry_wf (snd (waitForCliRunEnd sessionId t r))"
proof -
  assume wf: "registry_wf r"
  let ?r' = "snd (waitForCliRunEnd sessionId t r)"
  let ?p = "next_ref r"
  have fr: "ids_fresh r" and di: "distinct (map fst (timers r))"
    and ad: "\<And>s a. CLI_RUN_WAITERS r s = Some a \<Longrightarrow> a < next_ref r"
    and inj: "\<And>s s' a. CLI_RUN_WAITERS r s = Some a \<Longrightarrow> CLI_RUN_WAITERS r s' = Some a \<Longrightarrow> s = s'"
    and mem: "\<And>w s a d. (w, s, a, d) \<in> set (timers r) \<Longrightarrow>
                CLI_RUN_WAITERS r s = Some a \<and> w \<in> set (set_store r a)"
    and unr: "\<And>t. t \<in> set (timers r) \<Longrightarrow> fst t \<notin> fst ` set (resolved r)"
    using wf unfolding registry_wf_def by (auto 0 3)
  have old_lt: "\<And>x. x \<in> set (timers r) \<Longrightarrow> fst x < ?p"
    and res_lt: "\<And>x. x \<in> set (resolved r) \<Longrightarrow> fst x < ?p"
    using fr by (auto simp: ids_fresh_def)
  have 1: "ids_fresh ?r'" using fr by (rule ids_fresh_wait)
  show ?thesis
  proof (cases "sessionId = [] \<or> ACTIVE_CLI_RUNS r sessionId = None")
    case True
    have e: "?r' = r\<lparr>next_ref := Suc ?p, resolved := resolved r @ [(?p, True)]\<rparr>"
      using wait_inactive[OF True] by simp
    have 6: "\<forall>t\<in>set (timers r). fst t \<notin> fst ` set (resolved r @ [(?p, True)])"
    proof
      fix t' assume a: "t' \<in> set (timers r)"
      have "fst t' \<noteq> ?p" using old_lt[OF a] by simp
      then show "fst t' \<notin> fst ` set (resolved r @ [(?p, True)])"
        using unr[OF a] by (simp add: image_Un)
    qed
    show ?thesis
      unfolding registry_wf_def
      using 1 di ad inj mem 6 unfolding e
      by (auto intro: less_SucI)
  next
    case False
    then obtain h where act: "sessionId \<noteq> []" "ACTIVE_CLI_RUNS r sessionId = Some h" by auto
    note wa = wait_active[OF act, of t]
    show ?thesis
    proof (cases "CLI_RUN_WAITERS r sessionId")
      case (Some a)
      note f = wait_active_fields(1)[OF act Some, of t]
      have 2: "distinct (map fst (timers ?r'))"
        using di old_lt by (fastforce simp: f)
      have 3: "\<forall>s a. CLI_RUN_WAITERS ?r' s = Some a \<longrightarrow> a < next_ref ?r'"
        using ad by (auto simp: f intro: less_SucI)
      have 4: "\<forall>s s' a. CLI_RUN_WAITERS ?r' s = Some a \<and> CLI_RUN_WAITERS ?r' s' = Some a \<longrightarrow> s = s'"
        using inj by (auto simp: f)
      have 5: "\<forall>t\<in>set (timers ?r').
            CLI_RUN_WAITERS ?r' (fst (snd t)) = Some (fst (snd (snd t)))
            \<and> fst t \<in> set (set_store ?r' (fst (snd (snd t))))"
        using mem Some by (auto simp: f)
      have 6: "\<forall>t\<in>set (timers ?r'). fst t \<notin> fst ` set (resolved ?r')"
      proof
        fix t' assume "t' \<in> set (timers ?r')"
        then consider "fst t' = ?p" | "t' \<in> set (timers r)"
          by (auto simp: f)
        then show "fst t' \<notin> fst ` set (resolved ?r')"
        proof cases
          case 1
          then show ?thesis using res_lt by (fastforce simp: wa(2))
        next
          case 2
          then show ?thesis using unr[OF 2] by (simp add: wa(2))
        qed
      qed
      show ?thesis unfolding registry_wf_def using 1 2 3 4 5 6 by blast
    next
      case None
      note f = wait_active_fields(2)[OF act None, of t]
      have 2: "distinct (map fst (timers ?r'))"
        using di old_lt by (fastforce simp: f)
      have 3: "\<forall>s a. CLI_RUN_WAITERS ?r' s = Some a \<longrightarrow> a < next_ref ?r'"
        using ad by (auto simp: f intro: less_SucI)
      have 4: "\<forall>s s' a. CLI_RUN_WAITERS ?r' s = Some a \<and> CLI_RUN_WAITERS ?r' s' = Some a \<longrightarrow> s = s'"
      proof (intro allI impI)
        fix s s' a
        assume "CLI_RUN_WAITERS ?r' s = Some a \<and> CLI_RUN_WAITERS ?r' s' = Some a"
        then show "s = s'"
          using inj[of s a s'] ad[of s a] ad[of s' a]
          by (auto simp: f split: if_splits)
      qed
      have 5: "\<forall>t\<in>set (timers ?r').
            CLI_RUN_WAITERS ?r' (fst (snd t)) = Some (fst (snd (snd t)))
            \<and> fst t \<in> set (set_store ?r' (fst (snd (snd t))))"
      proof
        fix t' assume "t' \<in> set (timers ?r')"
        then consider "t' = (?p, sessionId, Suc ?p, clock r + timeout_of t)"
          | "t' \<in> set (timers r)"
          by (auto simp: f)
        then show "CLI_RUN_WAITERS ?r' (fst (snd t')) = Some (fst (snd (snd t')))
            \<and> fst t' \<in> set (set_store ?r' (fst (snd (snd t'))))"
        proof cases
          case 1
          then show ?thesis by (simp add: f)
        next
          case 2
          obtain w' s' a' d' where e: "t' = (w', s', a', d')" by (cases t') auto
          note m = mem[OF 2[unfolded e]]
          have "s' \<noteq> sessionId" using m None by auto
          moreover have "a' \<noteq> Suc ?p" using ad[of s' a'] m by auto
          ultimately show ?thesis using m e by (simp add: f)
        qed
      qed
      have 6: "\<forall>t\<in>set (timers ?r'). fst t \<notin> fst ` set (resolved ?r')"
      proof
        fix t' assume "t' \<in> set (timers ?r')"
        then consider "fst t' = ?p" | "t' \<in> set (timers r)"
          by (auto simp: f)
        then show "fst t' \<notin> fst ` set (resolved ?r')"
        proof cases
          case 1
          then show ?thesis using res_lt by (fastforce simp: wa(2))
        next
          case 2
          then show ?thesis using unr[OF 2] by (simp add: wa(2))
        qed
      qed
      show ?thesis unfolding registry_wf_def using 1 2 3 4 5 6 by blast
    qed
  qed
qed

lemma wf_step: "registry_wf r \<Longrightarrow> registry_wf (registry_step op r)"
  by (cases op) (simp_all add: wf_set wf_clear wf_wait wf_advance)

lemma wf_fold_step: "registry_wf r \<Longrightarrow> registry_wf (fold registry_step ops r)"
  by (induction ops arbitrary: r) (simp_all add: wf_step)

lemma wf_empty: "registry_wf empty_registry"
  by (simp add: registry_wf_def ids_fresh_def empty_registry_def)

lemma outcome_stable:
  "resolved r' = resolved r @ xs \<Longrightarrow> outcome r p = Some b \<Longrightarrow> outcome r' p = Some b"
  by (simp add: outcome_def map_add_def)

lemma step_resolved: "\<exists>xs. resolved (registry_step op r) = resolved r @ xs"
proof (cases op)
  case (SetActive s h)
  then show ?thesis by (simp add: setActiveCliRun_def Let_def)
next
  case (ClearActive s h)
  show ?thesis
  proof (cases "ACTIVE_CLI_RUNS r s = Some h")
    case True
    show ?thesis unfolding ClearActive using clear_match(2)[OF True] by simp
  next
    case False
    then show ?thesis unfolding ClearActive by (simp add: clearActiveCliRun_def)
  qed
next
  case (WaitForEnd s t)
  then show ?thesis
    by (cases "s = [] \<or> ACTIVE_CLI_RUNS r s = None")
       (auto simp add: wait_inactive wait_active(2))
next
  case (Advance d)
  then show ?thesis by (simp add: advance_resolved)
qed

lemma step_outcome_stable: "outcome r p = Some b \<Longrightarrow> outcome (registry_step op r) p = Some b"
  using step_resolved[of op r] outcome_stable by blast

lemma advance_timers:
  "timers (advance d r)
     = filter (\<lambda>x. fst x \<notin> fst ` set (due_timers (r\<lparr>clock := clock r + d\<rparr>))) (timers r)"
  by (simp add: advance_def Let_def fold_fire_timers)

lemma map_of_const_None: "k \<notin> f ` set ws \<Longrightarrow> map_of (map (\<lambda>w. (f w, b)) ws) k = None"
  by (simp add: map_of_const)

lemma tracked_step: "tracked r p s dl \<Longrightarrow> tracked (registry_step op r) p s dl"
proof (cases "outcome r p")
  case (Some b)
  then show ?thesis using step_outcome_stable[OF Some, of op] by (simp add: tracked_def)
next
  case None
  assume "tracked r p s dl"
  then obtain a where tm: "(p, s, a, dl) \<in> set (timers r)" using None by (auto simp: tracked_def)
  show ?thesis
  proof (cases op)
    case (SetActive s' h)
    then show ?thesis using tm by (auto simp: tracked_def setActiveCliRun_def Let_def)
  next
    case (WaitForEnd s' t)
    show ?thesis
    proof (cases "s' = [] \<or> ACTIVE_CLI_RUNS r s' = None")
      case True
      then show ?thesis using tm WaitForEnd by (auto simp: tracked_def wait_inactive)
    next
      case False
      then obtain h where act: "s' \<noteq> []" "ACTIVE_CLI_RUNS r s' = Some h" by auto
      from wait_active(5)[OF act, of t] show ?thesis
        using tm WaitForEnd by (auto simp: tracked_def)
    qed
  next
    case (Advance d)
    let ?due = "due_timers (r\<lparr>clock := clock r + d\<rparr>)"
    show ?thesis
    proof (cases "p \<in> fst ` set ?due")
      case True
      then have "outcome (advance d r) p = Some False"
        using outcome_append[OF None advance_resolved, of d] by simp
      then show ?thesis using Advance by (simp add: tracked_def)
    next
      case False
      then have "(p, s, a, dl) \<in> set (timers (advance d r))"
        using tm by (simp add: advance_timers)
      then show ?thesis using Advance by (auto simp: tracked_def)
    qed
  next
    case (ClearActive s' h)
    show ?thesis
    proof (cases "ACTIVE_CLI_RUNS r s' = Some h")
      case False
      then show ?thesis using tm ClearActive by (auto simp: tracked_def clearActiveCliRun_def)
    next
      case True
      let ?r1 = "r\<lparr>ACTIVE_CLI_RUNS := (ACTIVE_CLI_RUNS r)(s' := None),
                 state_changes := state_changes r @ [(s', ''idle'', ''cli_run_completed'')]\<rparr>"
      have c: "clearActiveCliRun s' h r = notifyCliRunEnded s' ?r1"
        using True by (simp add: clearActiveCliRun_def)
      have w: "waiters_of ?r1 s' = waiters_of r s'"
        by (simp add: waiters_of_def split: option.splits)
      show ?thesis
      proof (cases "p \<in> set (waiters_of r s')")
        case True
        then have "outcome (clearActiveCliRun s' h r) p = Some True"
          using outcome_append[OF None clear_match(2)[OF \<open>ACTIVE_CLI_RUNS r s' = Some h\<close>]]
          by simp
        then show ?thesis using ClearActive by (simp add: tracked_def)
      next
        case False
        then have "(p, s, a, dl) \<in> set (timers (clearActiveCliRun s' h r))"
          using tm unfolding c notify_timers w by simp
        then show ?thesis using ClearActive by (auto simp: tracked_def)
      qed
    qed
  qed
qed

lemma tracked_fold: "tracked r p s dl \<Longrightarrow> tracked (fold registry_step ops r) p s dl"
  by (induction ops arbitrary: r) (simp_all add: tracked_step)

lemma fold_outcome_stable:
  "outcome r p = Some b \<Longrightarrow> outcome (fold registry_step ops r) p = Some b"
  by (induction ops arbitrary: r) (simp_all add: step_outcome_stable)

lemma pending_clear:
  assumes wf: "registry_wf r" and tm: "(p, s, a, dl) \<in> set (timers r)"
    and act: "ACTIVE_CLI_RUNS r s = Some h"
  shows "outcome r p = None \<and> outcome (clearActiveCliRun s h r) p = Some True"
proof -
  have mem: "\<forall>t\<in>set (timers r).
            CLI_RUN_WAITERS r (fst (snd t)) = Some (fst (snd (snd t)))
            \<and> fst t \<in> set (set_store r (fst (snd (snd t))))"
    and unr: "\<forall>t\<in>set (timers r). fst t \<notin> fst ` set (resolved r)"
    using wf unfolding registry_wf_def by simp_all
  have m: "CLI_RUN_WAITERS r s = Some a \<and> p \<in> set (set_store r a)"
    using bspec[OF mem tm] by simp
  have u: "p \<notin> fst ` set (resolved r)"
    using bspec[OF unr tm] by simp
  have o: "outcome r p = None" using u by (simp add: outcome_def map_of_eq_None_iff)
  have "p \<in> set (waiters_of r s)" using m by (simp add: waiters_of_def)
  then show ?thesis using o outcome_append[OF o clear_match(2)[OF act]] by simp
qed

lemma pending_timeout:
  assumes o: "outcome r p = None" and tm: "(p, s, a, dl) \<in> set (timers r)"
    and due: "dl \<le> clock r + d"
  shows "outcome (advance d r) p = Some False"
proof -
  have "(p, s, a, dl) \<in> set (due_timers (r\<lparr>clock := clock r + d\<rparr>))"
    using tm due by (simp add: set_due_timers)
  then have "p \<in> fst ` set (due_timers (r\<lparr>clock := clock r + d\<rparr>))" by force
  then show ?thesis using outcome_append[OF o advance_resolved, of d] by simp
qed

text \<open>
  Claim C4, as amended.  Let the registry be as its operations keep it.
  \<open>waitForCliRunEnd\<close> resolves \<open>true\<close> at once when no run is registered for the key, and
  also when the key is the empty string (the guard \<open>!sessionId\<close>), whether or not a run is
  registered under it.  For a non-empty key with a run registered, the promise is pending
  after the call; it resolves \<open>true\<close> when \<open>clearActiveCliRun\<close> runs for the key with the
  registered handle; without a clear it stays pending while less than the delay has elapsed
  and resolves \<open>false\<close> once the delay has elapsed.  The delay is \<open>max 100 timeoutMs\<close>, with
  \<open>timeoutMs\<close> defaulting to 15000, as long as \<open>timeoutMs\<close> is at most 2147483647; for a
  larger \<open>timeoutMs\<close> it is 1 ms, which is what \<open>setTimeout\<close> makes of a delay that does not
  fit a 32-bit signed integer.  When several callers wait on the key, one clear resolves
  all of them with \<open>true\<close>.  More generally, after any further operations of the
  registry and any passing of time, a promise that is still pending resolves \<open>true\<close> when a
  clear with the registered handle runs for its key and \<open>false\<close> when the clock reaches its
  deadline; and a promise that has a value keeps it.
\<close>

theorem waitForCliRunEnd_outcomes:
  assumes "registry_wf r"
  shows "timeout_of None = 15000 \<and> timeout_of (Some ms) = (if ms \<le> 2147483647 then max 100 ms else 1)
    \<and> (sessionId = [] \<or> ACTIVE_CLI_RUNS r sessionId = None \<longrightarrow>
         outcome (snd (waitForCliRunEnd sessionId t r)) (fst (waitForCliRunEnd sessionId t r))
           = Some True)
    \<and> (sessionId \<noteq> [] \<and> ACTIVE_CLI_RUNS r sessionId = Some h \<longrightarrow>
         outcome (snd (waitForCliRunEnd sessionId t r)) (fst (waitForCliRunEnd sessionId t r))
           = None
       \<and> outcome (clearActiveCliRun sessionId h (snd (waitForCliRunEnd sessionId t r)))
           (fst (waitForCliRunEnd sessionId t r)) = Some True
       \<and> (\<forall>d. d < timeout_of t \<longrightarrow>
             outcome (advance d (snd (waitForCliRunEnd sessionId t r)))
               (fst (waitForCliRunEnd sessionId t r)) = None)
       \<and> (\<forall>d. timeout_of t \<le> d \<longrightarrow>
             outcome (advance d (snd (waitForCliRunEnd sessionId t r)))
               (fst (waitForCliRunEnd sessionId t r)) = Some False)
       \<and> length (fst (waitMany sessionId ts r)) = length ts
       \<and> (\<forall>p\<in>set (fst (waitMany sessionId ts r)).
             outcome (snd (waitMany sessionId ts r)) p = None
           \<and> outcome (clearActiveCliRun sessionId h (snd (waitMany sessionId ts r))) p
               = Some True)
       \<and> (\<forall>h'. outcome (fold registry_step ops (snd (waitForCliRunEnd sessionId t r)))
                   (fst (waitForCliRunEnd sessionId t r)) = None
                \<and> ACTIVE_CLI_RUNS (fold registry_step ops (snd (waitForCliRunEnd sessionId t r)))
                    sessionId = Some h' \<longrightarrow>
              outcome (clearActiveCliRun sessionId h'
                         (fold registry_step ops (snd (waitForCliRunEnd sessionId t r))))
                (fst (waitForCliRunEnd sessionId t r)) = Some True)
       \<and> (\<forall>d. outcome (fold registry_step ops (snd (waitForCliRunEnd sessionId t r)))
                   (fst (waitForCliRunEnd sessionId t r)) = None
                \<and> clock r + timeout_of t
                    \<le> clock (fold registry_step ops (snd (waitForCliRunEnd sessionId t r))) + d \<longrightarrow>
              outcome (advance d (fold registry_step ops (snd (waitForCliRunEnd sessionId t r))))
                (fst (waitForCliRunEnd sessionId t r)) = Some False)
       \<and> (\<forall>b op. outcome (fold registry_step ops (snd (waitForCliRunEnd sessionId t r)))
                   (fst (waitForCliRunEnd sessionId t r)) = Some b \<longrightarrow>
              outcome (registry_step op
                         (fold registry_step ops (snd (waitForCliRunEnd sessionId t r))))
                (fst (waitForCliRunEnd sessionId t r)) = Some b))"
proof -
  have fr: "ids_fresh r" using assms by (simp add: registry_wf_def)
  note basic = wait_outcomes_basic[OF fr, of ms sessionId t h ts]
  have gen: "(\<forall>h'. outcome (fold registry_step ops (snd (waitForCliRunEnd sessionId t r)))
                   (fst (waitForCliRunEnd sessionId t r)) = None
                \<and> ACTIVE_CLI_RUNS (fold registry_step ops (snd (waitForCliRunEnd sessionId t r)))
                    sessionId = Some h' \<longrightarrow>
              outcome (clearActiveCliRun sessionId h'
                         (fold registry_step ops (snd (waitForCliRunEnd sessionId t r))))
                (fst (waitForCliRunEnd sessionId t r)) = Some True)
       \<and> (\<forall>d. outcome (fold registry_step ops (snd (waitForCliRunEnd sessionId t r)))
                   (fst (waitForCliRunEnd sessionId t r)) = None
                \<and> clock r + timeout_of t
                    \<le> clock (fold registry_step ops (snd (waitForCliRunEnd sessionId t r))) + d \<longrightarrow>
              outcome (advance d (fold registry_step ops (snd (waitForCliRunEnd sessionId t r))))
                (fst (waitForCliRunEnd sessionId t r)) = Some False)"
    if act: "sessionId \<noteq> [] \<and> ACTIVE_CLI_RUNS r sessionId = Some h"
  proof -
    let ?p = "fst (waitForCliRunEnd sessionId t r)"
    let ?r1 = "snd (waitForCliRunEnd sessionId t r)"
    let ?r2 = "fold registry_step ops ?r1"
    from act have a1: "sessionId \<noteq> []" and a2: "ACTIVE_CLI_RUNS r sessionId = Some h" by simp_all
    note wa = wait_active[OF a1 a2, of t]
    have "tracked ?r1 ?p sessionId (clock r + timeout_of t)"
      using wa(1,5) by (auto simp: tracked_def)
    then have tr: "tracked ?r2 ?p sessionId (clock r + timeout_of t)" by (rule tracked_fold)
    have wf2: "registry_wf ?r2" using assms by (intro wf_fold_step wf_wait)
    show ?thesis
    proof (intro conjI allI impI)
      fix h'
      assume "outcome ?r2 ?p = None \<and> ACTIVE_CLI_RUNS ?r2 sessionId = Some h'"
      then obtain a where "(?p, sessionId, a, clock r + timeout_of t) \<in> set (timers ?r2)"
          and "ACTIVE_CLI_RUNS ?r2 sessionId = Some h'"
        using tr by (auto simp: tracked_def)
      from pending_clear[OF wf2 this]
      show "outcome (clearActiveCliRun sessionId h' ?r2) ?p = Some True" by simp
    next
      fix d
      assume h: "outcome ?r2 ?p = None \<and> clock r + timeout_of t \<le> clock ?r2 + d"
      then obtain a where "(?p, sessionId, a, clock r + timeout_of t) \<in> set (timers ?r2)"
        using tr by (auto simp: tracked_def)
      from pending_timeout[OF _ this, of d] h
      show "outcome (advance d ?r2) ?p = Some False" by simp
    qed
  qed
  have st: "\<forall>b op. outcome (fold registry_step ops (snd (waitForCliRunEnd sessionId t r)))
                   (fst (waitForCliRunEnd sessionId t r)) = Some b \<longrightarrow>
              outcome (registry_step op
                         (fold registry_step ops (snd (waitForCliRunEnd sessionId t r))))
                (fst (waitForCliRunEnd sessionId t r)) = Some b"
    using step_outcome_stable by blast
  show ?thesis using basic gen st by simp
qed

theorem waitForCliRunEnd_outcomes_witness:
  "registry_wf ex_active
   \<and> ACTIVE_CLI_RUNS ex_active ''t'' = None
   \<and> outcome (snd (waitForCliRunEnd ''t'' None ex_active))
        (fst (waitForCliRunEnd ''t'' None ex_active)) = Some True
   \<and> ''s'' \<noteq> [] \<and> ACTIVE_CLI_RUNS ex_active ''s'' = Some 1
   \<and> outcome (clearActiveCliRun ''s'' 1 (snd (waitForCliRunEnd ''s'' (Some 500) ex_active)))
        (fst (waitForCliRunEnd ''s'' (Some 500) ex_active)) = Some True
   \<and> (499::int) < timeout_of (Some 500)
   \<and> outcome (advance 499 (snd (waitForCliRunEnd ''s'' (Some 500) ex_active)))
        (fst (waitForCliRunEnd ''s'' (Some 500) ex_active)) = None
   \<and> timeout_of (Some 500) \<le> (500::int)
   \<and> outcome (advance 500 (snd (waitForCliRunEnd ''s'' (Some 500) ex_active)))
        (fst (waitForCliRunEnd ''s'' (Some 500) ex_active)) = Some False
   \<and> fst (waitMany ''s'' [None, Some 50] ex_active) = [0, 2]
   \<and> outcome (clearActiveCliRun ''s'' 1 (snd (waitMany ''s'' [None, Some 50] ex_active))) 0
        = Some True
   \<and> outcome (clearActiveCliRun ''s'' 1 (snd (waitMany ''s'' [None, Some 50] ex_active))) 2
        = Some True
   \<and> outcome (fold registry_step [Advance 100, SetActive ''s'' 2]
                 (snd (waitForCliRunEnd ''s'' (Some 500) ex_active)))
        (fst (waitForCliRunEnd ''s'' (Some 500) ex_active)) = None
   \<and> ACTIVE_CLI_RUNS (fold registry_step [Advance 100, SetActive ''s'' 2]
                 (snd (waitForCliRunEnd ''s'' (Some 500) ex_active))) ''s'' = Some 2
   \<and> outcome (clearActiveCliRun ''s'' 2
                 (fold registry_step [Advance 100, SetActive ''s'' 2]
                    (snd (waitForCliRunEnd ''s'' (Some 500) ex_active))))
        (fst (waitForCliRunEnd ''s'' (Some 500) ex_active)) = Some True
   \<and> clock ex_active + timeout_of (Some 500)
        \<le> clock (fold registry_step [Advance 100, SetActive ''s'' 2]
                    (snd (waitForCliRunEnd ''s'' (Some 500) ex_active))) + 400
   \<and> outcome (advance 400
                 (fold registry_step [Advance 100, SetActive ''s'' 2]
                    (snd (waitForCliRunEnd ''s'' (Some 500) ex_active))))
        (fst (waitForCliRunEnd ''s'' (Some 500) ex_active)) = Some False
   \<and> timeout_of (Some 2147483648) \<le> (1::int)
   \<and> outcome (advance 1 (snd (waitForCliRunEnd ''s'' (Some 2147483648) ex_active)))
        (fst (waitForCliRunEnd ''s'' (Some 2147483648) ex_active)) = Some False"
proof -
  let ?W = "waitForCliRunEnd ''s'' (Some 500) ex_active"
  let ?r2 = "fold registry_step [Advance 100, SetActive ''s'' 2] (snd ?W)"
  have wf: "registry_wf ex_active"
    unfolding ex_active_def by (intro wf_set wf_empty)
  have a: "ACTIVE_CLI_RUNS ex_active ''t'' = None" "ACTIVE_CLI_RUNS ex_active ''s'' = Some 1"
    by (simp_all add: ex_active_def setActiveCliRun_def empty_registry_def)
  have m: "fst (waitMany ''s'' [None, Some 50] ex_active) = [0, 2]"
    by (simp add: ex_active_def setActiveCliRun_def empty_registry_def waitForCliRunEnd_def
          set_add_def Let_def)
  have w: "snd ?W = ex_active\<lparr>next_ref := 2, set_store := (\<lambda>_. [])(1 := [0]),
               timers := [(0, ''s'', 1, 500)], CLI_RUN_WAITERS := [''s'' \<mapsto> 1]\<rparr>"
      "fst ?W = 0"
    by (simp_all add: ex_active_def setActiveCliRun_def empty_registry_def waitForCliRunEnd_def
          setTimeout_delay_def set_add_def Let_def)
  have r2: "resolved ?r2 = []" "ACTIVE_CLI_RUNS ?r2 ''s'' = Some 2" "clock ?r2 = 100"
    unfolding w
    by (simp_all add: ex_active_def setActiveCliRun_def empty_registry_def advance_def
          due_timers_def Let_def)
  have o: "outcome ?r2 (fst ?W) = None" unfolding outcome_def r2(1) by simp
  have c: "clock ex_active + timeout_of (Some 500) \<le> clock ?r2 + 400"
    unfolding r2(3)
    by (simp add: timeout_of_def setTimeout_delay_def ex_active_def setActiveCliRun_def
          empty_registry_def)
  show ?thesis
    using waitForCliRunEnd_outcomes[OF wf, where sessionId = "''t''" and t = None]
          waitForCliRunEnd_outcomes[OF wf, where sessionId = "''s''" and t = "Some 500" and h = 1
            and ts = "[None, Some 50]" and ops = "[Advance 100, SetActive ''s'' 2]"]
          waitForCliRunEnd_outcomes[OF wf, where sessionId = "''s''" and t = "Some 2147483648"
            and h = 1]
          wf a m o r2(2) c
    by (simp add: timeout_of_def setTimeout_delay_def
          del: waitMany.simps fold_simps registry_step.simps)
qed

text \<open>
  The claim as stated fails for the empty session key: with a run registered under it, the
  wait resolves \<open>true\<close> at once and is not resolved \<open>false\<close> by the timeout.
\<close>

theorem waitForCliRunEnd_empty_key_counterexample:
  "isCliRunActive [] ex_empty_key
   \<and> ACTIVE_CLI_RUNS ex_empty_key [] = Some 7
   \<and> outcome (snd (waitForCliRunEnd [] (Some 1000) ex_empty_key))
        (fst (waitForCliRunEnd [] (Some 1000) ex_empty_key)) = Some True
   \<and> outcome (advance 1000 (snd (waitForCliRunEnd [] (Some 1000) ex_empty_key)))
        (fst (waitForCliRunEnd [] (Some 1000) ex_empty_key)) \<noteq> Some False"
  by (simp add: ex_empty_key_def isCliRunActive_def setActiveCliRun_def empty_registry_def
        waitForCliRunEnd_def resolve_promise_def outcome_def advance_def due_timers_def Let_def)

end
